theory Spec2Isabelle
  imports Complex_Main "HOL-Library.AList" "HOL-Library.Multiset"
begin

section \<open>Search results\<close>

text \<open>
  The data of \<^verbatim>\<open>search-types.ts\<close>. A JavaScript number is modelled as a real number (a
  finite value, computed exactly; rounding of doubles is not part of this model), an
  optional field as an \<open>option\<close>.
\<close>

datatype search_method = FTS5 | Vector | Hybrid | Like

record result_metadata =
  ftsRank :: "int option"
  vectorSimilarity :: "real option"
  vectorRank :: "int option"
  rrfScore :: "real option"
  cohereScore :: "real option"
  cohereRank :: "int option"
  rerankQuery :: "string option"
  appliedBoost :: "real option"

record SearchResult =
  nodeType :: string
  displayName :: string
  description :: string
  category :: string
  package :: string
  relevanceScore :: real
  searchMethod :: search_method
  metadata :: "result_metadata option"

definition empty_metadata :: result_metadata where
  "empty_metadata =
     \<lparr>ftsRank = None, vectorSimilarity = None, vectorRank = None, rrfScore = None,
      cohereScore = None, cohereRank = None, rerankQuery = None, appliedBoost = None\<rparr>"

text \<open>The spread \<^verbatim>\<open>{...result.metadata}\<close>: an absent metadata object spreads to no field.\<close>

definition spread_metadata :: "result_metadata option \<Rightarrow> result_metadata" where
  "spread_metadata m = (case m of None \<Rightarrow> empty_metadata | Some x \<Rightarrow> x)"

subsection \<open>Library operations of the language\<close>

text \<open>
  \<^verbatim>\<open>Array.prototype.indexOf\<close>: the first index holding the value, or \<open>-1\<close>. An object
  is identified with its value: the index found for an element of the list is its own
  position unless an object with exactly the same fields stands before it.
\<close>

fun indexOf_from :: "'a list \<Rightarrow> 'a \<Rightarrow> int \<Rightarrow> int" where
  "indexOf_from [] x i = -1"
| "indexOf_from (y # ys) x i = (if y = x then i else indexOf_from ys x (i + 1))"

definition indexOf :: "'a list \<Rightarrow> 'a \<Rightarrow> int" where
  "indexOf xs x = indexOf_from xs x 0"

text \<open>
  \<^verbatim>\<open>Array.prototype.sort\<close> with the comparator \<^verbatim>\<open>(a, b) => b.key - a.key\<close>: the language
  defines the sort as stable, so on finite keys the result is the stable arrangement
  by descending key. Insertion from the right, each element placed before the first
  element whose key is not greater, is such a sort.
\<close>

fun insert_desc :: "('a \<Rightarrow> real) \<Rightarrow> 'a \<Rightarrow> 'a list \<Rightarrow> 'a list" where
  "insert_desc key x [] = [x]"
| "insert_desc key x (y # ys) =
     (if key y \<le> key x then x # y # ys else y # insert_desc key x ys)"

definition sort_desc :: "('a \<Rightarrow> real) \<Rightarrow> 'a list \<Rightarrow> 'a list" where
  "sort_desc key xs = foldr (insert_desc key) xs []"

text \<open>
  \<^verbatim>\<open>Array.prototype.slice(start, end)\<close> on integer arguments: a negative argument counts
  from the end of the array, and both are clamped to the array.
\<close>

definition slice_index :: "nat \<Rightarrow> int \<Rightarrow> nat" where
  "slice_index len i = (if i < 0 then nat (max (int len + i) 0) else min (nat i) len)"

definition slice :: "'a list \<Rightarrow> int \<Rightarrow> int \<Rightarrow> 'a list" where
  "slice xs start stop =
     (let lo = slice_index (length xs) start; hi = slice_index (length xs) stop
      in take (hi - lo) (drop lo xs))"

definition slice_from :: "'a list \<Rightarrow> int \<Rightarrow> 'a list" where
  "slice_from xs start = drop (slice_index (length xs) start) xs"

text \<open>
  A \<^verbatim>\<open>Map\<close> is an association list in insertion order: \<^verbatim>\<open>set\<close> on a present key
  replaces the value in place, on a new key appends the entry (\<^const>\<open>AList.update\<close>);
  \<^verbatim>\<open>get\<close> is \<^const>\<open>map_of\<close>; iteration follows the list.
\<close>

type_synonym ('k, 'v) js_map = "('k \<times> 'v) list"

section \<open>Rank fusion\<close>

record rrf_weights =
  weight_fts5 :: real
  weight_vector :: real

record RRFFusion =
  rrf_k :: real
  rrf_weights :: rrf_weights

text \<open>The constructor: \<open>k\<close> from the options (60 by default), weights \<open>1.0\<close> unless given.\<close>

definition new_RRFFusion :: "real \<Rightarrow> rrf_weights option \<Rightarrow> RRFFusion" where
  "new_RRFFusion k_opt weights_opt =
     \<lparr>rrf_k = k_opt,
      rrf_weights = (case weights_opt of None \<Rightarrow> \<lparr>weight_fts5 = 1, weight_vector = 1\<rparr>
                                        | Some w \<Rightarrow> w)\<rparr>"

definition default_RRFFusion :: RRFFusion where
  "default_RRFFusion = new_RRFFusion 60 None"

text \<open>
  \<^verbatim>\<open>createUnifiedDocumentSet\<close>: the lexical results are entered first, each under its
  \<open>nodeType\<close>; a vector result whose key is already present turns the entry into a
  \<open>hybrid\<close> one, otherwise it is entered as a \<open>vector\<close> one.
\<close>

definition add_fts5_document ::
  "SearchResult list \<Rightarrow> (string, SearchResult) js_map \<Rightarrow> SearchResult \<Rightarrow>
   (string, SearchResult) js_map" where
  "add_fts5_document fts5Results documents result =
     AList.update (nodeType result)
       (result\<lparr>searchMethod := FTS5,
               metadata := Some ((spread_metadata (metadata result))
                 \<lparr>ftsRank := Some (indexOf fts5Results result + 1)\<rparr>)\<rparr>)
       documents"

definition add_vector_document ::
  "SearchResult list \<Rightarrow> (string, SearchResult) js_map \<Rightarrow> SearchResult \<Rightarrow>
   (string, SearchResult) js_map" where
  "add_vector_document vectorResults documents result =
     (case map_of documents (nodeType result) of
        Some existing \<Rightarrow>
          AList.update (nodeType result)
            (existing\<lparr>searchMethod := Hybrid,
                      metadata := Some ((spread_metadata (metadata existing))
                        \<lparr>vectorSimilarity := Some (relevanceScore result),
                         vectorRank := Some (indexOf vectorResults result + 1)\<rparr>)\<rparr>)
            documents
      | None \<Rightarrow>
          AList.update (nodeType result)
            (result\<lparr>searchMethod := Vector,
                    metadata := Some ((spread_metadata (metadata result))
                      \<lparr>vectorSimilarity := Some (relevanceScore result),
                       vectorRank := Some (indexOf vectorResults result + 1)\<rparr>)\<rparr>)
            documents)"

definition createUnifiedDocumentSet ::
  "SearchResult list \<Rightarrow> SearchResult list \<Rightarrow> (string, SearchResult) js_map" where
  "createUnifiedDocumentSet fts5Results vectorResults =
     foldl (add_vector_document vectorResults)
       (foldl (add_fts5_document fts5Results) [] fts5Results)
       vectorResults"

text \<open>
  The ranking maps of \<^verbatim>\<open>calculateRRFScores\<close>: \<^verbatim>\<open>forEach((result, index) => set(nodeType,
  index + 1))\<close>, so a repeated identifier keeps the rank of its last occurrence.
\<close>

fun build_rankings ::
  "SearchResult list \<Rightarrow> int \<Rightarrow> (string, int) js_map \<Rightarrow> (string, int) js_map" where
  "build_rankings [] index rankings = rankings"
| "build_rankings (result # results) index rankings =
     build_rankings results (index + 1) (AList.update (nodeType result) (index + 1) rankings)"

text \<open>
  The score of one document. The division \<^verbatim>\<open>1 / (this.k + rank)\<close> is the division of
  real numbers here; the two agree as long as \<open>k + rank\<close> is not zero, which holds for
  every \<open>k \<ge> 0\<close>, ranks being positive.
\<close>

definition rrf_score_of ::
  "RRFFusion \<Rightarrow> (string, int) js_map \<Rightarrow> (string, int) js_map \<Rightarrow> string \<Rightarrow> real" where
  "rrf_score_of this fts5Rankings vectorRankings nodeType_key =
     (let score0 = 0;
          score1 = (case map_of fts5Rankings nodeType_key of
                      Some fts_rank \<Rightarrow>
                        score0 + weight_fts5 (rrf_weights this) * (1 / (rrf_k this + of_int fts_rank))
                    | None \<Rightarrow> score0);
          score2 = (case map_of vectorRankings nodeType_key of
                      Some vector_rank \<Rightarrow>
                        score1 + weight_vector (rrf_weights this) * (1 / (rrf_k this + of_int vector_rank))
                    | None \<Rightarrow> score1)
      in score2)"

definition calculateRRFScores ::
  "RRFFusion \<Rightarrow> (string, SearchResult) js_map \<Rightarrow> SearchResult list \<Rightarrow> SearchResult list \<Rightarrow>
   (string, real) js_map" where
  "calculateRRFScores this documents fts5Results vectorResults =
     (let fts5Rankings = build_rankings fts5Results 0 [];
          vectorRankings = build_rankings vectorResults 0 []
      in foldl (\<lambda>rrfScores (nodeType_key, document).
                  AList.update nodeType_key
                    (rrf_score_of this fts5Rankings vectorRankings nodeType_key) rrfScores)
           [] documents)"

text \<open>\<^verbatim>\<open>createFusedResults\<close>: \<^verbatim>\<open>rrfScores.get(nodeType) || 0\<close> is 0 for a missing score.\<close>

definition createFusedResults ::
  "(string, SearchResult) js_map \<Rightarrow> (string, real) js_map \<Rightarrow> SearchResult list" where
  "createFusedResults documents rrfScores =
     map (\<lambda>(nodeType_key, document).
            let score = (case map_of rrfScores nodeType_key of Some s \<Rightarrow> s | None \<Rightarrow> 0)
            in document\<lparr>relevanceScore := score,
                        metadata := Some ((spread_metadata (metadata document))
                          \<lparr>rrfScore := Some score\<rparr>)\<rparr>)
         documents"

text \<open>
  \<^verbatim>\<open>fuseResults\<close>. The \<^verbatim>\<open>catch\<close> branch of the source (return the lexical results, or the
  vector results when there are none) is not a branch here: on arrays of search results
  no operation of the \<^verbatim>\<open>try\<close> block throws.
\<close>

definition fuseResults :: "RRFFusion \<Rightarrow> SearchResult list \<Rightarrow> SearchResult list \<Rightarrow> SearchResult list" where
  "fuseResults this fts5Results vectorResults =
     (let allDocuments = createUnifiedDocumentSet fts5Results vectorResults;
          rrfScores = calculateRRFScores this allDocuments fts5Results vectorResults;
          fusedResults = createFusedResults allDocuments rrfScores
      in sort_desc relevanceScore fusedResults)"

subsection \<open>The tuning helper\<close>


text \<open>
  \<^verbatim>\<open>RRFFusion.getOptimalK(fts5Count, vectorCount)\<close>: the two counts are added and the
  sum is compared with 10 and with 50, in this order.
\<close>

definition getOptimalK :: "int \<Rightarrow> int \<Rightarrow> int" where
  "getOptimalK fts5Count vectorCount =
     (let totalResults = fts5Count + vectorCount
      in if totalResults < 10 then 30
         else if totalResults < 50 then 60
         else 90)"

section \<open>Vector store\<close>

subsection \<open>Numbers that a division can produce\<close>

text \<open>
  A quotient of two finite numbers is finite, or an infinity (a non-zero number over
  zero), or \<^verbatim>\<open>NaN\<close> (zero over zero). The denominators of this program are products of
  square roots, so a zero denominator is the positive zero.
\<close>

datatype js_number = Finite real | PosInfinity | NegInfinity | NaN

definition js_divide :: "real \<Rightarrow> real \<Rightarrow> js_number" where
  "js_divide x y =
     (if y \<noteq> 0 then Finite (x / y)
      else if x = 0 then NaN
      else if 0 < x then PosInfinity
      else NegInfinity)"

definition isNaN :: "js_number \<Rightarrow> bool" where
  "isNaN x = (x = NaN)"

text \<open>An exception, with its message.\<close>

datatype error = Error string

subsection \<open>Cosine similarity\<close>

text \<open>
  \<^verbatim>\<open>calculateCosineSimilarity\<close>: vectors of different lengths raise; otherwise one loop
  accumulates the dot product and the two squared norms, and a \<^verbatim>\<open>NaN\<close> quotient is
  replaced by 0. The vectors hold finite numbers. This definition computes with exact
  numbers; the next subsection has the same function with the rounding of the doubles.
\<close>

definition cosine_step :: "real list \<Rightarrow> real list \<Rightarrow> real \<times> real \<times> real \<Rightarrow> nat \<Rightarrow> real \<times> real \<times> real" where
  "cosine_step a b acc i =
     (case acc of (dotProduct, normA, normB) \<Rightarrow>
        (dotProduct + a ! i * b ! i, normA + a ! i * a ! i, normB + b ! i * b ! i))"

definition calculateCosineSimilarity :: "real list \<Rightarrow> real list \<Rightarrow> error + js_number" where
  "calculateCosineSimilarity a b =
     (if length a \<noteq> length b then Inl (Error ''Vectors must have the same length'')
      else
        (case foldl (cosine_step a b) (0, 0, 0) [0..<length a] of
           (dotProduct, normA, normB) \<Rightarrow>
             let similarity = js_divide dotProduct (sqrt normA * sqrt normB)
             in Inr (if isNaN similarity then Finite 0 else similarity)))"

subsection \<open>Cosine similarity in double precision\<close>

text \<open>
  The numbers of the language are IEEE 754 doubles: each operation, the square root
  included, returns the exact result rounded to the nearest double, a tie going to the
  even significand. \<^const>\<open>calculateCosineSimilarity\<close> above computes with exact numbers;
  the following model of the same function rounds after every operation. The rounding
  is that of the normal range (53 significant bits); overflow and subnormal numbers are
  not modelled.
\<close>

definition round_half_even :: "real \<Rightarrow> int" where
  "round_half_even y =
     (let n = \<lfloor>y\<rfloor>; r = y - of_int n
      in if r < 1 / 2 then n else if 1 / 2 < r then n + 1 else if even n then n else n + 1)"

definition double_round :: "real \<Rightarrow> real" where
  "double_round x =
     (if x = 0 then 0
      else (let e = \<lfloor>log 2 \<bar>x\<bar>\<rfloor> - 52
            in of_int (round_half_even (x / 2 powr of_int e)) * 2 powr of_int e))"

definition js_divide_double :: "real \<Rightarrow> real \<Rightarrow> js_number" where
  "js_divide_double x y =
     (if y \<noteq> 0 then Finite (double_round (x / y))
      else if x = 0 then NaN
      else if 0 < x then PosInfinity
      else NegInfinity)"

definition cosine_step_double :: "real list \<Rightarrow> real list \<Rightarrow> real \<times> real \<times> real \<Rightarrow> nat \<Rightarrow> real \<times> real \<times> real" where
  "cosine_step_double a b acc i =
     (case acc of (dotProduct, normA, normB) \<Rightarrow>
        (double_round (dotProduct + double_round (a ! i * b ! i)),
         double_round (normA + double_round (a ! i * a ! i)),
         double_round (normB + double_round (b ! i * b ! i))))"

definition calculateCosineSimilarity_double :: "real list \<Rightarrow> real list \<Rightarrow> error + js_number" where
  "calculateCosineSimilarity_double a b =
     (if length a \<noteq> length b then Inl (Error ''Vectors must have the same length'')
      else
        (case foldl (cosine_step_double a b) (0, 0, 0) [0..<length a] of
           (dotProduct, normA, normB) \<Rightarrow>
             let similarity =
                   js_divide_double dotProduct
                     (double_round (double_round (sqrt normA) * double_round (sqrt normB)))
             in Inr (if isNaN similarity then Finite 0 else similarity)))"

subsection \<open>Tables\<close>

text \<open>
  The embedding columns that the migration adds to both tables, and \<open>updated_at\<close>. A
  column that can be \<^verbatim>\<open>NULL\<close> is an \<open>option\<close>; a timestamp is a natural number, compared as
  the stored texts are. The stored vector is the decoded array of numbers.
\<close>

record embedding_columns =
  embedding_vector :: "real list option"
  embedding_content_hash :: "string option"
  embedding_generated_at :: "nat option"
  embedding_model :: "string option"
  embedding_dimensions :: "nat option"
  updated_at :: "nat option"

record node_row = embedding_columns +
  node_type :: string
  display_name :: string
  node_description :: "string option"
  node_category :: "string option"
  package_name :: string
  documentation :: "string option"
  operations :: "string option"

record template_row = embedding_columns +
  template_id :: int
  workflow_id :: int
  template_name :: string
  template_description :: "string option"
  categories :: "string option"
  nodes_used :: "string option"

text \<open>
  The database: the rows of each table, or \<open>None\<close> when the table is missing, so that
  a statement on it throws.
\<close>

record database =
  nodes_table :: "node_row list option"
  templates_table :: "template_row list option"

text \<open>\<^verbatim>\<open>value || ''\<close> on a text column.\<close>

definition or_empty :: "string option \<Rightarrow> string" where
  "or_empty v = (case v of None \<Rightarrow> [] | Some s \<Rightarrow> s)"

text \<open>The decimal digits of an integer, as \<^verbatim>\<open>`template:${template.id}`\<close> prints them.\<close>

fun digits_of :: "nat \<Rightarrow> string" where
  "digits_of n =
     (if n < 10 then [char_of (48 + n)]
      else digits_of (n div 10) @ [char_of (48 + n mod 10)])"

definition string_of_int :: "int \<Rightarrow> string" where
  "string_of_int i = (if i < 0 then CHR ''-'' # digits_of (nat (- i)) else digits_of (nat i))"

subsection \<open>Similarity search\<close>

record VectorSearchOptions =
  queryVector :: "real list"
  limit :: int
  threshold :: "real option"
  includeDistances :: "bool option"

text \<open>
  The loop over the rows that have a vector. A row whose vector has another length
  than the query makes the similarity computation throw; the exception is caught inside
  the loop and the row is skipped. Otherwise the row is kept when its similarity, the
  double that \<^const>\<open>calculateCosineSimilarity_double\<close> returns, reaches the threshold.
  That double is always finite (shown below), so the last case never applies.
\<close>

fun similarity_scan ::
  "real list \<Rightarrow> real \<Rightarrow> ('r \<times> real list) list \<Rightarrow> ('r \<times> real) list \<Rightarrow> ('r \<times> real) list" where
  "similarity_scan query_vector min_similarity [] similarities = similarities"
| "similarity_scan query_vector min_similarity ((row, row_embedding) # rows) similarities =
     (case calculateCosineSimilarity_double query_vector row_embedding of
        Inl failure \<Rightarrow> similarity_scan query_vector min_similarity rows similarities
      | Inr (Finite similarity) \<Rightarrow>
          similarity_scan query_vector min_similarity rows
            (if similarity \<ge> min_similarity then similarities @ [(row, similarity)]
             else similarities)
      | Inr _ \<Rightarrow> similarity_scan query_vector min_similarity rows similarities)"

text \<open>\<^verbatim>\<open>WHERE embedding_vector IS NOT NULL\<close>, each row with its vector.\<close>

definition with_embeddings :: "('a embedding_columns_scheme) list \<Rightarrow> ('a embedding_columns_scheme \<times> real list) list" where
  "with_embeddings rows =
     List.map_filter (\<lambda>row. map_option (Pair row) (embedding_vector row)) rows"

text \<open>
  The conversion of a kept row to a search result, the \<^verbatim>\<open>map\<close> that ends both searches.
\<close>

definition node_result :: "bool \<Rightarrow> node_row \<times> real \<Rightarrow> SearchResult" where
  "node_result include_distances entry =
     (case entry of (node, similarity) \<Rightarrow>
        \<lparr>nodeType = node_type node,
         displayName = display_name node,
         description = or_empty (node_description node),
         category = or_empty (node_category node),
         package = package_name node,
         relevanceScore = similarity,
         searchMethod = Vector,
         metadata = (if include_distances
                     then Some (empty_metadata\<lparr>vectorSimilarity := Some similarity\<rparr>)
                     else None)\<rparr>)"

definition template_result :: "bool \<Rightarrow> template_row \<times> real \<Rightarrow> SearchResult" where
  "template_result include_distances entry =
     (case entry of (template, similarity) \<Rightarrow>
        \<lparr>nodeType = ''template:'' @ string_of_int (template_id template),
         displayName = template_name template,
         description = or_empty (template_description template),
         category = ''template'',
         package = ''n8n-templates'',
         relevanceScore = similarity,
         searchMethod = Vector,
         metadata = (if include_distances
                     then Some (empty_metadata\<lparr>vectorSimilarity := Some similarity\<rparr>)
                     else None)\<rparr>)"

text \<open>
  \<^verbatim>\<open>findSimilarNodes\<close>. The threshold is 0.5 unless the options give one, and
  \<open>includeDistances\<close> is false unless given. A failing statement is caught: the result is
  the empty list.
\<close>

definition findSimilarNodes :: "database \<Rightarrow> real list \<Rightarrow> VectorSearchOptions \<Rightarrow> SearchResult list" where
  "findSimilarNodes db query_vector options =
     (let max_results = limit options;
          min_similarity = (case threshold options of None \<Rightarrow> 0.5 | Some t \<Rightarrow> t);
          include_distances = (case includeDistances options of None \<Rightarrow> False | Some b \<Rightarrow> b)
      in case nodes_table db of
           None \<Rightarrow> []
         | Some rows \<Rightarrow>
             let nodesWithEmbeddings = with_embeddings rows;
                 similarities = similarity_scan query_vector min_similarity nodesWithEmbeddings [];
                 sorted_similarities = sort_desc snd similarities;
                 topResults = slice sorted_similarities 0 max_results
             in map (node_result include_distances) topResults)"

text \<open>\<^verbatim>\<open>findSimilarTemplates\<close>: the same scan over the templates table.\<close>

definition findSimilarTemplates :: "database \<Rightarrow> real list \<Rightarrow> VectorSearchOptions \<Rightarrow> SearchResult list" where
  "findSimilarTemplates db query_vector options =
     (let max_results = limit options;
          min_similarity = (case threshold options of None \<Rightarrow> 0.5 | Some t \<Rightarrow> t);
          include_distances = (case includeDistances options of None \<Rightarrow> False | Some b \<Rightarrow> b)
      in case templates_table db of
           None \<Rightarrow> []
         | Some rows \<Rightarrow>
             let templatesWithEmbeddings = with_embeddings rows;
                 similarities = similarity_scan query_vector min_similarity templatesWithEmbeddings [];
                 sorted_similarities = sort_desc snd similarities;
                 topResults = slice sorted_similarities 0 max_results
             in map (template_result include_distances) topResults)"

subsection \<open>Which entities need an embedding\<close>

text \<open>
  The \<^verbatim>\<open>WHERE\<close> clause of both queries:
  \<^verbatim>\<open>embedding_vector IS NULL OR embedding_content_hash IS NULL OR
  embedding_generated_at < updated_at\<close>. A comparison with \<^verbatim>\<open>NULL\<close> is not true. Both
  functions prepare their statement before the \<^verbatim>\<open>try\<close> block: on a missing table the
  exception of \<^verbatim>\<open>prepare\<close> reaches the caller.
\<close>

definition sql_less :: "nat option \<Rightarrow> nat option \<Rightarrow> bool" where
  "sql_less x y = (case (x, y) of (Some a, Some b) \<Rightarrow> a < b | _ \<Rightarrow> False)"

definition needs_embedding :: "'a embedding_columns_scheme \<Rightarrow> bool" where
  "needs_embedding row \<longleftrightarrow>
     embedding_vector row = None \<or> embedding_content_hash row = None \<or>
     sql_less (embedding_generated_at row) (updated_at row)"

definition getNodesNeedingEmbeddings :: "database \<Rightarrow> error + node_row list" where
  "getNodesNeedingEmbeddings db =
     (case nodes_table db of
        None \<Rightarrow> Inl (Error ''no such table: nodes'')
      | Some rows \<Rightarrow> Inr (filter needs_embedding rows))"

definition getTemplatesNeedingEmbeddings :: "database \<Rightarrow> error + template_row list" where
  "getTemplatesNeedingEmbeddings db =
     (case templates_table db of
        None \<Rightarrow> Inl (Error ''no such table: templates'')
      | Some rows \<Rightarrow> Inr (filter needs_embedding rows))"

text \<open>
  \<^verbatim>\<open>saveEmbedding\<close> and \<^verbatim>\<open>saveTemplateEmbedding\<close>: the \<^verbatim>\<open>UPDATE\<close> of the rows with the given
  key, at the time \<open>now\<close> (\<^verbatim>\<open>CURRENT_TIMESTAMP\<close>). A failing statement is thrown on.
\<close>

definition set_embedding ::
  "real list \<Rightarrow> string \<Rightarrow> string \<Rightarrow> nat \<Rightarrow> 'a embedding_columns_scheme \<Rightarrow> 'a embedding_columns_scheme" where
  "set_embedding embedding contentHash model now row =
     row\<lparr>embedding_vector := Some embedding,
         embedding_content_hash := Some contentHash,
         embedding_generated_at := Some now,
         embedding_model := Some model,
         embedding_dimensions := Some (length embedding)\<rparr>"

definition saveEmbedding ::
  "database \<Rightarrow> nat \<Rightarrow> string \<Rightarrow> real list \<Rightarrow> string \<Rightarrow> string \<Rightarrow> error + database" where
  "saveEmbedding db now nodeType_key embedding contentHash model =
     (case nodes_table db of
        None \<Rightarrow> Inl (Error ''statement failed'')
      | Some rows \<Rightarrow>
          Inr (db\<lparr>nodes_table :=
                 Some (map (\<lambda>row. if node_type row = nodeType_key
                                   then set_embedding embedding contentHash model now row
                                   else row) rows)\<rparr>))"

definition saveTemplateEmbedding ::
  "database \<Rightarrow> nat \<Rightarrow> int \<Rightarrow> real list \<Rightarrow> string \<Rightarrow> string \<Rightarrow> error + database" where
  "saveTemplateEmbedding db now templateId embedding contentHash model =
     (case templates_table db of
        None \<Rightarrow> Inl (Error ''statement failed'')
      | Some rows \<Rightarrow>
          Inr (db\<lparr>templates_table :=
                 Some (map (\<lambda>row. if template_id row = templateId
                                   then set_embedding embedding contentHash model now row
                                   else row) rows)\<rparr>))"

section \<open>Embedding provider client\<close>

text \<open>
  The provider's answer to \<^verbatim>\<open>embeddings.create\<close>: the items, each with the index of the
  input it belongs to, and the token usage.
\<close>

record embedding_item =
  item_embedding :: "real list"
  item_index :: int

record embedding_response =
  response_data :: "embedding_item list"
  usage_total_tokens :: nat

text \<open>The result of a batch; the elapsed wall-clock time is left out.\<close>

record BatchEmbeddingResult =
  embeddings :: "real list list"
  totalTokens :: nat
  totalCost :: real

text \<open>
  What lies outside the service: whether \<^verbatim>\<open>OPENAI_API_KEY\<close> is set, whether the client
  library loads, and the provider itself. The provider's answer to a request may differ
  from one request to the next, so it takes the number of requests sent before; \<open>None\<close>
  is a request that throws.
\<close>

record embedding_world =
  openai_api_key :: bool
  openai_import_ok :: bool
  provider :: "nat \<Rightarrow> string list \<Rightarrow> embedding_response option"

text \<open>
  The service: whether the client has been created, the configuration, and the number
  of requests sent so far (kept here to address the provider).
\<close>

record EmbeddingService =
  openai :: bool
  batchSize :: nat
  model_name :: string
  dimensions :: nat
  maxRetries :: nat
  requests_sent :: nat

record openai_config =
  config_batchSize :: "nat option"
  config_model :: "string option"
  config_maxRetries :: "nat option"

text \<open>
  The constructor: \<^verbatim>\<open>config.openai.batchSize || 100\<close> and its like replace an absent value
  and a zero by the default.
\<close>

definition or_default :: "nat option \<Rightarrow> nat \<Rightarrow> nat" where
  "or_default v d = (case v of None \<Rightarrow> d | Some n \<Rightarrow> if n = 0 then d else n)"

definition new_EmbeddingService :: "openai_config option \<Rightarrow> EmbeddingService" where
  "new_EmbeddingService config =
     (case config of
        None \<Rightarrow>
          \<lparr>openai = False, batchSize = 100, model_name = ''text-embedding-3-small'',
           dimensions = 1536, maxRetries = 3, requests_sent = 0\<rparr>
      | Some c \<Rightarrow>
          \<lparr>openai = False,
           batchSize = or_default (config_batchSize c) 100,
           model_name = (case config_model c of None \<Rightarrow> ''text-embedding-3-small''
                         | Some m \<Rightarrow> if m = [] then ''text-embedding-3-small'' else m),
           dimensions = 1536,
           maxRetries = or_default (config_maxRetries c) 3,
           requests_sent = 0\<rparr>)"

definition costPerToken :: real where
  "costPerToken = 0.00002 / 1000"

definition initializeOpenAI :: "embedding_world \<Rightarrow> EmbeddingService \<Rightarrow> error + EmbeddingService" where
  "initializeOpenAI world this =
     (if openai this then Inr this
      else if \<not> openai_api_key world
        then Inl (Error ''OPENAI_API_KEY environment variable is required'')
      else if \<not> openai_import_ok world
        then Inl (Error ''Failed to initialize OpenAI client. Make sure openai package is installed.'')
      else Inr (this\<lparr>openai := True\<rparr>))"

text \<open>
  \<^verbatim>\<open>createBatches\<close>: \<^verbatim>\<open>for (let i = 0; i < texts.length; i += batchSize)\<close>. With a batch size
  of 0 the loop of the source does not end; \<open>None\<close> stands for that.
\<close>

partial_function (option) createBatches_from ::
  "'a list \<Rightarrow> nat \<Rightarrow> nat \<Rightarrow> 'a list list \<Rightarrow> 'a list list option" where
  "createBatches_from texts batch_size i batches =
     (if i < length texts
      then createBatches_from texts batch_size (i + batch_size)
             (batches @ [slice texts (int i) (int (i + batch_size))])
      else Some batches)"

definition createBatches :: "'a list \<Rightarrow> nat \<Rightarrow> 'a list list option" where
  "createBatches texts batch_size = createBatches_from texts batch_size 0 []"

text \<open>
  \<^verbatim>\<open>processBatch\<close>: up to \<open>maxRetries\<close> attempts. An attempt fails when the client is
  missing or the request throws; the waiting between attempts takes time only. An
  answer is sorted by the index of its items, a stable sort by ascending key
  (\<^const>\<open>sort_key\<close>), and the vectors are taken in that order.
\<close>

function processBatch_attempts ::
  "embedding_world \<Rightarrow> EmbeddingService \<Rightarrow> string list \<Rightarrow> nat \<Rightarrow>
   (error + BatchEmbeddingResult) \<times> EmbeddingService" where
  "processBatch_attempts world this texts attempt =
     (if attempt < maxRetries this then
        (if \<not> openai this then processBatch_attempts world this texts (attempt + 1)
         else
           (case provider world (requests_sent this) texts of
              None \<Rightarrow>
                processBatch_attempts world (this\<lparr>requests_sent := requests_sent this + 1\<rparr>)
                  texts (attempt + 1)
            | Some response \<Rightarrow>
                (Inr \<lparr>embeddings = map item_embedding (sort_key item_index (response_data response)),
                      totalTokens = usage_total_tokens response,
                      totalCost = real (usage_total_tokens response) * costPerToken\<rparr>,
                 this\<lparr>requests_sent := requests_sent this + 1\<rparr>)))
      else (Inl (Error ''Failed to process batch''), this))"
  by pat_completeness auto
termination
  by (relation "measure (\<lambda>(world, this, texts, attempt). maxRetries this - attempt)") auto

definition processBatch ::
  "embedding_world \<Rightarrow> EmbeddingService \<Rightarrow> string list \<Rightarrow>
   (error + BatchEmbeddingResult) \<times> EmbeddingService" where
  "processBatch world this texts = processBatch_attempts world this texts 0"

text \<open>
  The loop of \<^verbatim>\<open>generateEmbeddings\<close> over the batches, one after the other; a batch that
  fails ends the loop with its error.
\<close>

fun process_batches ::
  "embedding_world \<Rightarrow> EmbeddingService \<Rightarrow> string list list \<Rightarrow> BatchEmbeddingResult \<Rightarrow>
   (error + BatchEmbeddingResult) \<times> EmbeddingService" where
  "process_batches world this [] acc = (Inr acc, this)"
| "process_batches world this (batch # batches) acc =
     (case processBatch world this batch of
        (Inl failure, this') \<Rightarrow> (Inl failure, this')
      | (Inr batchResult, this') \<Rightarrow>
          process_batches world this' batches
            \<lparr>embeddings = embeddings acc @ embeddings batchResult,
             totalTokens = totalTokens acc + totalTokens batchResult,
             totalCost = totalCost acc + totalCost batchResult\<rparr>)"

definition generateEmbeddings ::
  "embedding_world \<Rightarrow> EmbeddingService \<Rightarrow> string list \<Rightarrow>
   ((error + BatchEmbeddingResult) \<times> EmbeddingService) option" where
  "generateEmbeddings world this texts =
     (if texts = [] then Some (Inr \<lparr>embeddings = [], totalTokens = 0, totalCost = 0\<rparr>, this)
      else
        (case initializeOpenAI world this of
           Inl failure \<Rightarrow> Some (Inl failure, this)
         | Inr this' \<Rightarrow>
             (case createBatches texts (batchSize this') of
                None \<Rightarrow> None
              | Some batches \<Rightarrow>
                  Some (process_batches world this' batches
                          \<lparr>embeddings = [], totalTokens = 0, totalCost = 0\<rparr>))))"

section \<open>Reranker client\<close>

subsection \<open>Text helpers\<close>

text \<open>
  \<^verbatim>\<open>String.prototype.trim\<close>, \<^verbatim>\<open>Array.prototype.join\<close>, and the replacement of a leading
  prefix (\<^verbatim>\<open>replace(/^prefix/, '')\<close>). A string is a list of characters with codes below
  256; among these the language counts as white space the six blanks of ASCII and the
  no-break space \<open>U+00A0\<close>.
\<close>

definition is_whitespace :: "char \<Rightarrow> bool" where
  "is_whitespace c \<longleftrightarrow>
     c \<in> set [CHR '' '', CHR 0x09, CHR 0x0A, CHR 0x0B, CHR 0x0C, CHR 0x0D, CHR 0xA0]"

definition trim :: "string \<Rightarrow> string" where
  "trim s = rev (dropWhile is_whitespace (rev (dropWhile is_whitespace s)))"

fun join :: "string \<Rightarrow> string list \<Rightarrow> string" where
  "join sep [] = []"
| "join sep [part] = part"
| "join sep (part # next_part # parts) = part @ sep @ join sep (next_part # parts)"

definition strip_prefix :: "string \<Rightarrow> string \<Rightarrow> string" where
  "strip_prefix p s = (if take (length p) s = p then drop (length p) s else s)"

subsection \<open>The provider and the client\<close>

text \<open>
  One entry of the provider's \<open>results\<close>: the index of a document and its relevance,
  under the new or the old property name, either of which may be missing.
\<close>

record rerank_item =
  result_index :: int
  result_relevanceScore :: "real option"
  result_relevance_score :: "real option"

record rerank_response =
  response_results :: "rerank_item list option"

record rerank_request =
  request_model :: string
  request_query :: string
  request_documents :: "string list"
  request_top_n :: int
  request_max_chunks_per_doc :: "int option"
  request_return_documents :: "bool option"

text \<open>
  An attempt of the remote call is rejected (network, authentication), or answers with
  something that cannot be read as a response (reading it throws), or answers with a
  response. The answer may change from one attempt to the next.
\<close>

datatype rerank_outcome = Rejected | Unreadable | Responded rerank_response

record rerank_world =
  cohere_api_key :: bool
  cohere_import_ok :: bool
  rerank_api :: "nat \<Rightarrow> rerank_request \<Rightarrow> rerank_outcome"

record CohereReranker =
  client :: bool
  reranker_model :: string
  maxDocuments :: int
  reranker_maxRetries :: nat

record CohereRerankOptions =
  options_model :: string
  topN :: int
  returnDocuments :: "bool option"
  maxChunksPerDoc :: "int option"

definition new_CohereReranker :: CohereReranker where
  "new_CohereReranker =
     \<lparr>client = False, reranker_model = ''rerank-multilingual-v3.0'', maxDocuments = 1000,
      reranker_maxRetries = 3\<rparr>"

definition initializeCohere :: "rerank_world \<Rightarrow> CohereReranker \<Rightarrow> error + CohereReranker" where
  "initializeCohere world this =
     (if client this then Inr this
      else if \<not> cohere_api_key world
        then Inl (Error ''COHERE_API_KEY environment variable is required'')
      else if \<not> cohere_import_ok world
        then Inl (Error ''Failed to initialize Cohere client. Make sure cohere-ai package is installed.'')
      else Inr (this\<lparr>client := True\<rparr>))"

definition isAvailable :: "rerank_world \<Rightarrow> CohereReranker \<Rightarrow> bool \<times> CohereReranker" where
  "isAvailable world this =
     (case initializeCohere world this of
        Inl failure \<Rightarrow> (False, this)
      | Inr this' \<Rightarrow> (True, this'))"

text \<open>\<^verbatim>\<open>prepareDocuments\<close>: the non-blank fields of a document, joined.\<close>

definition prepareDocuments :: "SearchResult list \<Rightarrow> string list" where
  "prepareDocuments documents =
     map (\<lambda>doc.
            join '' | ''
              (filter (\<lambda>part. part \<noteq> [] \<and> trim part \<noteq> [])
                 [displayName doc, description doc, category doc,
                  strip_prefix ''nodes-langchain.'' (strip_prefix ''nodes-base.'' (nodeType doc))]))
         documents"

text \<open>
  \<^verbatim>\<open>processRerankResponse\<close>. The relevance is
  \<^verbatim>\<open>result.relevanceScore ?? result.relevance_score ?? 0\<close>. An entry whose index names no
  document is passed over. A response without entries gives the documents back.
\<close>

definition item_score :: "rerank_item \<Rightarrow> real" where
  "item_score result =
     (case result_relevanceScore result of
        Some s \<Rightarrow> s
      | None \<Rightarrow> (case result_relevance_score result of Some s \<Rightarrow> s | None \<Rightarrow> 0))"

fun rerank_collect ::
  "rerank_item list \<Rightarrow> SearchResult list \<Rightarrow> string \<Rightarrow> SearchResult list \<Rightarrow> SearchResult list" where
  "rerank_collect [] originalDocuments query_text rerankedResults = rerankedResults"
| "rerank_collect (result # rest) originalDocuments query_text rerankedResults =
     (let originalIndex = result_index result
      in if 0 \<le> originalIndex \<and> originalIndex < int (length originalDocuments)
         then
           (let originalDocument = originalDocuments ! nat originalIndex;
                score = item_score result
            in rerank_collect rest originalDocuments query_text
                 (rerankedResults @
                  [originalDocument
                     \<lparr>relevanceScore := score,
                      searchMethod := Hybrid,
                      metadata := Some ((spread_metadata (metadata originalDocument))
                        \<lparr>cohereScore := Some score,
                         cohereRank := Some (int (length rerankedResults) + 1),
                         rerankQuery := Some query_text\<rparr>)\<rparr>]))
         else rerank_collect rest originalDocuments query_text rerankedResults)"

definition processRerankResponse ::
  "rerank_response \<Rightarrow> SearchResult list \<Rightarrow> string \<Rightarrow> SearchResult list" where
  "processRerankResponse response originalDocuments query_text =
     (case response_results response of
        None \<Rightarrow> originalDocuments
      | Some entries \<Rightarrow>
          if entries = [] then originalDocuments
          else rerank_collect entries originalDocuments query_text [])"

text \<open>
  \<^verbatim>\<open>rerankWithRetries\<close>: up to \<open>maxRetries\<close> attempts; reading the response is part of the
  attempt. When all have failed the function throws.
\<close>

definition rerank_request_of :: "string \<Rightarrow> string list \<Rightarrow> CohereRerankOptions \<Rightarrow> rerank_request" where
  "rerank_request_of query_text cohereDocuments options =
     \<lparr>request_model = options_model options,
      request_query = query_text,
      request_documents = cohereDocuments,
      request_top_n = topN options,
      request_max_chunks_per_doc = maxChunksPerDoc options,
      request_return_documents = returnDocuments options\<rparr>"

function rerank_attempts ::
  "rerank_world \<Rightarrow> CohereReranker \<Rightarrow> rerank_request \<Rightarrow> SearchResult list \<Rightarrow> string \<Rightarrow> nat \<Rightarrow>
   error + SearchResult list" where
  "rerank_attempts world this request originalDocuments query_text attempt =
     (if attempt < reranker_maxRetries this then
        (case rerank_api world attempt request of
           Responded response \<Rightarrow> Inr (processRerankResponse response originalDocuments query_text)
         | Rejected \<Rightarrow> rerank_attempts world this request originalDocuments query_text (attempt + 1)
         | Unreadable \<Rightarrow> rerank_attempts world this request originalDocuments query_text (attempt + 1))
      else Inl (Error ''Cohere reranking failed''))"
  by pat_completeness auto
termination
  by (relation "measure (\<lambda>(world, this, request, originalDocuments, query_text, attempt).
        reranker_maxRetries this - attempt)") auto

definition rerankWithRetries ::
  "rerank_world \<Rightarrow> CohereReranker \<Rightarrow> string \<Rightarrow> string list \<Rightarrow> SearchResult list \<Rightarrow>
   CohereRerankOptions \<Rightarrow> error + SearchResult list" where
  "rerankWithRetries world this query_text cohereDocuments originalDocuments options =
     rerank_attempts world this (rerank_request_of query_text cohereDocuments options)
       originalDocuments query_text 0"

text \<open>
  \<^verbatim>\<open>rerank\<close>. Everything after the first test runs inside \<^verbatim>\<open>try\<close>, and the \<^verbatim>\<open>catch\<close> returns
  the documents: the function returns a list on every path. The client, once created,
  stays.
\<close>

definition rerank ::
  "rerank_world \<Rightarrow> CohereReranker \<Rightarrow> string \<Rightarrow> SearchResult list \<Rightarrow> CohereRerankOptions \<Rightarrow>
   SearchResult list \<times> CohereReranker" where
  "rerank world this query_text documents options =
     (if documents = [] \<or> trim query_text = [] then (documents, this)
      else
        (let limitedDocuments =
               slice documents 0 (min (int (length documents)) (maxDocuments this))
         in case initializeCohere world this of
              Inl failure \<Rightarrow> (documents, this)
            | Inr this' \<Rightarrow>
                if \<not> client this' then (documents, this')
                else
                  (let cohereDocuments = prepareDocuments limitedDocuments
                   in case rerankWithRetries world this' query_text cohereDocuments
                             limitedDocuments options of
                        Inl failure \<Rightarrow> (documents, this')
                      | Inr rerankedResults \<Rightarrow>
                          (rerankedResults @ slice_from documents (maxDocuments this'), this'))))"

section \<open>Hybrid search orchestrator\<close>

text \<open>
  The search options, and the partial options a caller passes. The entries of
  \<open>searchMethods\<close> are \<open>fts5\<close> and \<open>vector\<close>.
\<close>

record HybridSearchOptions =
  options_query :: string
  result_limit :: int
  rrfK :: real
  enableReranking :: bool
  searchMethods :: "search_method list"
  includeMetadata :: bool

record partial_options =
  given_query :: "string option"
  given_limit :: "int option"
  given_rrfK :: "real option"
  given_enableReranking :: "bool option"
  given_searchMethods :: "search_method list option"
  given_includeMetadata :: "bool option"

text \<open>
  What lies outside the engine: whether the table \<open>nodes_fts\<close> exists, the rows the
  full-text statement returns for a query text and a limit (\<open>None\<close> when it throws), what
  the embedding service that was handed to the engine answers to \<^verbatim>\<open>getEmbedding\<close>, and the
  world of the reranker.
\<close>

record search_world =
  fts_table_exists :: bool
  fts5_match :: "string \<Rightarrow> int \<Rightarrow> node_row list option"
  getEmbedding :: "string \<Rightarrow> error + real list"
  reranking :: rerank_world

type_synonym cache_key = "string \<times> int \<times> real \<times> bool \<times> search_method list"

text \<open>
  Modelled from the spec: the class \<^verbatim>\<open>SimpleCache\<close> of \<^verbatim>\<open>utils/simple-cache\<close> is not among the
  sources. The specification describes it as a key-value map from a key to a result
  list with an expiry; here it is the association list of the entries that have not
  expired, \<^verbatim>\<open>get\<close> looking a key up and \<^verbatim>\<open>set\<close> storing a list under a key.
\<close>

type_synonym simple_cache = "(cache_key \<times> SearchResult list) list"

definition cache_get :: "simple_cache \<Rightarrow> cache_key \<Rightarrow> SearchResult list option" where
  "cache_get c k = map_of c k"

definition cache_set :: "simple_cache \<Rightarrow> cache_key \<Rightarrow> SearchResult list \<Rightarrow> simple_cache" where
  "cache_set c k v = AList.update k v c"

text \<open>
  The engine: the database of its vector repository with the columns of the \<open>nodes\<close>
  table (\<open>None\<close> when they cannot be listed), the fusion, the reranker, the cache.
\<close>

record HybridSearchEngine =
  engine_db :: database
  node_columns :: "string list option"
  rrfFusion :: RRFFusion
  cohereReranker :: CohereReranker
  cache :: "simple_cache option"
  enableCache :: bool
  defaultOptions :: partial_options

text \<open>
  \<^verbatim>\<open>mergeOptions\<close>: the object literal ends with \<^verbatim>\<open>...this.defaultOptions, ...options\<close>, so
  a value the caller gives wins, then a value of the default options, then the
  built-in default.
\<close>

definition pick :: "'a option \<Rightarrow> 'a option \<Rightarrow> 'a \<Rightarrow> 'a" where
  "pick given configured builtin =
     (case given of
        Some v \<Rightarrow> v
      | None \<Rightarrow> (case configured of Some v \<Rightarrow> v | None \<Rightarrow> builtin))"

definition mergeOptions :: "HybridSearchEngine \<Rightarrow> partial_options \<Rightarrow> HybridSearchOptions" where
  "mergeOptions this options =
     \<lparr>options_query = pick (given_query options) (given_query (defaultOptions this)) [],
      result_limit = pick (given_limit options) (given_limit (defaultOptions this)) 20,
      rrfK = pick (given_rrfK options) (given_rrfK (defaultOptions this)) 60,
      enableReranking =
        pick (given_enableReranking options) (given_enableReranking (defaultOptions this)) True,
      searchMethods =
        pick (given_searchMethods options) (given_searchMethods (defaultOptions this)) [FTS5, Vector],
      includeMetadata =
        pick (given_includeMetadata options) (given_includeMetadata (defaultOptions this)) False\<rparr>"

text \<open>
  \<^verbatim>\<open>getCacheKey\<close>: the serialised object is represented by the tuple of its fields, the
  methods sorted as their names are (\<open>fts5\<close> before \<open>vector\<close>).
\<close>

definition method_rank :: "search_method \<Rightarrow> nat" where
  "method_rank m = (case m of FTS5 \<Rightarrow> 0 | Hybrid \<Rightarrow> 1 | Like \<Rightarrow> 2 | Vector \<Rightarrow> 3)"

definition getCacheKey :: "string \<Rightarrow> HybridSearchOptions \<Rightarrow> cache_key" where
  "getCacheKey query_text options =
     (query_text, result_limit options, rrfK options, enableReranking options,
      sort_key method_rank (searchMethods options))"

text \<open>
  \<^verbatim>\<open>executeFTS5Search\<close>: the words of the query joined by \<open>OR\<close>, the rows in the order the
  statement returns them, each scored \<open>1 - index / max(n, 1)\<close>. A missing table and a
  failing statement both give the empty list.
\<close>

fun split_whitespace :: "string \<Rightarrow> string \<Rightarrow> string list" where
  "split_whitespace [] word = (if word = [] then [] else [word])"
| "split_whitespace (c # cs) word =
     (if is_whitespace c
      then (if word = [] then split_whitespace cs [] else word # split_whitespace cs [])
      else split_whitespace cs (word @ [c]))"

definition fts5_result :: "nat \<Rightarrow> node_row \<times> nat \<Rightarrow> SearchResult" where
  "fts5_result n entry =
     (case entry of (node, index) \<Rightarrow>
        \<lparr>nodeType = node_type node,
         displayName = display_name node,
         description = or_empty (node_description node),
         category = or_empty (node_category node),
         package = package_name node,
         relevanceScore = 1 - real index / real (max n 1),
         searchMethod = FTS5,
         metadata = Some (empty_metadata\<lparr>ftsRank := Some (int index + 1)\<rparr>)\<rparr>)"

definition executeFTS5Search :: "search_world \<Rightarrow> string \<Rightarrow> int \<Rightarrow> SearchResult list" where
  "executeFTS5Search world query_text max_results =
     (if \<not> fts_table_exists world then []
      else
        (let words = split_whitespace query_text [];
             ftsQuery = join '' OR '' words
         in case fts5_match world ftsQuery max_results of
              None \<Rightarrow> []
            | Some nodes \<Rightarrow> map (fts5_result (length nodes)) (zip nodes [0..<length nodes])))"

text \<open>\<^verbatim>\<open>isVectorStorageReady\<close>: the three embedding columns exist.\<close>

definition isVectorStorageReady :: "HybridSearchEngine \<Rightarrow> bool" where
  "isVectorStorageReady this =
     (case node_columns this of
        None \<Rightarrow> False
      | Some existingColumns \<Rightarrow>
          list_all (\<lambda>col. col \<in> set existingColumns)
            [''embedding_vector'', ''embedding_content_hash'', ''embedding_generated_at''])"

text \<open>
  \<^verbatim>\<open>executeVectorSearch\<close>: every failure inside, that of the embedding service included, is
  caught and gives the empty list. The threshold passed on is the literal \<^verbatim>\<open>0.2\<close>, the
  double nearest to 1/5.
\<close>

definition executeVectorSearch ::
  "search_world \<Rightarrow> HybridSearchEngine \<Rightarrow> string \<Rightarrow> int \<Rightarrow> SearchResult list" where
  "executeVectorSearch world this query_text max_results =
     (if \<not> isVectorStorageReady this then []
      else
        (case getEmbedding world query_text of
           Inl failure \<Rightarrow> []
         | Inr query_vector \<Rightarrow>
             findSimilarNodes (engine_db this) query_vector
               \<lparr>queryVector = query_vector, limit = max_results, threshold = Some (double_round (1 / 5)),
                includeDistances = Some True\<rparr>))"

text \<open>
  The stages of \<^verbatim>\<open>executeSearchPipeline\<close>: the two searches and their fusion, the
  reranking, the cut to the limit.
\<close>

definition fusion_stage ::
  "HybridSearchEngine \<Rightarrow> HybridSearchOptions \<Rightarrow> SearchResult list \<Rightarrow> SearchResult list \<Rightarrow>
   SearchResult list" where
  "fusion_stage this options fts5Results vectorResults =
     (if length (searchMethods options) > 1 \<and> fts5Results \<noteq> [] \<and> vectorResults \<noteq> []
        then fuseResults (rrfFusion this) fts5Results vectorResults
      else if fts5Results \<noteq> [] \<and> vectorResults = [] then fts5Results
      else if vectorResults \<noteq> [] \<and> fts5Results = [] then vectorResults
      else fts5Results @ vectorResults)"

definition rerank_stage ::
  "search_world \<Rightarrow> HybridSearchEngine \<Rightarrow> string \<Rightarrow> HybridSearchOptions \<Rightarrow> SearchResult list \<Rightarrow>
   SearchResult list \<times> CohereReranker" where
  "rerank_stage world this query_text options fusedResults =
     (if enableReranking options \<and> fusedResults \<noteq> [] then
        (case isAvailable (reranking world) (cohereReranker this) of
           (True, reranker) \<Rightarrow>
             rerank (reranking world) reranker query_text fusedResults
               \<lparr>options_model = ''rerank-multilingual-v3.0'', topN = result_limit options,
                returnDocuments = Some False, maxChunksPerDoc = None\<rparr>
         | (False, reranker) \<Rightarrow> (fusedResults, reranker))
      else (fusedResults, cohereReranker this))"

definition search_and_fuse ::
  "search_world \<Rightarrow> HybridSearchEngine \<Rightarrow> string \<Rightarrow> HybridSearchOptions \<Rightarrow> SearchResult list" where
  "search_and_fuse world this query_text options =
     (let fts5Results =
            (if FTS5 \<in> set (searchMethods options)
             then executeFTS5Search world query_text (result_limit options * 2) else []);
          vectorResults =
            (if Vector \<in> set (searchMethods options)
             then executeVectorSearch world this query_text (result_limit options * 2) else [])
      in fusion_stage this options fts5Results vectorResults)"

definition executeSearchPipeline ::
  "search_world \<Rightarrow> HybridSearchEngine \<Rightarrow> string \<Rightarrow> HybridSearchOptions \<Rightarrow>
   SearchResult list \<times> CohereReranker" where
  "executeSearchPipeline world this query_text options =
     (let fusedResults = search_and_fuse world this query_text options
      in case rerank_stage world this query_text options fusedResults of
           (finalResults, reranker) \<Rightarrow> (slice finalResults 0 (result_limit options), reranker))"

text \<open>
  \<^verbatim>\<open>search\<close>. An empty or blank query returns the empty list, a cached list is returned
  as it is, and otherwise the pipeline runs and its list is cached. The \<^verbatim>\<open>catch\<close> of the
  source throws on whatever the pipeline throws; every stage of the pipeline catches
  its own failures, so that the result is a list on every path.
\<close>

definition search ::
  "search_world \<Rightarrow> HybridSearchEngine \<Rightarrow> string \<Rightarrow> partial_options \<Rightarrow>
   (error + SearchResult list) \<times> HybridSearchEngine" where
  "search world this query_text options =
     (let searchOptions = mergeOptions this options
      in if query_text = [] \<or> trim query_text = [] then (Inr [], this)
         else
           (let cleanQuery = trim query_text;
                cacheKey = getCacheKey cleanQuery searchOptions;
                cached = (if enableCache this
                          then (case cache this of None \<Rightarrow> None | Some c \<Rightarrow> cache_get c cacheKey)
                          else None)
            in case cached of
                 Some hit \<Rightarrow> (Inr hit, this)
               | None \<Rightarrow>
                   (case executeSearchPipeline world this cleanQuery searchOptions of
                      (found, reranker) \<Rightarrow>
                        (Inr found,
                         this\<lparr>cohereReranker := reranker,
                              cache := (if enableCache this
                                        then map_option (\<lambda>c. cache_set c cacheKey found) (cache this)
                                        else cache this)\<rparr>))))"

section \<open>Embedding generation script\<close>

subsection \<open>The searchable text of an entity\<close>

text \<open>
  The values that \<^verbatim>\<open>JSON.parse\<close> returns; an object is the list of its properties, one
  entry for each name.
\<close>

datatype json =
  JNull | JBool bool | JNumber real | JString string | JArray "json list"
  | JObject "(string \<times> json) list"

text \<open>
  Two library functions are taken as they come: \<^verbatim>\<open>JSON.parse\<close>, which throws on a text
  that is not JSON, and the SHA-256 digest of a text in hexadecimal.
\<close>

record content_library =
  JSON_parse :: "string \<Rightarrow> error + json"
  sha256_hex :: "string \<Rightarrow> string"

text \<open>
  \<^verbatim>\<open>Array.prototype.map\<close> with a callback that can throw: the first exception ends the
  loop.
\<close>

fun map_throwing :: "('a \<Rightarrow> error + 'b) \<Rightarrow> 'a list \<Rightarrow> error + 'b list" where
  "map_throwing f [] = Inr []"
| "map_throwing f (x # xs) =
     (case f x of
        Inl failure \<Rightarrow> Inl failure
      | Inr y \<Rightarrow> (case map_throwing f xs of
                    Inl failure \<Rightarrow> Inl failure
                  | Inr ys \<Rightarrow> Inr (y # ys)))"

text \<open>The values that count as false in \<^verbatim>\<open>value || ''\<close>.\<close>

fun is_falsy :: "json \<Rightarrow> bool" where
  "is_falsy JNull = True"
| "is_falsy (JBool b) = (\<not> b)"
| "is_falsy (JNumber x) = (x = 0)"
| "is_falsy (JString s) = (s = [])"
| "is_falsy (JArray xs) = False"
| "is_falsy (JObject properties) = False"

text \<open>
  \<^verbatim>\<open>op.name || ''\<close>: reading a property of \<^verbatim>\<open>null\<close> throws; a value that is not an object
  has no property \<open>name\<close>.
\<close>

fun operation_name :: "json \<Rightarrow> error + json" where
  "operation_name JNull = Inl (Error ''Cannot read properties of null'')"
| "operation_name (JObject properties) =
     (case map_of properties ''name'' of
        None \<Rightarrow> Inr (JString [])
      | Some v \<Rightarrow> Inr (if is_falsy v then JString [] else v))"
| "operation_name other = Inr (JString [])"

text \<open>
  \<^verbatim>\<open>JSON.parse(operations).map(op => op.name || '')\<close>: only an array has the method
  \<^verbatim>\<open>map\<close>.
\<close>

definition operation_names :: "content_library \<Rightarrow> string \<Rightarrow> error + json list" where
  "operation_names lib operations_text =
     (case JSON_parse lib operations_text of
        Inl failure \<Rightarrow> Inl failure
      | Inr (JArray ops) \<Rightarrow> map_throwing operation_name ops
      | Inr other \<Rightarrow> Inl (Error ''map is not a function''))"

text \<open>
  The spread \<^verbatim>\<open>...JSON.parse(categories)\<close>: the elements of an array, the characters of a
  string; no other value can be iterated.
\<close>

definition spread_json :: "content_library \<Rightarrow> string \<Rightarrow> error + json list" where
  "spread_json lib categories_text =
     (case JSON_parse lib categories_text of
        Inl failure \<Rightarrow> Inl failure
      | Inr (JArray xs) \<Rightarrow> Inr xs
      | Inr (JString s) \<Rightarrow> Inr (map (\<lambda>c. JString [c]) s)
      | Inr other \<Rightarrow> Inl (Error ''not iterable''))"

text \<open>
  \<^verbatim>\<open>.filter(part => part.trim().length > 0)\<close>: a part that is not a string has no method
  \<^verbatim>\<open>trim\<close>, and the call throws.
\<close>

fun part_text :: "json \<Rightarrow> error + string" where
  "part_text (JString s) = Inr s"
| "part_text other = Inl (Error ''part.trim is not a function'')"

definition non_blank_parts :: "json list \<Rightarrow> error + string list" where
  "non_blank_parts parts =
     (case map_throwing part_text parts of
        Inl failure \<Rightarrow> Inl failure
      | Inr texts \<Rightarrow> Inr (filter (\<lambda>part. length (trim part) > 0) texts))"

text \<open>
  What \<^verbatim>\<open>prepareEmbeddingContent\<close> returns: the key of the entity, its searchable text and
  the hash of that text. The \<open>metadata\<close> of the source, which the script does not read, is
  left out.
\<close>

record EmbeddingContent =
  content_nodeType :: string
  content :: string
  contentHash :: string

text \<open>
  \<^verbatim>\<open>EmbeddingService.prepareEmbeddingContent(nodeData, type)\<close>, on a row of the nodes
  table with the type \<^verbatim>\<open>'node'\<close> and on a row of the templates table with the type
  \<^verbatim>\<open>'template'\<close>. The operations and the categories are read only when the column holds a
  non-empty text.
\<close>

definition prepareEmbeddingContent ::
  "content_library \<Rightarrow> node_row + template_row \<Rightarrow> error + EmbeddingContent" where
  "prepareEmbeddingContent lib nodeData =
     (case nodeData of
        Inl node \<Rightarrow>
          (case (if or_empty (operations node) \<noteq> []
                 then operation_names lib (or_empty (operations node))
                 else Inr []) of
             Inl failure \<Rightarrow> Inl failure
           | Inr names \<Rightarrow>
               (case non_blank_parts
                       ([JString (display_name node),
                         JString (or_empty (node_description node)),
                         JString (or_empty (node_category node)),
                         JString (or_empty (documentation node))] @ names) of
                  Inl failure \<Rightarrow> Inl failure
                | Inr contentParts \<Rightarrow>
                    (let searchable = join '' | '' contentParts
                     in Inr \<lparr>content_nodeType = node_type node, content = searchable,
                             contentHash = sha256_hex lib searchable\<rparr>)))
      | Inr template \<Rightarrow>
          (case (if or_empty (categories template) \<noteq> []
                 then spread_json lib (or_empty (categories template))
                 else Inr []) of
             Inl failure \<Rightarrow> Inl failure
           | Inr category_parts \<Rightarrow>
               (case non_blank_parts
                       ([JString (template_name template),
                         JString (or_empty (template_description template))] @ category_parts) of
                  Inl failure \<Rightarrow> Inl failure
                | Inr contentParts \<Rightarrow>
                    (let searchable = join '' | '' contentParts
                     in Inr \<lparr>content_nodeType = ''template:'' @ string_of_int (template_id template),
                             content = searchable,
                             contentHash = sha256_hex lib searchable\<rparr>))))"

subsection \<open>Which reported entities are embedded again\<close>

text \<open>
  The first half of the body of the batch loop, in \<^verbatim>\<open>generateNodeEmbeddings\<close> and in
  \<^verbatim>\<open>generateTemplateEmbeddings\<close>, when the run is not a dry run. The batch is a slice
  of the rows that the query for missing embeddings has reported. The content of each row is prepared; an exception
  there ends the batch. Then a row is skipped when regeneration is not forced and its
  \<open>current_hash\<close>, the stored \<open>embedding_content_hash\<close>, is the hash of its content. The
  rows kept are those whose content goes to the embedding service and whose vectors are
  saved afterwards.
\<close>

definition changed_entries ::
  "bool \<Rightarrow> ('a embedding_columns_scheme \<times> EmbeddingContent) list \<Rightarrow>
   ('a embedding_columns_scheme \<times> EmbeddingContent) list" where
  "changed_entries forceRegenerate entries =
     filter (\<lambda>(row, prepared).
               \<not> (\<not> forceRegenerate \<and> embedding_content_hash row = Some (contentHash prepared)))
       entries"

definition nodesToSave ::
  "content_library \<Rightarrow> bool \<Rightarrow> node_row list \<Rightarrow> error + (node_row \<times> EmbeddingContent) list" where
  "nodesToSave lib forceRegenerate batch =
     (case map_throwing (\<lambda>node. prepareEmbeddingContent lib (Inl node)) batch of
        Inl failure \<Rightarrow> Inl failure
      | Inr contents \<Rightarrow> Inr (changed_entries forceRegenerate (zip batch contents)))"

definition templatesToSave ::
  "content_library \<Rightarrow> bool \<Rightarrow> template_row list \<Rightarrow>
   error + (template_row \<times> EmbeddingContent) list" where
  "templatesToSave lib forceRegenerate batch =
     (case map_throwing (\<lambda>template. prepareEmbeddingContent lib (Inr template)) batch of
        Inl failure \<Rightarrow> Inl failure
      | Inr contents \<Rightarrow> Inr (changed_entries forceRegenerate (zip batch contents)))"

section \<open>Notions used in the statements\<close>

subsection \<open>Rank fusion\<close>

text \<open>The identifiers of a result list, and how often one occurs in it.\<close>

definition ids :: "SearchResult list \<Rightarrow> string set" where
  "ids xs = nodeType ` set xs"

definition occurrences :: "SearchResult list \<Rightarrow> string \<Rightarrow> nat" where
  "occurrences xs e = length (filter (\<lambda>r. nodeType r = e) xs)"

text \<open>
  An entity has rank \<open>r\<close> in a list when it stands at position \<open>r\<close>, counted from 1, and
  not again further down. In a list without repeated identifiers this is the position
  of the entity.
\<close>

definition ranked_at :: "SearchResult list \<Rightarrow> string \<Rightarrow> nat \<Rightarrow> bool" where
  "ranked_at xs e r \<longleftrightarrow>
     1 \<le> r \<and> r \<le> length xs \<and> nodeType (xs ! (r - 1)) = e \<and>
     (\<forall>j. r \<le> j \<and> j < length xs \<longrightarrow> nodeType (xs ! j) \<noteq> e)"

text \<open>The score a fused list gives to an identifier: that of the first result carrying it.\<close>

definition fused_score :: "SearchResult list \<Rightarrow> string \<Rightarrow> real option" where
  "fused_score results e = map_option relevanceScore (find (\<lambda>r. nodeType r = e) results)"

text \<open>
  The state of the document map: keys are distinct, every entry is filed under its own
  \<open>nodeType\<close>, and its search method is the one \<open>m\<close> prescribes for the key.
\<close>

definition entries_ok :: "(string, SearchResult) js_map \<Rightarrow> (string \<Rightarrow> search_method) \<Rightarrow> bool" where
  "entries_ok docs m \<longleftrightarrow>
     distinct (map fst docs) \<and>
     (\<forall>e d. map_of docs e = Some d \<longrightarrow> nodeType d = e \<and> searchMethod d = m e)"

text \<open>
  The method an identifier carries after the lexical list \<open>A\<close> and the vector results
  \<open>S\<close> have been entered.
\<close>

definition method_after :: "SearchResult list \<Rightarrow> SearchResult list \<Rightarrow> string \<Rightarrow> search_method" where
  "method_after A S e =
     (if e \<in> ids A then (if e \<in> ids S then Hybrid else FTS5)
      else if occurrences S e = 1 then Vector else Hybrid)"

text \<open>The score \<^const>\<open>calculateRRFScores\<close> files under an identifier.\<close>

definition scored :: "RRFFusion \<Rightarrow> SearchResult list \<Rightarrow> SearchResult list \<Rightarrow> string \<Rightarrow> real" where
  "scored this A B e = rrf_score_of this (build_rankings A 0 []) (build_rankings B 0 []) e"

subsection \<open>Example data\<close>

text \<open>
  The scenario of the specification: \<open>A\<close> and \<open>B\<close> in both lists, \<open>C\<close> only in the
  vector list; \<open>D\<close>, only in the lexical list, is added to it.
\<close>

definition example_result :: "string \<Rightarrow> real \<Rightarrow> SearchResult" where
  "example_result name score =
     \<lparr>nodeType = name, displayName = name, description = [], category = [], package = [],
      relevanceScore = score, searchMethod = Like, metadata = None\<rparr>"

definition example_fts5 :: "SearchResult list" where
  "example_fts5 = [example_result ''A'' 1, example_result ''B'' (2/3), example_result ''D'' (1/3)]"

definition example_vector :: "SearchResult list" where
  "example_vector = [example_result ''B'' (9/10), example_result ''A'' (8/10), example_result ''C'' (3/10)]"

subsection \<open>Vector store\<close>

text \<open>
  The squared norm of a vector and the dot product of two vectors, of which the
  specification forms the cosine similarity.
\<close>

definition squared_norm :: "real list \<Rightarrow> real" where
  "squared_norm a = (\<Sum>x\<leftarrow>a. x * x)"

definition dot_product :: "real list \<Rightarrow> real list \<Rightarrow> real" where
  "dot_product a b = (\<Sum>(x, y)\<leftarrow>zip a b. x * y)"

text \<open>
  The similarity the search computes for two vectors of the same length: the double
  that \<^const>\<open>calculateCosineSimilarity_double\<close> returns.
\<close>

definition computed_similarity :: "real list \<Rightarrow> real list \<Rightarrow> real" where
  "computed_similarity a b =
     (case calculateCosineSimilarity_double a b of Inr (Finite s) \<Rightarrow> s | _ \<Rightarrow> 0)"

text \<open>
  The candidates of a search: the rows that have a vector of the length of the query,
  each with its similarity to the query.
\<close>

definition candidates :: "real list \<Rightarrow> ('a embedding_columns_scheme) list \<Rightarrow> ('a embedding_columns_scheme \<times> real) list" where
  "candidates q rows =
     map (\<lambda>(row, v). (row, computed_similarity q v))
       (filter (\<lambda>(row, v). length v = length q) (with_embeddings rows))"

text \<open>The threshold and the \<open>includeDistances\<close> flag in force for given options.\<close>

definition effective_threshold :: "VectorSearchOptions \<Rightarrow> real" where
  "effective_threshold options = (case threshold options of None \<Rightarrow> 0.5 | Some t \<Rightarrow> t)"

definition effective_distances :: "VectorSearchOptions \<Rightarrow> bool" where
  "effective_distances options = (case includeDistances options of None \<Rightarrow> False | Some b \<Rightarrow> b)"

text \<open>A result list whose relevance scores never increase from one element to the next.\<close>

definition non_increasing :: "SearchResult list \<Rightarrow> bool" where
  "non_increasing results = sorted_wrt (\<lambda>x y. relevanceScore y \<le> relevanceScore x) results"

subsection \<open>Embedding provider client\<close>

text \<open>The consecutive chunks of at most \<open>n\<close> elements of a list.\<close>

fun chunks :: "nat \<Rightarrow> 'a list \<Rightarrow> 'a list list" where
  "chunks n xs = (if n = 0 \<or> xs = [] then [] else take n xs # chunks n (drop n xs))"

declare chunks.simps [simp del]

text \<open>
  A response answers a batch when it holds, in any order, exactly one item for each
  input of the batch: the vector \<open>E\<close> assigns to the input, under the input's index.
\<close>

definition answers_batch :: "(string \<Rightarrow> real list) \<Rightarrow> string list \<Rightarrow> embedding_response \<Rightarrow> bool" where
  "answers_batch E batch response \<longleftrightarrow>
     mset (response_data response) =
       mset (map (\<lambda>i. \<lparr>item_embedding = E (batch ! i), item_index = int i\<rparr>) [0..<length batch])"

text \<open>
  A provider is honest when every response it gives answers the batch it was sent; it
  always answers when no request throws.
\<close>

definition honest_provider :: "(string \<Rightarrow> real list) \<Rightarrow> embedding_world \<Rightarrow> bool" where
  "honest_provider E world \<longleftrightarrow>
     (\<forall>n batch response. provider world n batch = Some response \<longrightarrow> answers_batch E batch response)"

definition provider_always_answers :: "embedding_world \<Rightarrow> bool" where
  "provider_always_answers world \<longleftrightarrow> (\<forall>n batch. provider world n batch \<noteq> None)"

text \<open>
  An example: a provider that returns the items of every batch in reverse order, the
  vector of a text being its length.
\<close>

definition example_embedding :: "string \<Rightarrow> real list" where
  "example_embedding text = [real (length text)]"

definition reversing_provider :: "nat \<Rightarrow> string list \<Rightarrow> embedding_response option" where
  "reversing_provider n batch =
     Some \<lparr>response_data =
              rev (map (\<lambda>i. \<lparr>item_embedding = example_embedding (batch ! i), item_index = int i\<rparr>)
                     [0..<length batch]),
           usage_total_tokens = length batch\<rparr>"

definition example_embedding_world :: embedding_world where
  "example_embedding_world =
     \<lparr>openai_api_key = True, openai_import_ok = True, provider = reversing_provider\<rparr>"

subsection \<open>Reranker client\<close>

text \<open>
  The ways a reranking comes to nothing: the client cannot be created (no client yet
  and no API key or no library); an attempt of the remote call fails (it is rejected
  or its answer cannot be read).
\<close>

definition client_unavailable :: "rerank_world \<Rightarrow> CohereReranker \<Rightarrow> bool" where
  "client_unavailable world this \<longleftrightarrow>
     \<not> client this \<and> \<not> (cohere_api_key world \<and> cohere_import_ok world)"

definition attempt_fails :: "rerank_world \<Rightarrow> nat \<Rightarrow> rerank_request \<Rightarrow> bool" where
  "attempt_fails world attempt request \<longleftrightarrow>
     rerank_api world attempt request = Rejected \<or> rerank_api world attempt request = Unreadable"

text \<open>The request \<^const>\<open>rerank\<close> sends for given documents.\<close>

definition sent_request :: "CohereReranker \<Rightarrow> string \<Rightarrow> SearchResult list \<Rightarrow> CohereRerankOptions \<Rightarrow> rerank_request" where
  "sent_request this query_text documents options =
     rerank_request_of query_text
       (prepareDocuments (slice documents 0 (min (int (length documents)) (maxDocuments this))))
       options"

text \<open>A provider that lists the entries of every response by non-increasing relevance.\<close>

definition provider_sorted :: "rerank_world \<Rightarrow> bool" where
  "provider_sorted world \<longleftrightarrow>
     (\<forall>a request response entries.
        rerank_api world a request = Responded response \<and> response_results response = Some entries \<longrightarrow>
        sorted_wrt (\<lambda>x y. item_score y \<le> item_score x) entries)"

text \<open>
  Examples: two documents; a world without API key, one that rejects every call, one
  whose first answer is unreadable and whose second has no results, one that names a
  document that does not exist, and one that gives the first document the relevance
  0.3.
\<close>

definition example_documents :: "SearchResult list" where
  "example_documents = [example_result ''A'' (9 / 10), example_result ''B'' (8 / 10)]"

definition example_rerank_options :: CohereRerankOptions where
  "example_rerank_options =
     \<lparr>options_model = ''rerank-multilingual-v3.0'', topN = 20, returnDocuments = Some False,
      maxChunksPerDoc = Some 10\<rparr>"

definition no_key_world :: rerank_world where
  "no_key_world = \<lparr>cohere_api_key = False, cohere_import_ok = True, rerank_api = (\<lambda>a request. Rejected)\<rparr>"

definition rejecting_world :: rerank_world where
  "rejecting_world = \<lparr>cohere_api_key = True, cohere_import_ok = True, rerank_api = (\<lambda>a request. Rejected)\<rparr>"

definition empty_response_world :: rerank_world where
  "empty_response_world =
     \<lparr>cohere_api_key = True, cohere_import_ok = True,
      rerank_api = (\<lambda>a request. if a = 0 then Unreadable else Responded \<lparr>response_results = None\<rparr>)\<rparr>"

definition stray_index_world :: rerank_world where
  "stray_index_world =
     \<lparr>cohere_api_key = True, cohere_import_ok = True,
      rerank_api = (\<lambda>a request. Responded \<lparr>response_results =
         Some [\<lparr>result_index = 5, result_relevanceScore = Some (9 / 10), result_relevance_score = None\<rparr>]\<rparr>)\<rparr>"

definition lowering_world :: rerank_world where
  "lowering_world =
     \<lparr>cohere_api_key = True, cohere_import_ok = True,
      rerank_api = (\<lambda>a request. Responded \<lparr>response_results =
         Some [\<lparr>result_index = 0, result_relevanceScore = Some (3 / 10), result_relevance_score = None\<rparr>]\<rparr>)\<rparr>"

subsection \<open>Hybrid search orchestrator\<close>

text \<open>
  Reranking runs on a fused list when it is enabled, the list is not empty and the
  reranker is available. A pipeline is ordered when reranking does not run, or the
  provider sorts its entries and the fused list does not exceed the reranker's maximum
  document count.
\<close>

definition reranking_runs :: "search_world \<Rightarrow> HybridSearchEngine \<Rightarrow> HybridSearchOptions \<Rightarrow> SearchResult list \<Rightarrow> bool" where
  "reranking_runs world this options fusedResults \<longleftrightarrow>
     enableReranking options \<and> fusedResults \<noteq> [] \<and>
     fst (isAvailable (reranking world) (cohereReranker this))"

definition pipeline_ordered :: "search_world \<Rightarrow> HybridSearchEngine \<Rightarrow> string \<Rightarrow> HybridSearchOptions \<Rightarrow> bool" where
  "pipeline_ordered world this query_text options \<longleftrightarrow>
     \<not> reranking_runs world this options (search_and_fuse world this query_text options) \<or>
     (provider_sorted (reranking world) \<and>
      int (length (search_and_fuse world this query_text options)) \<le> maxDocuments (cohereReranker this))"

text \<open>Every list held by the cache is non-increasing.\<close>

definition cache_non_increasing :: "HybridSearchEngine \<Rightarrow> bool" where
  "cache_non_increasing this \<longleftrightarrow>
     (\<forall>c k v. cache this = Some c \<and> cache_get c k = Some v \<longrightarrow> non_increasing v)"

text \<open>The lexical results of a query, and a query whose result is not in the cache.\<close>

definition lexical_results :: "search_world \<Rightarrow> string \<Rightarrow> HybridSearchOptions \<Rightarrow> SearchResult list" where
  "lexical_results world query_text options =
     (if FTS5 \<in> set (searchMethods options)
      then executeFTS5Search world query_text (result_limit options * 2) else [])"

definition cache_miss :: "HybridSearchEngine \<Rightarrow> string \<Rightarrow> partial_options \<Rightarrow> bool" where
  "cache_miss this query_text given \<longleftrightarrow>
     \<not> enableCache this \<or> cache this = None \<or>
     (\<exists>c. cache this = Some c \<and>
          cache_get c (getCacheKey (trim query_text) (mergeOptions this given)) = None)"

text \<open>
  Examples: a row of the \<open>nodes\<close> table; a world in which the full-text search finds the
  nodes \<open>A\<close> and \<open>B\<close> and the embedding service fails; an engine as the constructor
  builds it, and the same with a reranker limited to one document.
\<close>

definition example_node :: "string \<Rightarrow> real list option \<Rightarrow> string option \<Rightarrow> nat option \<Rightarrow> nat option \<Rightarrow> node_row" where
  "example_node name vec hash generated updated =
     \<lparr>embedding_vector = vec, embedding_content_hash = hash, embedding_generated_at = generated,
      embedding_model = None, embedding_dimensions = None, updated_at = updated,
      node_type = name, display_name = name, node_description = None, node_category = None,
      package_name = ''n8n-nodes-base'', documentation = None, operations = None\<rparr>"

definition lexical_world :: search_world where
  "lexical_world =
     \<lparr>fts_table_exists = True,
      fts5_match = (\<lambda>fts_query max_results.
         Some [example_node ''A'' None None None None, example_node ''B'' None None None None]),
      getEmbedding = (\<lambda>query_text. Inl (Error ''Failed to process batch'')),
      reranking = lowering_world\<rparr>"

definition no_options :: partial_options where
  "no_options =
     \<lparr>given_query = None, given_limit = None, given_rrfK = None, given_enableReranking = None,
      given_searchMethods = None, given_includeMetadata = None\<rparr>"

definition example_engine :: HybridSearchEngine where
  "example_engine =
     \<lparr>engine_db = \<lparr>nodes_table = Some [], templates_table = Some []\<rparr>,
      node_columns = Some [''node_type'', ''embedding_vector'', ''embedding_content_hash'',
                           ''embedding_generated_at''],
      rrfFusion = default_RRFFusion,
      cohereReranker = new_CohereReranker,
      cache = Some [],
      enableCache = True,
      defaultOptions = no_options\<rparr>"

definition small_reranker_engine :: HybridSearchEngine where
  "small_reranker_engine = example_engine\<lparr>cohereReranker := new_CohereReranker\<lparr>maxDocuments := 1\<rparr>\<rparr>"

subsection \<open>Vector store: examples\<close>

text \<open>An embedding that was generated before the last update of its row.\<close>

definition older_than_update :: "'a embedding_columns_scheme \<Rightarrow> bool" where
  "older_than_update row \<longleftrightarrow>
     (\<exists>generated updated. embedding_generated_at row = Some generated \<and>
        updated_at row = Some updated \<and> generated < updated)"

text \<open>
  Examples for the similarity search. To the query \<open>[1, 0, 0, 0, 0]\<close> the vectors of
  the nodes \<open>A\<close> to \<open>E\<close> have the similarities 0, 1/2, 1, 1/4 and 1/2, each computed
  without rounding error; the vector of \<open>F\<close> has another length and \<open>G\<close> has none. A
  second table holds the node \<open>D\<close> alone, a third one a node whose exact cosine to the
  query \<open>[0, 1, 1]\<close> is 1/2, and a fourth one two nodes whose exact cosine to the query
  \<open>[1, 1]\<close> is 1.
\<close>

definition similarity_query :: "real list" where
  "similarity_query = [1, 0, 0, 0, 0]"

definition similarity_node :: "string \<Rightarrow> real list option \<Rightarrow> node_row" where
  "similarity_node name vec = example_node name vec (Some ''H1'') (Some 10) (Some 5)"

definition similarity_db :: database where
  "similarity_db =
     \<lparr>nodes_table = Some
        [similarity_node ''A'' (Some [0, 1, 0, 0, 0]),
         similarity_node ''B'' (Some [1, 1, 1, 1, 0]),
         similarity_node ''C'' (Some [1, 0, 0, 0, 0]),
         similarity_node ''D'' (Some [1, 3, 2, 1, 1]),
         similarity_node ''E'' (Some [1, 1, 0, 1, 1]),
         similarity_node ''F'' (Some [1, 0]),
         similarity_node ''G'' None],
      templates_table = Some []\<rparr>"

definition example_vector_db :: database where
  "example_vector_db =
     \<lparr>nodes_table = Some [similarity_node ''D'' (Some [1, 3, 2, 1, 1])],
      templates_table = Some []\<rparr>"

definition rounded_db :: database where
  "rounded_db =
     \<lparr>nodes_table = Some [similarity_node ''R'' (Some [1, 0, 1])],
      templates_table = Some []\<rparr>"

definition ordering_db :: database where
  "ordering_db =
     \<lparr>nodes_table = Some [similarity_node ''A'' (Some [1, 1]), similarity_node ''B'' (Some [3, 3])],
      templates_table = Some []\<rparr>"

definition example_vector_options :: "real list \<Rightarrow> int \<Rightarrow> real option \<Rightarrow> VectorSearchOptions" where
  "example_vector_options q n t =
     \<lparr>queryVector = q, limit = n, threshold = t, includeDistances = None\<rparr>"

text \<open>
  Examples for the queries that report missing embeddings. The library of the examples
  parses the empty array only and hashes a text by putting a prefix before it. The
  searchable text of an example node is its name. The node \<open>A\<close> has a stored hash that is
  not the hash of its text while its embedding is newer than its last update; the
  nodes \<open>B\<close> and \<open>C\<close> were updated after their embedding, \<open>B\<close> with the hash of its text
  stored and \<open>C\<close> with another.
\<close>

definition example_library :: content_library where
  "example_library =
     \<lparr>JSON_parse = (\<lambda>json_text. if json_text = ''[]'' then Inr (JArray [])
                                 else Inl (Error ''Unexpected token'')),
      sha256_hex = (\<lambda>hashed. ''sha256 of '' @ hashed)\<rparr>"

definition stale_node :: node_row where
  "stale_node = example_node ''A'' (Some [1, 0]) (Some ''sha256 of an older A'') (Some 10) (Some 5)"

definition touched_node :: node_row where
  "touched_node = example_node ''B'' (Some [0, 1]) (Some ''sha256 of B'') (Some 5) (Some 10)"

definition changed_node :: node_row where
  "changed_node = example_node ''C'' (Some [0, 1]) (Some ''sha256 of an older C'') (Some 5) (Some 10)"

definition example_hash_db :: database where
  "example_hash_db =
     \<lparr>nodes_table = Some [stale_node, touched_node, changed_node], templates_table = Some []\<rparr>"

definition example_content :: "string \<Rightarrow> EmbeddingContent" where
  "example_content name =
     \<lparr>content_nodeType = name, content = name, contentHash = ''sha256 of '' @ name\<rparr>"
section \<open>Proofs\<close>

subsection \<open>The descending stable sort\<close>

lemma insert_desc_insort: "insert_desc key x ys = insort_key (\<lambda>y. - key y) x ys"
  by (induction ys) auto

lemma sort_desc_sort_key: "sort_desc key xs = sort_key (\<lambda>y. - key y) xs"
  by (induction xs) (auto simp: sort_desc_def insert_desc_insort)

lemma mset_sort_desc: "mset (sort_desc key xs) = mset xs"
  by (simp add: sort_desc_sort_key)

lemma set_sort_desc: "set (sort_desc key xs) = set xs"
  by (simp add: sort_desc_sort_key)

lemma length_sort_desc: "length (sort_desc key xs) = length xs"
  by (simp add: sort_desc_sort_key)

lemma sorted_sort_desc: "sorted_wrt (\<lambda>a b. key b \<le> key a) (sort_desc key xs)"
proof -
  have "sorted (map (\<lambda>y. - key y) (sort_desc key xs))"
    by (simp add: sort_desc_sort_key)
  then show ?thesis
    by (simp add: sorted_wrt_map)
qed

lemma distinct_map_sort_desc:
  "distinct (map f (sort_desc key xs)) = distinct (map f xs)"
proof -
  have "mset (map f (sort_desc key xs)) = mset (map f xs)"
    by (simp add: mset_sort_desc)
  then show ?thesis
    by (rule mset_eq_imp_distinct_iff)
qed

lemma sort_desc_stable:
  "filter (\<lambda>y. key y = c) (sort_desc key xs) = filter (\<lambda>y. key y = c) xs"
proof -
  have "filter (\<lambda>y. - key y = - c) (sort_key (\<lambda>y. - key y) xs) = filter (\<lambda>y. - key y = - c) xs"
    by (rule sort_key_stable)
  then show ?thesis by (simp add: sort_desc_sort_key)
qed

subsection \<open>Rank fusion: the document set\<close>

lemma fts5_loop_ok:
  "entries_ok acc (\<lambda>_. FTS5) \<Longrightarrow> entries_ok (foldl (add_fts5_document A) acc xs) (\<lambda>_. FTS5)"
proof (induction xs arbitrary: acc)
  case Nil
  then show ?case by simp
next
  case (Cons x xs)
  have "entries_ok (add_fts5_document A acc x) (\<lambda>_. FTS5)"
    using Cons.prems
    by (auto simp: entries_ok_def add_fts5_document_def distinct_update update_conv')
  then show ?case using Cons.IH by simp
qed

lemma add_fts5_document_dom:
  "dom (map_of (add_fts5_document A acc x)) = insert (nodeType x) (dom (map_of acc))"
  by (simp add: add_fts5_document_def update_conv')

lemma fts5_loop_dom:
  "dom (map_of (foldl (add_fts5_document A) acc xs)) = dom (map_of acc) \<union> ids xs"
proof (induction xs arbitrary: acc)
  case Nil
  then show ?case by (simp add: ids_def)
next
  case (Cons x xs)
  have "dom (map_of (foldl (add_fts5_document A) (add_fts5_document A acc x) xs))
          = insert (nodeType x) (dom (map_of acc)) \<union> ids xs"
    by (simp only: Cons.IH add_fts5_document_dom)
  then show ?case by (simp add: ids_def)
qed

lemma occurrences_pos: "0 < occurrences S e \<longleftrightarrow> e \<in> ids S"
  by (auto simp: occurrences_def ids_def filter_empty_conv)

lemma vector_step_ok:
  assumes ok: "entries_ok acc (method_after A S)"
      and dm: "dom (map_of acc) = ids A \<union> ids S"
  shows "entries_ok (add_vector_document B acc x) (method_after A (S @ [x])) \<and>
         dom (map_of (add_vector_document B acc x)) = ids A \<union> ids (S @ [x])"
proof (cases "map_of acc (nodeType x)")
  case None
  then have "nodeType x \<notin> dom (map_of acc)"
    by (simp add: domIff)
  then have notin: "nodeType x \<notin> ids A" "nodeType x \<notin> ids S"
    using dm by simp_all
  then have occ: "occurrences S (nodeType x) = 0"
    using occurrences_pos [of S "nodeType x"] by simp
  have same: "\<And>e. e \<noteq> nodeType x \<Longrightarrow> method_after A (S @ [x]) e = method_after A S e"
    by (auto simp: method_after_def ids_def occurrences_def)
  have new: "method_after A (S @ [x]) (nodeType x) = Vector"
    using notin occ by (simp add: method_after_def occurrences_def)
  show ?thesis
    using None ok dm same new
    by (auto simp: entries_ok_def add_vector_document_def distinct_update update_conv' dom_update ids_def)
next
  case (Some existing)
  then have "nodeType x \<in> dom (map_of acc)"
    by (simp add: domIff)
  then have indom: "nodeType x \<in> ids A \<union> ids S"
    using dm by simp
  have same: "\<And>e. e \<noteq> nodeType x \<Longrightarrow> method_after A (S @ [x]) e = method_after A S e"
    by (auto simp: method_after_def ids_def occurrences_def)
  have new: "method_after A (S @ [x]) (nodeType x) = Hybrid"
  proof (cases "nodeType x \<in> ids A")
    case True
    then show ?thesis by (simp add: method_after_def ids_def)
  next
    case False
    then have "nodeType x \<in> ids S" using indom by simp
    then have "0 < occurrences S (nodeType x)" by (simp add: occurrences_pos)
    then show ?thesis using False by (simp add: method_after_def occurrences_def)
  qed
  have ex: "nodeType existing = nodeType x"
    using Some ok by (simp add: entries_ok_def)
  show ?thesis
    using Some ok dm same new ex indom
    by (auto simp: entries_ok_def add_vector_document_def distinct_update update_conv' dom_update ids_def)
qed

lemma vector_loop_ok:
  assumes "entries_ok acc (method_after A [])" and "dom (map_of acc) = ids A"
  shows "entries_ok (foldl (add_vector_document B) acc xs) (method_after A xs) \<and>
         dom (map_of (foldl (add_vector_document B) acc xs)) = ids A \<union> ids xs"
proof (induction xs rule: rev_induct)
  case Nil
  then show ?case using assms by (simp add: ids_def)
next
  case (snoc x xs)
  then show ?case
    using vector_step_ok [of "foldl (add_vector_document B) acc xs" A xs B x] by simp
qed

lemma method_after_Nil: "e \<in> ids A \<Longrightarrow> method_after A [] e = FTS5"
  by (simp add: method_after_def ids_def)

lemma unified_ok:
  "entries_ok (createUnifiedDocumentSet A B) (method_after A B) \<and>
   dom (map_of (createUnifiedDocumentSet A B)) = ids A \<union> ids B"
proof -
  let ?F = "foldl (add_fts5_document A) [] A"
  have f1: "entries_ok ?F (\<lambda>_. FTS5)"
    by (rule fts5_loop_ok) (simp add: entries_ok_def)
  have f2: "dom (map_of ?F) = ids A"
    by (simp add: fts5_loop_dom)
  have f3: "entries_ok ?F (method_after A [])"
    unfolding entries_ok_def
  proof (intro conjI allI impI)
    show "distinct (map fst ?F)" using f1 by (simp add: entries_ok_def)
  next
    fix e d assume h: "map_of ?F e = Some d"
    then show "nodeType d = e" using f1 by (simp add: entries_ok_def)
  next
    fix e d assume h: "map_of ?F e = Some d"
    then have "e \<in> dom (map_of ?F)" by (simp add: domIff)
    then have "e \<in> ids A" using f2 by simp
    then show "searchMethod d = method_after A [] e"
      using f1 h by (simp add: entries_ok_def method_after_Nil)
  qed
  show ?thesis
    unfolding createUnifiedDocumentSet_def
    by (rule vector_loop_ok [OF f3 f2])
qed

subsection \<open>Rank fusion: scores and fused results\<close>

lemma scores_loop:
  "map_of (foldl (\<lambda>rrfScores (nodeType_key, document). AList.update nodeType_key (g nodeType_key) rrfScores) acc docs) e
     = (if e \<in> fst ` set docs then Some (g e) else map_of acc e)"
  by (induction docs arbitrary: acc) (auto simp: update_conv')

lemma calculateRRFScores_get:
  "map_of (calculateRRFScores this docs A B) e =
     (if e \<in> fst ` set docs
      then Some (rrf_score_of this (build_rankings A 0 []) (build_rankings B 0 []) e)
      else None)"
  by (simp add: calculateRRFScores_def Let_def scores_loop)

lemma createFusedResults_entry:
  assumes "r \<in> set (createFusedResults docs (calculateRRFScores this docs A B))"
  shows "\<exists>k d. (k, d) \<in> set docs \<and> nodeType r = nodeType d \<and> searchMethod r = searchMethod d \<and>
           relevanceScore r = scored this A B k"
proof -
  from assms obtain k d where kd: "(k, d) \<in> set docs"
    and r: "r = (let score = (case map_of (calculateRRFScores this docs A B) k of Some s \<Rightarrow> s | None \<Rightarrow> 0)
            in d\<lparr>relevanceScore := score,
                        metadata := Some ((spread_metadata (metadata d))
                          \<lparr>rrfScore := Some score\<rparr>)\<rparr>)"
    by (auto simp: createFusedResults_def)
  have "k \<in> fst ` set docs" using kd by force
  then have "map_of (calculateRRFScores this docs A B) k = Some (scored this A B k)"
    by (simp add: calculateRRFScores_get scored_def)
  then show ?thesis using kd r by (auto simp: Let_def)
qed

lemma createFusedResults_keys:
  assumes "\<forall>(k, d) \<in> set docs. nodeType d = k"
  shows "map nodeType (createFusedResults docs scores) = map fst docs"
  using assms by (induction docs) (auto simp: createFusedResults_def Let_def)

lemma entries_ok_keys:
  assumes "entries_ok docs m"
  shows "\<forall>(k, d) \<in> set docs. nodeType d = k \<and> searchMethod d = m k"
  using assms by (auto simp: entries_ok_def)

lemma fused_unsorted:
  defines "docs \<equiv> \<lambda>A B. createUnifiedDocumentSet A B"
  shows "map nodeType (createFusedResults (docs A B) (calculateRRFScores this (docs A B) A B)) = map fst (docs A B)"
  using entries_ok_keys [of "docs A B" "method_after A B"] unified_ok [of A B]
  by (intro createFusedResults_keys) (auto simp: docs_def)

lemma fuseResults_distinct: "distinct (map nodeType (fuseResults this A B))"
  using unified_ok [of A B]
  by (simp add: fuseResults_def Let_def distinct_map_sort_desc fused_unsorted entries_ok_def)

lemma fuseResults_ids: "ids (fuseResults this A B) = ids A \<union> ids B"
proof -
  have "ids (fuseResults this A B) = set (map nodeType (fuseResults this A B))"
    by (simp add: ids_def)
  also have "\<dots> = set (map fst (createUnifiedDocumentSet A B))"
    unfolding fuseResults_def Let_def
    by (simp only: set_map set_sort_desc flip: fused_unsorted [of A B this])
  also have "\<dots> = dom (map_of (createUnifiedDocumentSet A B))"
    by (simp add: dom_map_of_conv_image_fst)
  finally show ?thesis using unified_ok [of A B] by simp
qed

lemma fuseResults_entry:
  assumes "r \<in> set (fuseResults this A B)"
  shows "searchMethod r = method_after A B (nodeType r) \<and> relevanceScore r = scored this A B (nodeType r)"
proof -
  let ?D = "createUnifiedDocumentSet A B"
  from assms have "r \<in> set (createFusedResults ?D (calculateRRFScores this ?D A B))"
    by (simp add: fuseResults_def Let_def set_sort_desc)
  then obtain k d where kd: "(k, d) \<in> set ?D" and n: "nodeType r = nodeType d"
    and m: "searchMethod r = searchMethod d" and s: "relevanceScore r = scored this A B k"
    using createFusedResults_entry by blast
  have "nodeType d = k \<and> searchMethod d = method_after A B k"
    using entries_ok_keys [of ?D "method_after A B"] unified_ok [of A B] kd by auto
  then show ?thesis using n m s by simp
qed

lemma fuseResults_sorted:
  "sorted_wrt (\<lambda>a b. relevanceScore b \<le> relevanceScore a) (fuseResults this A B)"
  by (simp add: fuseResults_def Let_def sorted_sort_desc)

subsection \<open>Rank fusion: ranks\<close>

lemma build_rankings_absent:
  "e \<notin> ids xs \<Longrightarrow> map_of (build_rankings xs i m) e = map_of m e"
  by (induction xs arbitrary: i m) (auto simp: ids_def update_conv')

lemma build_rankings_last:
  assumes "j < length xs" "nodeType (xs ! j) = e"
    "\<forall>j'. j < j' \<and> j' < length xs \<longrightarrow> nodeType (xs ! j') \<noteq> e"
  shows "map_of (build_rankings xs i m) e = Some (i + int j + 1)"
  using assms
proof (induction xs arbitrary: i m j)
  case Nil
  then show ?case by simp
next
  case (Cons x xs)
  show ?case
  proof (cases j)
    case 0
    have "e \<notin> ids xs"
    proof
      assume "e \<in> ids xs"
      then obtain n where "n < length xs" "nodeType (xs ! n) = e"
        by (auto simp: ids_def in_set_conv_nth)
      then show False using Cons.prems(3) 0 by (auto dest: spec [of _ "Suc n"])
    qed
    then show ?thesis using Cons.prems 0
      by (simp add: build_rankings_absent update_conv')
  next
    case (Suc n)
    have "map_of (build_rankings xs (i + 1) (AList.update (nodeType x) (i + 1) m)) e
            = Some (i + 1 + int n + 1)"
    proof (rule Cons.IH)
      show "n < length xs" using Cons.prems(1) Suc by simp
      show "nodeType (xs ! n) = e" using Cons.prems(2) Suc by simp
      show "\<forall>j'. n < j' \<and> j' < length xs \<longrightarrow> nodeType (xs ! j') \<noteq> e"
      proof (intro allI impI)
        fix j' assume "n < j' \<and> j' < length xs"
        then have "j < Suc j' \<and> Suc j' < length (x # xs)" using Suc by simp
        then have "nodeType ((x # xs) ! Suc j') \<noteq> e" using Cons.prems(3) by blast
        then show "nodeType (xs ! j') \<noteq> e" by simp
      qed
    qed
    then show ?thesis using Suc by simp
  qed
qed

lemma ranked_at_rank:
  assumes "ranked_at xs e r"
  shows "map_of (build_rankings xs 0 []) e = Some (int r)"
proof -
  from assms have a: "r - 1 < length xs" "nodeType (xs ! (r - 1)) = e" "1 \<le> r"
    by (auto simp: ranked_at_def)
  have b: "\<forall>j'. r - 1 < j' \<and> j' < length xs \<longrightarrow> nodeType (xs ! j') \<noteq> e"
    using assms by (auto simp: ranked_at_def)
  have "map_of (build_rankings xs 0 []) e = Some (0 + int (r - 1) + 1)"
    by (rule build_rankings_last [OF a(1) a(2) b])
  then show ?thesis using a(3) by simp
qed

lemma ranked_at_member:
  assumes "ranked_at xs e r"
  shows "e \<in> ids xs"
proof -
  from assms have "r - 1 < length xs" and e: "nodeType (xs ! (r - 1)) = e"
    by (auto simp: ranked_at_def)
  then have "xs ! (r - 1) \<in> set xs" by simp
  then show ?thesis using e by (auto simp: ids_def)
qed

lemma find_distinct_key:
  assumes "distinct (map f xs)" "x \<in> set xs"
  shows "find (\<lambda>y. f y = f x) xs = Some x"
  using assms by (induction xs) (auto simp: rev_image_eqI)

lemma fused_score_eq:
  assumes "e \<in> ids A \<union> ids B"
  shows "fused_score (fuseResults this A B) e = Some (scored this A B e)"
proof -
  from assms have "e \<in> ids (fuseResults this A B)" by (simp add: fuseResults_ids)
  then obtain r where r: "r \<in> set (fuseResults this A B)" "nodeType r = e"
    by (auto simp: ids_def)
  have "find (\<lambda>y. nodeType y = nodeType r) (fuseResults this A B) = Some r"
    by (rule find_distinct_key [OF fuseResults_distinct r(1)])
  then show ?thesis using r fuseResults_entry [OF r(1)] by (simp add: fused_score_def)
qed

subsection \<open>Rank fusion: the claims\<close>

text \<open>
  C1. For every pair of input lists and every entity of their union, the fused score is
  the sum, over the lists that contain the entity, of the list's weight times
  \<open>1 / (k + rank)\<close>, where the rank is the entity's position in the list, counted from 1
  (its last position, should the identifier be repeated): both terms for an entity of
  both lists, the single term for an entity of one list only. The constant \<open>k\<close> is taken
  non-negative, so that no denominator vanishes.
\<close>

theorem fuseResults_score:
  assumes "0 \<le> rrf_k this"
  shows
    "(ranked_at A e r1 \<and> ranked_at B e r2 \<longrightarrow>
        fused_score (fuseResults this A B) e =
          Some (weight_fts5 (rrf_weights this) * (1 / (rrf_k this + real r1)) +
                weight_vector (rrf_weights this) * (1 / (rrf_k this + real r2)))) \<and>
     (ranked_at A e r1 \<and> e \<notin> nodeType ` set B \<longrightarrow>
        fused_score (fuseResults this A B) e =
          Some (weight_fts5 (rrf_weights this) * (1 / (rrf_k this + real r1)))) \<and>
     (e \<notin> nodeType ` set A \<and> ranked_at B e r2 \<longrightarrow>
        fused_score (fuseResults this A B) e =
          Some (weight_vector (rrf_weights this) * (1 / (rrf_k this + real r2))))"
proof (intro conjI impI)
  assume h: "ranked_at A e r1 \<and> ranked_at B e r2"
  then have m: "e \<in> ids A \<union> ids B" using ranked_at_member by blast
  have "map_of (build_rankings A 0 []) e = Some (int r1)"
    and "map_of (build_rankings B 0 []) e = Some (int r2)"
    using h ranked_at_rank by blast+
  then show "fused_score (fuseResults this A B) e =
          Some (weight_fts5 (rrf_weights this) * (1 / (rrf_k this + real r1)) +
                weight_vector (rrf_weights this) * (1 / (rrf_k this + real r2)))"
    using m by (simp add: fused_score_eq scored_def rrf_score_of_def)
next
  assume h: "ranked_at A e r1 \<and> e \<notin> nodeType ` set B"
  then have m: "e \<in> ids A \<union> ids B" using ranked_at_member by blast
  have "map_of (build_rankings A 0 []) e = Some (int r1)"
    using h ranked_at_rank by blast
  moreover have "map_of (build_rankings B 0 []) e = None"
    using h by (simp add: build_rankings_absent ids_def)
  ultimately show "fused_score (fuseResults this A B) e =
          Some (weight_fts5 (rrf_weights this) * (1 / (rrf_k this + real r1)))"
    using m by (simp add: fused_score_eq scored_def rrf_score_of_def)
next
  assume h: "e \<notin> nodeType ` set A \<and> ranked_at B e r2"
  then have m: "e \<in> ids A \<union> ids B" using ranked_at_member by blast
  have "map_of (build_rankings B 0 []) e = Some (int r2)"
    using h ranked_at_rank by blast
  moreover have "map_of (build_rankings A 0 []) e = None"
    using h by (simp add: build_rankings_absent ids_def)
  ultimately show "fused_score (fuseResults this A B) e =
          Some (weight_vector (rrf_weights this) * (1 / (rrf_k this + real r2)))"
    using m by (simp add: fused_score_eq scored_def rrf_score_of_def)
qed

theorem fuseResults_score_witness:
  "fused_score (fuseResults default_RRFFusion example_fts5 example_vector) ''A'' = Some (1 / 61 + 1 / 62) \<and>
   fused_score (fuseResults default_RRFFusion example_fts5 example_vector) ''D'' = Some (1 / 63) \<and>
   fused_score (fuseResults default_RRFFusion example_fts5 example_vector) ''C'' = Some (1 / 63)"
proof -
  have k: "0 \<le> rrf_k default_RRFFusion"
    by (simp add: default_RRFFusion_def new_RRFFusion_def)
  have r: "ranked_at example_fts5 ''A'' 1" "ranked_at example_vector ''A'' 2"
    "ranked_at example_fts5 ''D'' 3" "ranked_at example_vector ''C'' 3"
    by (auto simp: ranked_at_def example_fts5_def example_vector_def example_result_def
        nth_Cons' less_Suc_eq)
  have n: "''D'' \<notin> nodeType ` set example_vector" "''C'' \<notin> nodeType ` set example_fts5"
    by (simp_all add: example_fts5_def example_vector_def example_result_def)
  show ?thesis
    using fuseResults_score [OF k, where A = example_fts5 and B = example_vector and e = "''A''" and ?r1.0 = 1 and ?r2.0 = 2]
      fuseResults_score [OF k, where A = example_fts5 and B = example_vector and e = "''D''" and ?r1.0 = 3]
      fuseResults_score [OF k, where A = example_fts5 and B = example_vector and e = "''C''" and ?r2.0 = 3]
      r n
    by (simp add: default_RRFFusion_def new_RRFFusion_def)
qed




subsection \<open>Cosine similarity\<close>

lemma cosine_fold:
  "foldl (cosine_step a b) (d, na, nb) [0..<n] =
     (d + (\<Sum>i<n. a ! i * b ! i), na + (\<Sum>i<n. a ! i * a ! i), nb + (\<Sum>i<n. b ! i * b ! i))"
  by (induction n) (simp_all add: cosine_step_def)

lemma cauchy_schwarz_sum:
  fixes f g :: "nat \<Rightarrow> real"
  shows "(\<Sum>i<n. f i * g i)\<^sup>2 \<le> (\<Sum>i<n. f i * f i) * (\<Sum>i<n. g i * g i)"
proof -
  let ?A = "\<Sum>i<n. f i * f i" and ?B = "\<Sum>i<n. g i * g i" and ?D = "\<Sum>i<n. f i * g i"
  have quad: "0 \<le> t * t * ?A - 2 * t * ?D + ?B" for t
  proof -
    have "0 \<le> (\<Sum>i<n. (t * f i - g i)\<^sup>2)"
      by (rule sum_nonneg) simp
    also have "(\<Sum>i<n. (t * f i - g i)\<^sup>2) = (\<Sum>i<n. t * t * (f i * f i) - 2 * t * (f i * g i) + g i * g i)"
      by (rule sum.cong) (simp_all add: power2_eq_square algebra_simps)
    also have "\<dots> = t * t * ?A - 2 * t * ?D + ?B"
      by (simp add: sum.distrib sum_subtractf sum_distrib_left)
    finally show ?thesis .
  qed
  have A0: "0 \<le> ?A" by (rule sum_nonneg) simp
  show ?thesis
  proof (cases "?A = 0")
    case True
    have "\<forall>i\<in>{..<n}. f i * f i = 0"
      using True by (subst (asm) sum_nonneg_eq_0_iff) auto
    then have "?D = 0" by simp
    moreover have "0 \<le> ?B" by (rule sum_nonneg) simp
    ultimately show ?thesis using True by simp
  next
    case False
    then have Apos: "0 < ?A" using A0 by simp
    have "0 \<le> (?D / ?A) * (?D / ?A) * ?A - 2 * (?D / ?A) * ?D + ?B"
      by (rule quad)
    also have "(?D / ?A) * (?D / ?A) * ?A - 2 * (?D / ?A) * ?D + ?B = ?B - ?D\<^sup>2 / ?A"
      using Apos by (simp add: field_simps power2_eq_square)
    finally have "?D\<^sup>2 / ?A \<le> ?B" by simp
    then show ?thesis using Apos by (simp add: field_simps)
  qed
qed

lemma abs_dot_le:
  fixes f g :: "nat \<Rightarrow> real"
  shows "\<bar>\<Sum>i<n. f i * g i\<bar> \<le> sqrt (\<Sum>i<n. f i * f i) * sqrt (\<Sum>i<n. g i * g i)"
proof -
  have "sqrt ((\<Sum>i<n. f i * g i)\<^sup>2) \<le> sqrt ((\<Sum>i<n. f i * f i) * (\<Sum>i<n. g i * g i))"
    by (rule real_sqrt_le_mono) (rule cauchy_schwarz_sum)
  then show ?thesis by (simp add: real_sqrt_mult)
qed

lemma squared_norm_nth: "squared_norm a = (\<Sum>i<length a. a ! i * a ! i)"
proof -
  have "squared_norm a = (\<Sum>i = 0..<length (map (\<lambda>x. x * x) a). map (\<lambda>x. x * x) a ! i)"
    unfolding squared_norm_def by (rule sum_list_sum_nth)
  also have "\<dots> = (\<Sum>i<length a. a ! i * a ! i)"
    by (intro sum.cong) (simp_all add: atLeast0LessThan)
  finally show ?thesis .
qed

lemma dot_product_nth:
  assumes "length a = length b"
  shows "dot_product a b = (\<Sum>i<length a. a ! i * b ! i)"
proof -
  let ?m = "map (\<lambda>(x, y). x * y) (zip a b)"
  have "dot_product a b = (\<Sum>i = 0..<length ?m. ?m ! i)"
    unfolding dot_product_def by (rule sum_list_sum_nth)
  also have "\<dots> = (\<Sum>i<length a. a ! i * b ! i)"
    using assms by (intro sum.cong) (simp_all add: atLeast0LessThan)
  finally show ?thesis .
qed

lemma cosine_value:
  assumes "length a = length b"
  shows "calculateCosineSimilarity a b =
           Inr (Finite (if sqrt (squared_norm a) * sqrt (squared_norm b) = 0 then 0
                        else dot_product a b / (sqrt (squared_norm a) * sqrt (squared_norm b))))"
proof -
  have fold: "foldl (cosine_step a b) (0, 0, 0) [0..<length a] =
     (dot_product a b, squared_norm a, squared_norm b)"
    using assms by (simp add: cosine_fold dot_product_nth squared_norm_nth)
  have bound: "\<bar>dot_product a b\<bar> \<le> sqrt (squared_norm a) * sqrt (squared_norm b)"
    using abs_dot_le [of "\<lambda>i. a ! i" "\<lambda>i. b ! i" "length a"] assms
    by (simp add: dot_product_nth squared_norm_nth)
  show ?thesis
  proof (cases "sqrt (squared_norm a) * sqrt (squared_norm b) = 0")
    case True
    then have "\<bar>dot_product a b\<bar> \<le> 0" using bound by (simp only:)
    then have "dot_product a b = 0" by simp
    then show ?thesis using assms fold True
      by (simp add: calculateCosineSimilarity_def js_divide_def isNaN_def)
  next
    case False
    then show ?thesis using assms fold
      by (simp add: calculateCosineSimilarity_def js_divide_def isNaN_def)
  qed
qed

lemma sqrt_25: "sqrt 25 = 5"
proof -
  have "sqrt 25 = sqrt (5\<^sup>2)" by simp
  then show ?thesis by (simp only: real_sqrt_abs abs_numeral)
qed

subsection \<open>Cosine similarity: the claim\<close>

text \<open>
  C6, in exact arithmetic. For vectors of equal length \<^const>\<open>calculateCosineSimilarity\<close>
  returns a finite number, never \<^verbatim>\<open>NaN\<close> and never an infinity: exactly 0 when one of
  the vectors has norm zero, and a number between \<open>-1\<close> and 1 otherwise. The double the
  code returns is this number up to rounding.
\<close>

theorem calculateCosineSimilarity_range:
  assumes "length a = length b"
  shows "\<exists>s. calculateCosineSimilarity a b = Inr (Finite s) \<and> - 1 \<le> s \<and> s \<le> 1 \<and>
             (squared_norm a = 0 \<or> squared_norm b = 0 \<longrightarrow> s = 0)"
proof -
  let ?den = "sqrt (squared_norm a) * sqrt (squared_norm b)"
  let ?s = "if ?den = 0 then 0 else dot_product a b / ?den"
  have bound: "\<bar>dot_product a b\<bar> \<le> ?den"
    using abs_dot_le [of "\<lambda>i. a ! i" "\<lambda>i. b ! i" "length a"] assms
    by (simp add: dot_product_nth squared_norm_nth)
  have "\<bar>?s\<bar> \<le> 1"
  proof (cases "?den = 0")
    case True
    then show ?thesis by simp
  next
    case False
    then have "0 < ?den" using bound by linarith
    then show ?thesis using bound by (simp add: field_simps)
  qed
  then have "- 1 \<le> ?s \<and> ?s \<le> 1" by (simp add: abs_le_iff)
  moreover have "squared_norm a = 0 \<or> squared_norm b = 0 \<longrightarrow> ?s = 0" by auto
  ultimately show ?thesis using cosine_value [OF assms] by blast
qed

theorem calculateCosineSimilarity_range_witness:
  "length [3, 4 :: real] = length [4, 3 :: real] \<and>
   calculateCosineSimilarity [3, 4] [4, 3] = Inr (Finite (24 / 25)) \<and>
   squared_norm [0, 0] = 0 \<and>
   calculateCosineSimilarity [0, 0] [4, 3] = Inr (Finite 0)"
proof -
  have "calculateCosineSimilarity [3, 4] [4, 3] = Inr (Finite (24 / 25))"
    by (simp add: calculateCosineSimilarity_def cosine_step_def js_divide_def isNaN_def sqrt_25
        upt_rec [of 0] upt_rec [of 1] upt_rec [of 2] )
  moreover have z: "squared_norm [0, 0] = 0" by (simp add: squared_norm_def)
  moreover have "calculateCosineSimilarity [0, 0] [4, 3] = Inr (Finite 0)"
    using calculateCosineSimilarity_range [of "[0, 0]" "[4, 3]"] z by auto
  ultimately show ?thesis by simp
qed

subsection \<open>Cosine similarity in double precision\<close>

lemma round_half_even_down:
  "of_int n \<le> y \<Longrightarrow> y < of_int n + 1 / 2 \<Longrightarrow> round_half_even y = n"
proof -
  assume a: "of_int n \<le> y" "y < of_int n + 1 / 2"
  then have "\<lfloor>y\<rfloor> = n" by (intro floor_unique) auto
  then show ?thesis using a by (simp add: round_half_even_def Let_def)
qed

lemma round_half_even_up:
  "of_int n + 1 / 2 < y \<Longrightarrow> y < of_int n + 1 \<Longrightarrow> round_half_even y = n + 1"
proof -
  assume a: "of_int n + 1 / 2 < y" "y < of_int n + 1"
  then have "\<lfloor>y\<rfloor> = n" by (intro floor_unique) auto
  then show ?thesis using a by (simp add: round_half_even_def Let_def)
qed

lemma double_round_binade:
  assumes "0 < x" "2 powr of_int k \<le> x" "x < 2 powr (of_int k + 1)"
    and "round_half_even (x / 2 powr of_int (k - 52)) = m"
  shows "double_round x = of_int m * 2 powr of_int (k - 52)"
proof -
  have "\<lfloor>log 2 x\<rfloor> = k"
    using assms(1-3) by (subst floor_log_eq_powr_iff) auto
  then show ?thesis using assms(1,4) by (simp add: double_round_def Let_def)
qed

lemma p52: "2 powr (- 52) = (1 / 2 ^ 52 :: real)"
  by (simp add: powr_minus_divide powr_numeral)

lemma p51: "2 powr (- 51) = (1 / 2 ^ 51 :: real)"
  by (simp add: powr_minus_divide powr_numeral)

lemma double_round_1: "double_round 1 = 1"
proof -
  have "round_half_even ((1 :: real) / 2 powr of_int (0 - 52)) = 2 ^ 52"
    by (rule round_half_even_down) (simp_all add: p52)
  from double_round_binade [of 1 0, OF _ _ _ this] show ?thesis by (simp add: p52)
qed

lemma double_round_2: "double_round 2 = 2"
proof -
  have "round_half_even ((2 :: real) / 2 powr of_int (1 - 52)) = 2 ^ 52"
    by (rule round_half_even_down) (simp_all add: p51)
  from double_round_binade [of 2 1, OF _ _ _ this] show ?thesis by (simp add: p51)
qed

lemma double_round_3: "double_round 3 = 3"
proof -
  have "round_half_even ((3 :: real) / 2 powr of_int (1 - 52)) = 3 * 2 ^ 51"
    by (rule round_half_even_down) (simp_all add: p51)
  from double_round_binade [of 3 1, OF _ _ _ this] show ?thesis by (simp add: p51)
qed

lemma double_sqrt_3: "double_round (sqrt 3) = 7800463371553962 / 2 ^ 52"
proof -
  have lo: "(7800463371553962 :: real) / 2 ^ 52 \<le> sqrt 3"
    by (rule real_le_rsqrt) (simp add: power2_eq_square)
  have hi: "sqrt 3 < (7800463371553962 + 1 / 2) / 2 ^ 52"
    by (rule real_less_lsqrt) (simp_all add: power2_eq_square)
  have "round_half_even (sqrt 3 / 2 powr of_int (0 - 52)) = 7800463371553962"
  proof (rule round_half_even_down)
    show "of_int 7800463371553962 \<le> sqrt 3 / 2 powr of_int (0 - 52)"
      using lo by (simp add: p52 field_simps)
    show "sqrt 3 / 2 powr of_int (0 - 52) < of_int 7800463371553962 + 1 / 2"
      using hi by (simp add: p52 field_simps)
  qed
  moreover have "1 \<le> sqrt 3" by simp
  moreover have "sqrt 3 < 2"
    by (rule real_less_lsqrt) simp_all
  ultimately show ?thesis
    using double_round_binade [of "sqrt 3" 0 7800463371553962] by (simp add: p52)
qed

lemma double_square:
  "double_round (7800463371553962 / 2 ^ 52 * (7800463371553962 / 2 ^ 52)) = 6755399441055743 / 2 ^ 51"
proof -
  let ?x = "7800463371553962 / 2 ^ 52 * (7800463371553962 / 2 ^ 52) :: real"
  have "round_half_even (?x / 2 powr of_int (1 - 52)) = 6755399441055743"
    by (rule round_half_even_down) (simp_all add: p51)
  moreover have "0 < ?x" "2 powr of_int 1 \<le> ?x" "?x < 2 powr (of_int 1 + 1)"
    by simp_all
  ultimately show ?thesis
    using double_round_binade [of ?x 1 6755399441055743] by (simp add: p51)
qed

lemma double_quotient:
  "double_round (3 / (6755399441055743 / 2 ^ 51)) = 1 + 1 / 2 ^ 52"
proof -
  let ?x = "3 / (6755399441055743 / 2 ^ 51) :: real"
  have "round_half_even (?x / 2 powr of_int (0 - 52)) = 4503599627370496 + 1"
    by (rule round_half_even_up) (simp_all add: p52)
  moreover have "0 < ?x" "2 powr of_int 0 \<le> ?x" "?x < 2 powr (of_int 0 + 1)"
    by simp_all
  ultimately show ?thesis
    using double_round_binade [of ?x 0 "4503599627370496 + 1"] by (simp add: p52)
qed

text \<open>
  C6 as stated bounds the returned similarity by 1. Computed in doubles, the similarity
  of \<open>[1, 1, 1]\<close> to itself is \<open>3 / (sqrt 3 * sqrt 3)\<close> with \<open>sqrt 3 * sqrt 3\<close> rounded to
  \<open>3 - 2\<^sup>-\<^sup>5\<^sup>1\<close>, and the quotient rounds to \<open>1 + 2\<^sup>-\<^sup>5\<^sup>2\<close>.
\<close>

theorem cosine_double_above_one_counterexample:
  "calculateCosineSimilarity_double [1, 1, 1] [1, 1, 1] = Inr (Finite (1 + 1 / 2 ^ 52)) \<and>
   (1 :: real) < 1 + 1 / 2 ^ 52"
proof -
  have fold: "foldl (cosine_step_double [1, 1, 1] [1, 1, 1]) (0, 0, 0) [0..<length [1, 1, 1 :: real]]
                = (3, 3, 3)"
    by (simp add: cosine_step_double_def double_round_1 double_round_2 double_round_3
        upt_rec [of 0] upt_rec [of 1] upt_rec [of 2] upt_rec [of 3])
  define x where "x = double_round (double_round (sqrt 3) * double_round (sqrt 3))"
  have xv: "x = 6755399441055743 / 2 ^ 51"
    unfolding x_def by (simp only: double_sqrt_3 double_square)
  have q: "double_round (3 / x) = 1 + 1 / 2 ^ 52"
    unfolding xv by (rule double_quotient)
  have ne: "x \<noteq> 0" unfolding xv by simp
  have "calculateCosineSimilarity_double [1, 1, 1] [1, 1, 1] = Inr (Finite (1 + 1 / 2 ^ 52))"
    unfolding calculateCosineSimilarity_double_def fold
    by (simp add: x_def [symmetric] js_divide_double_def isNaN_def q ne Let_def)
  then show ?thesis by simp
qed

subsection \<open>Rounding to a double: general facts\<close>

lemma round_half_even_of_int: "round_half_even (of_int n) = n"
  by (simp add: round_half_even_def)

lemma floor_le_round_half_even: "\<lfloor>y\<rfloor> \<le> round_half_even y"
  by (simp add: round_half_even_def Let_def)

lemma divide_back: "(p :: real) \<noteq> 0 \<Longrightarrow> x / p = n \<Longrightarrow> n * p = x"
  by auto

text \<open>A number with at most 53 significant bits is a double: rounding leaves it alone.\<close>

lemma double_round_dyadic:
  assumes "\<bar>m\<bar> < 2 ^ 53"
  shows "double_round (of_int m * 2 powr of_int j) = of_int m * 2 powr of_int j"
proof (cases "m = 0")
  case True
  then show ?thesis by (simp add: double_round_def)
next
  case False
  let ?x = "of_int m * 2 powr of_int j :: real"
  define k where "k = \<lfloor>log 2 \<bar>?x\<bar>\<rfloor>"
  have x0: "?x \<noteq> 0" using False by simp
  have ax: "\<bar>?x\<bar> = of_int \<bar>m\<bar> * 2 powr of_int j" by (simp add: abs_mult)
  have "of_int \<bar>m\<bar> < (2 ^ 53 :: real)"
    using assms by (metis of_int_less_iff of_int_numeral of_int_power)
  then have "\<bar>?x\<bar> < 2 ^ 53 * 2 powr of_int j"
    unfolding ax by (simp)
  also have "\<dots> = 2 powr (of_int (53 + j))"
    by (simp add: powr_add powr_numeral)
  finally have up: "\<bar>?x\<bar> < 2 powr (of_int (53 + j))" .
  have "2 powr of_int k \<le> \<bar>?x\<bar>"
    unfolding k_def using x0 le_log_iff [of 2 "\<bar>?x\<bar>" "of_int \<lfloor>log 2 \<bar>?x\<bar>\<rfloor>"] by simp
  then have "2 powr of_int k < (2 :: real) powr (of_int (53 + j))" using up by linarith
  then have kj: "k < 53 + j" by simp
  define d where "d = nat (j - (k - 52))"
  have jd: "j = (k - 52) + int d" using kj by (simp add: d_def)
  have "?x / 2 powr of_int (k - 52) = of_int m * 2 powr (of_int j - of_int (k - 52))"
    by (simp add: powr_diff)
  also have "of_int j - of_int (k - 52) = (of_nat d :: real)"
    using jd by simp
  also have "of_int m * 2 powr (of_nat d) = (of_int (m * 2 ^ d) :: real)"
    by (simp add: powr_realpow)
  finally have q: "?x / 2 powr of_int (k - 52) = of_int (m * 2 ^ d)" .
  have "double_round ?x = of_int (round_half_even (?x / 2 powr of_int (k - 52))) * 2 powr of_int (k - 52)"
    using x0 by (simp add: double_round_def Let_def k_def)
  also have "\<dots> = of_int (m * 2 ^ d) * 2 powr of_int (k - 52)"
    by (simp only: q round_half_even_of_int)
  also have "\<dots> = ?x"
    by (rule divide_back [OF _ q]) simp
  finally show ?thesis .
qed

lemma double_round_int:
  "\<bar>m\<bar> < 2 ^ 53 \<Longrightarrow> double_round (of_int m) = of_int m"
  using double_round_dyadic [of m 0] by simp

lemma double_round_zero: "double_round 0 = 0"
  by (simp add: double_round_def)

lemma double_round_one: "double_round 1 = 1"
  using double_round_int [of 1] by simp

lemma double_round_numeral:
  "(numeral n :: int) < 2 ^ 53 \<Longrightarrow> double_round (numeral n) = numeral n"
  using double_round_int [of "numeral n"] by simp

lemma double_round_neg_numeral:
  "(numeral n :: int) < 2 ^ 53 \<Longrightarrow> double_round (- numeral n) = - numeral n"
  using double_round_int [of "- numeral n"] by simp

lemma double_round_neg_one: "double_round (- 1) = - 1"
  using double_round_int [of "- 1"] by simp

lemma double_round_half: "double_round (1 / 2) = 1 / 2"
  using double_round_dyadic [of 1 "- 1"] by (simp add: powr_minus_divide)

lemma double_round_quarter: "double_round (1 / 4) = 1 / 4"
  using double_round_dyadic [of 1 "- 2"] by (simp add: powr_minus_divide powr_numeral)

lemmas double_round_exact =
  double_round_zero double_round_one double_round_neg_one double_round_numeral
  double_round_neg_numeral double_round_half double_round_quarter

text \<open>Rounding keeps the sign, and only zero rounds to zero.\<close>

lemma double_round_pos:
  assumes "0 < x"
  shows "0 < double_round x"
proof -
  define k where "k = \<lfloor>log 2 \<bar>x\<bar>\<rfloor>"
  have "2 powr of_int k \<le> \<bar>x\<bar>"
    unfolding k_def using assms le_log_iff [of 2 "\<bar>x\<bar>" "of_int \<lfloor>log 2 \<bar>x\<bar>\<rfloor>"] by simp
  then have "2 powr of_int k \<le> x" using assms by simp
  then have "2 powr of_int k / 2 powr of_int (k - 52) \<le> x / 2 powr of_int (k - 52)"
    by (simp add: divide_right_mono)
  moreover have "2 powr of_int k / 2 powr of_int (k - 52) = (2 ^ 52 :: real)"
    by (simp add: powr_diff [symmetric] powr_numeral)
  ultimately have big: "2 ^ 52 \<le> x / 2 powr of_int (k - 52)" by simp
  moreover have "(1 :: real) \<le> 2 ^ 52" by simp
  ultimately have "(1 :: real) \<le> x / 2 powr of_int (k - 52)" by linarith
  then have "1 \<le> \<lfloor>x / 2 powr of_int (k - 52)\<rfloor>" by (simp add: le_floor_iff)
  then have "1 \<le> round_half_even (x / 2 powr of_int (k - 52))"
    using floor_le_round_half_even [of "x / 2 powr of_int (k - 52)"] by linarith
  then have "0 < (of_int (round_half_even (x / 2 powr of_int (k - 52))) :: real)" by simp
  then show ?thesis
    using assms by (simp add: double_round_def Let_def k_def)
qed

lemma double_round_nonneg: "0 \<le> x \<Longrightarrow> 0 \<le> double_round x"
  using double_round_pos [of x] by (cases "x = 0") (simp_all add: double_round_def less_eq_real_def)

lemma double_round_eq_0_iff: "0 \<le> x \<Longrightarrow> double_round x = 0 \<longleftrightarrow> x = 0"
  using double_round_pos [of x] by (cases "x = 0") (auto simp: double_round_def)

subsection \<open>The computed similarity is a finite number\<close>

text \<open>
  Along the loop the two squared norms are never negative, and as long as one of them
  is zero so is the dot product: the quotient after the loop is a finite number or
  \<^verbatim>\<open>NaN\<close> (zero over zero), never an infinity.
\<close>

lemma cosine_step_double_invariant:
  assumes "0 \<le> na" "0 \<le> nb" "na = 0 \<or> nb = 0 \<longrightarrow> d = 0"
    and "cosine_step_double a b (d, na, nb) i = (d', na', nb')"
  shows "0 \<le> na' \<and> 0 \<le> nb' \<and> (na' = 0 \<or> nb' = 0 \<longrightarrow> d' = 0)"
proof -
  have d': "d' = double_round (d + double_round (a ! i * b ! i))"
    and na': "na' = double_round (na + double_round (a ! i * a ! i))"
    and nb': "nb' = double_round (nb + double_round (b ! i * b ! i))"
    using assms(4) by (simp_all add: cosine_step_double_def)
  have pa: "0 \<le> double_round (a ! i * a ! i)" by (rule double_round_nonneg) simp
  have pb: "0 \<le> double_round (b ! i * b ! i)" by (rule double_round_nonneg) simp
  have 1: "0 \<le> na'" unfolding na' using assms(1) pa by (intro double_round_nonneg) simp
  have 2: "0 \<le> nb'" unfolding nb' using assms(2) pb by (intro double_round_nonneg) simp
  have za: "d' = 0" if "na' = 0"
  proof -
    have "na + double_round (a ! i * a ! i) = 0"
      using that assms(1) pa double_round_eq_0_iff [of "na + double_round (a ! i * a ! i)"]
      unfolding na' by simp
    then have n: "na = 0" and "double_round (a ! i * a ! i) = 0"
      using assms(1) pa by linarith+
    then have "a ! i * a ! i = 0" by (simp add: double_round_eq_0_iff)
    then have "a ! i = 0" by simp
    then show ?thesis using n assms(3) by (simp add: d' double_round_zero)
  qed
  have zb: "d' = 0" if "nb' = 0"
  proof -
    have "nb + double_round (b ! i * b ! i) = 0"
      using that assms(2) pb double_round_eq_0_iff [of "nb + double_round (b ! i * b ! i)"]
      unfolding nb' by simp
    then have n: "nb = 0" and "double_round (b ! i * b ! i) = 0"
      using assms(2) pb by linarith+
    then have "b ! i * b ! i = 0" by (simp add: double_round_eq_0_iff)
    then have "b ! i = 0" by simp
    then show ?thesis using n assms(3) by (simp add: d' double_round_zero)
  qed
  show ?thesis using 1 2 za zb by blast
qed

lemma cosine_fold_double_invariant:
  assumes "0 \<le> na" "0 \<le> nb" "na = 0 \<or> nb = 0 \<longrightarrow> d = 0"
    and "foldl (cosine_step_double a b) (d, na, nb) xs = (d', na', nb')"
  shows "0 \<le> na' \<and> 0 \<le> nb' \<and> (na' = 0 \<or> nb' = 0 \<longrightarrow> d' = 0)"
  using assms
proof (induction xs arbitrary: d na nb)
  case Nil
  then show ?case by simp
next
  case (Cons i xs)
  obtain d1 na1 nb1 where s: "cosine_step_double a b (d, na, nb) i = (d1, na1, nb1)"
    by (cases "cosine_step_double a b (d, na, nb) i")
  have inv: "0 \<le> na1 \<and> 0 \<le> nb1 \<and> (na1 = 0 \<or> nb1 = 0 \<longrightarrow> d1 = 0)"
    by (rule cosine_step_double_invariant [OF Cons.prems(1-3) s])
  have "foldl (cosine_step_double a b) (d1, na1, nb1) xs = (d', na', nb')"
    using Cons.prems(4) s by simp
  then show ?case using inv Cons.IH [of na1 nb1 d1] by blast
qed

lemma calculateCosineSimilarity_double_finite:
  assumes "length a = length b"
  shows "calculateCosineSimilarity_double a b = Inr (Finite (computed_similarity a b))"
proof -
  obtain d na nb where f: "foldl (cosine_step_double a b) (0, 0, 0) [0..<length a] = (d, na, nb)"
    by (cases "foldl (cosine_step_double a b) (0, 0, 0) [0..<length a]")
  have inv: "0 \<le> na \<and> 0 \<le> nb \<and> (na = 0 \<or> nb = 0 \<longrightarrow> d = 0)"
    by (rule cosine_fold_double_invariant [OF _ _ _ f]) simp_all
  let ?den = "double_round (double_round (sqrt na) * double_round (sqrt nb))"
  have sa: "0 \<le> double_round (sqrt na)" using inv by (intro double_round_nonneg) simp
  have sb: "0 \<le> double_round (sqrt nb)" using inv by (intro double_round_nonneg) simp
  have den0: "?den = 0 \<longleftrightarrow> na = 0 \<or> nb = 0"
  proof -
    have "?den = 0 \<longleftrightarrow> double_round (sqrt na) * double_round (sqrt nb) = 0"
      using sa sb by (intro double_round_eq_0_iff) simp
    also have "\<dots> \<longleftrightarrow> double_round (sqrt na) = 0 \<or> double_round (sqrt nb) = 0" by simp
    also have "\<dots> \<longleftrightarrow> na = 0 \<or> nb = 0"
      using inv by (simp add: double_round_eq_0_iff)
    finally show ?thesis .
  qed
  have "\<exists>s. calculateCosineSimilarity_double a b = Inr (Finite s)"
  proof (cases "?den = 0")
    case True
    then have "d = 0" using den0 inv by blast
    then show ?thesis using assms f True
      by (simp add: calculateCosineSimilarity_double_def js_divide_double_def isNaN_def Let_def)
  next
    case False
    then show ?thesis using assms f
      by (simp add: calculateCosineSimilarity_double_def js_divide_double_def isNaN_def Let_def)
  qed
  then show ?thesis by (auto simp: computed_similarity_def)
qed

subsection \<open>Similarity search\<close>

lemma similarity_scan_eq:
  "similarity_scan q t pairs acc =
     acc @ filter (\<lambda>(row, s). t \<le> s)
             (map (\<lambda>(row, v). (row, computed_similarity q v))
                (filter (\<lambda>(row, v). length v = length q) pairs))"
proof (induction pairs arbitrary: acc)
  case Nil
  then show ?case by simp
next
  case (Cons p pairs)
  obtain row v where p: "p = (row, v)" by (cases p)
  show ?case
  proof (cases "length v = length q")
    case True
    then have "calculateCosineSimilarity_double q v = Inr (Finite (computed_similarity q v))"
      by (simp add: calculateCosineSimilarity_double_finite)
    then show ?thesis using True p Cons.IH by simp
  next
    case False
    then have "calculateCosineSimilarity_double q v = Inl (Error ''Vectors must have the same length'')"
      by (auto simp: calculateCosineSimilarity_double_def)
    then show ?thesis using False p Cons.IH by simp
  qed
qed

lemma slice_take: "0 \<le> n \<Longrightarrow> slice xs 0 n = take (nat n) xs"
  by (simp add: slice_def slice_index_def Let_def min_def)

lemma findSimilarNodes_unfold:
  assumes "nodes_table db = Some rows"
  shows "findSimilarNodes db q options =
           map (node_result (effective_distances options))
             (slice (sort_desc snd (filter (\<lambda>(row, s). effective_threshold options \<le> s) (candidates q rows)))
                0 (limit options))"
  using assms
  by (simp add: findSimilarNodes_def Let_def similarity_scan_eq candidates_def
      effective_threshold_def effective_distances_def)

lemma findSimilarTemplates_unfold:
  assumes "templates_table db = Some rows"
  shows "findSimilarTemplates db q options =
           map (template_result (effective_distances options))
             (slice (sort_desc snd (filter (\<lambda>(row, s). effective_threshold options \<le> s) (candidates q rows)))
                0 (limit options))"
  using assms
  by (simp add: findSimilarTemplates_def Let_def similarity_scan_eq candidates_def
      effective_threshold_def effective_distances_def)

lemma sorted_wrt_slice:
  "sorted_wrt P xs \<Longrightarrow> sorted_wrt P (slice xs a b)"
  by (simp add: slice_def Let_def sorted_wrt_take sorted_wrt_drop)

lemma non_increasing_map_snd:
  assumes "\<And>e. relevanceScore (f e) = snd e"
  shows "non_increasing (map f (slice (sort_desc snd xs) a b))"
proof -
  have "sorted_wrt (\<lambda>x y. snd y \<le> snd x) (slice (sort_desc snd xs) a b)"
    by (rule sorted_wrt_slice) (rule sorted_sort_desc)
  then show ?thesis
    by (simp add: non_increasing_def sorted_wrt_map assms)
qed

lemma relevanceScore_node_result: "relevanceScore (node_result i e) = snd e"
  by (cases e) (simp add: node_result_def)

lemma relevanceScore_template_result: "relevanceScore (template_result i e) = snd e"
  by (cases e) (simp add: template_result_def)

lemma findSimilarNodes_non_increasing: "non_increasing (findSimilarNodes db q options)"
  by (cases "nodes_table db")
     (simp_all add: findSimilarNodes_def Let_def non_increasing_map_snd relevanceScore_node_result,
      simp add: non_increasing_def)

lemma findSimilarTemplates_non_increasing: "non_increasing (findSimilarTemplates db q options)"
  by (cases "templates_table db")
     (simp_all add: findSimilarTemplates_def Let_def non_increasing_map_snd relevanceScore_template_result,
      simp add: non_increasing_def)

lemma set_slice_subset: "set (slice xs a b) \<subseteq> set xs"
  by (auto simp: slice_def Let_def dest: in_set_takeD in_set_dropD)

lemma kept_above_threshold:
  assumes "\<And>e. relevanceScore (f e) = snd e"
    and "r \<in> set (map f (slice (sort_desc snd (filter (\<lambda>(row, s). t \<le> s) xs)) a b))"
  shows "t \<le> relevanceScore r"
proof -
  from assms(2) obtain e where e: "r = f e"
    and m: "e \<in> set (slice (sort_desc snd (filter (\<lambda>(row, s). t \<le> s) xs)) a b)"
    by auto
  from m have "e \<in> set (sort_desc snd (filter (\<lambda>(row, s). t \<le> s) xs))"
    by (rule subsetD [OF set_slice_subset])
  then have "t \<le> snd e" by (auto simp: set_sort_desc)
  then show ?thesis using e assms(1) by simp
qed

lemma findSimilarNodes_threshold:
  assumes "r \<in> set (findSimilarNodes db q options)"
  shows "effective_threshold options \<le> relevanceScore r"
proof (cases "nodes_table db")
  case None
  then show ?thesis using assms by (simp add: findSimilarNodes_def Let_def)
next
  case (Some rows)
  show ?thesis
    by (rule kept_above_threshold [where f = "node_result (effective_distances options)"])
       (use assms in \<open>simp_all add: relevanceScore_node_result findSimilarNodes_unfold [OF Some]\<close>)
qed

lemma findSimilarTemplates_threshold:
  assumes "r \<in> set (findSimilarTemplates db q options)"
  shows "effective_threshold options \<le> relevanceScore r"
proof (cases "templates_table db")
  case None
  then show ?thesis using assms by (simp add: findSimilarTemplates_def Let_def)
next
  case (Some rows)
  show ?thesis
    by (rule kept_above_threshold [where f = "template_result (effective_distances options)"])
       (use assms in \<open>simp_all add: relevanceScore_template_result findSimilarTemplates_unfold [OF Some]\<close>)
qed

lemma length_slice_le: "0 \<le> n \<Longrightarrow> length (slice xs 0 n) \<le> nat n"
  by (simp add: slice_take)

subsection \<open>Embedding provider client: batches and order\<close>

lemma take_min_length: "take (min n (length ys)) ys = take n ys"
  by (cases "n \<le> length ys") (simp_all add: min_def)

lemma slice_nat: "slice xs (int i) (int i + int n) = take n (drop i xs)"
proof (cases "i \<le> length xs")
  case True
  have "nat (int i + int n) = i + n" by simp
  then have "slice xs (int i) (int i + int n) = take (min (i + n) (length xs) - i) (drop i xs)"
    using True by (simp add: slice_def slice_index_def Let_def min_def)
  also have "min (i + n) (length xs) - i = min n (length (drop i xs))"
    using True by (auto simp: min_def)
  finally show ?thesis by (simp only: take_min_length)
next
  case False
  then show ?thesis by (simp add: slice_def slice_index_def Let_def)
qed

lemma createBatches_from_eq:
  assumes "0 < b"
  shows "createBatches_from texts b i acc = Some (acc @ chunks b (drop i texts))"
proof (induction "length texts - i" arbitrary: i acc rule: less_induct)
  case less
  show ?case
  proof (cases "i < length texts")
    case True
    then have "length texts - (i + b) < length texts - i" using assms by simp
    then have "createBatches_from texts b (i + b) (acc @ [slice texts (int i) (int (i + b))])
                 = Some ((acc @ [slice texts (int i) (int (i + b))]) @ chunks b (drop (i + b) texts))"
      by (rule less)
    moreover have "chunks b (drop i texts) = take b (drop i texts) # chunks b (drop (i + b) texts)"
      using True assms by (subst chunks.simps) (simp add: add.commute)
    ultimately show ?thesis using True
      by (subst createBatches_from.simps) (simp add: slice_nat)
  next
    case False
    then show ?thesis
      by (subst createBatches_from.simps) (simp add: chunks.simps)
  qed
qed

lemma createBatches_eq: "0 < b \<Longrightarrow> createBatches texts b = Some (chunks b texts)"
  by (simp add: createBatches_def createBatches_from_eq)

lemma concat_chunks: "0 < n \<Longrightarrow> concat (chunks n xs) = xs"
proof (induction n xs rule: chunks.induct)
  case (1 n xs)
  then show ?case by (subst chunks.simps) auto
qed

lemma chunks_bounds: "c \<in> set (chunks n xs) \<Longrightarrow> c \<noteq> [] \<and> length c \<le> n"
proof (induction n xs rule: chunks.induct)
  case (1 n xs)
  show ?case
  proof (cases "n = 0 \<or> xs = []")
    case True
    then show ?thesis using "1.prems" by (simp add: chunks.simps)
  next
    case False
    then have "c = take n xs \<or> c \<in> set (chunks n (drop n xs))"
      using "1.prems" by (subst (asm) chunks.simps) auto
    then show ?thesis
    proof
      assume "c = take n xs"
      then show ?thesis using False by simp
    next
      assume "c \<in> set (chunks n (drop n xs))"
      then show ?thesis using False "1.IH" by blast
    qed
  qed
qed

lemma sorted_answer:
  assumes "answers_batch E batch response"
  shows "map item_embedding (sort_key item_index (response_data response)) = map E batch"
proof -
  let ?ys = "map (\<lambda>i. \<lparr>item_embedding = E (batch ! i), item_index = int i\<rparr>) [0..<length batch]"
  have m: "mset (response_data response) = mset ?ys"
    using assms by (simp add: answers_batch_def)
  then have s: "set (response_data response) = set ?ys"
    by (rule mset_eq_setD)
  have inj: "inj_on item_index (set (response_data response))"
    unfolding s by (auto simp: inj_on_def)
  have srt: "sorted (map item_index ?ys)"
    by (simp add: comp_def sorted_map)
  have "sort_key item_index (response_data response) = ?ys"
    by (rule sort_key_inj_key_eq [OF m inj srt])
  moreover have "map (\<lambda>i. E (batch ! i)) [0..<length batch] = map E batch"
    by (rule nth_equalityI) simp_all
  ultimately show ?thesis
    by (simp add: comp_def)
qed

lemma processBatch_attempts_correct:
  assumes "honest_provider E world"
    and "processBatch_attempts world this batch attempt = (Inr res, this')"
  shows "embeddings res = map E batch"
  using assms
proof (induction world this batch attempt rule: processBatch_attempts.induct)
  case (1 world this texts attempt)
  show ?case
  proof (cases "attempt < maxRetries this")
    case False
    then show ?thesis using "1.prems"(2) by (subst (asm) processBatch_attempts.simps) simp
  next
    case retry: True
    show ?thesis
    proof (cases "openai this")
      case False
      then have "processBatch_attempts world this texts (attempt + 1) = (Inr res, this')"
        using "1.prems"(2) retry by (subst (asm) processBatch_attempts.simps) simp
      then show ?thesis using "1.IH"(1) "1.prems"(1) retry False by simp
    next
      case True
      show ?thesis
      proof (cases "provider world (requests_sent this) texts")
        case None
        then have "processBatch_attempts world (this\<lparr>requests_sent := requests_sent this + 1\<rparr>) texts (attempt + 1)
                     = (Inr res, this')"
          using "1.prems"(2) retry True by (subst (asm) processBatch_attempts.simps) simp
        then show ?thesis using "1.IH"(2) "1.prems"(1) retry True None by simp
      next
        case (Some response)
        then have "answers_batch E texts response"
          using "1.prems"(1) by (auto simp: honest_provider_def)
        then have "map item_embedding (sort_key item_index (response_data response)) = map E texts"
          by (rule sorted_answer)
        moreover have "res = \<lparr>embeddings = map item_embedding (sort_key item_index (response_data response)),
                      totalTokens = usage_total_tokens response,
                      totalCost = real (usage_total_tokens response) * costPerToken\<rparr>"
          using "1.prems"(2) retry True Some by (subst (asm) processBatch_attempts.simps) simp
        ultimately show ?thesis by simp
      qed
    qed
  qed
qed

lemma processBatch_answered:
  assumes "provider_always_answers world" "openai this" "0 < maxRetries this"
  shows "\<exists>res. processBatch world this batch = (Inr res, this\<lparr>requests_sent := requests_sent this + 1\<rparr>)"
proof -
  obtain response where "provider world (requests_sent this) batch = Some response"
    using assms(1) by (auto simp: provider_always_answers_def)
  then show ?thesis using assms(2,3)
    by (simp add: processBatch_def)
qed

lemma process_batches_correct:
  assumes "honest_provider E world"
    and "process_batches world this batches acc = (Inr res, this')"
  shows "embeddings res = embeddings acc @ map E (concat batches)"
  using assms(2)
proof (induction batches arbitrary: this acc)
  case Nil
  then show ?case by simp
next
  case (Cons batch batches)
  obtain out this1 where pb: "processBatch world this batch = (out, this1)"
    by (cases "processBatch world this batch")
  show ?case
  proof (cases out)
    case (Inl failure)
    then show ?thesis using Cons.prems pb by simp
  next
    case (Inr batchResult)
    have e: "embeddings batchResult = map E batch"
      using processBatch_attempts_correct [OF assms(1)] pb Inr by (simp add: processBatch_def)
    have "process_batches world this1 batches
            \<lparr>embeddings = embeddings acc @ embeddings batchResult,
             totalTokens = totalTokens acc + totalTokens batchResult,
             totalCost = totalCost acc + totalCost batchResult\<rparr> = (Inr res, this')"
      using Cons.prems pb Inr by simp
    then show ?thesis using Cons.IH e by fastforce
  qed
qed

lemma process_batches_answered:
  assumes "provider_always_answers world" "openai this" "0 < maxRetries this"
  shows "\<exists>res. process_batches world this batches acc =
                 (Inr res, this\<lparr>requests_sent := requests_sent this + length batches\<rparr>)"
  using assms(2,3)
proof (induction batches arbitrary: this acc)
  case Nil
  then show ?case by simp
next
  case (Cons batch batches)
  obtain batchResult where pb:
    "processBatch world this batch = (Inr batchResult, this\<lparr>requests_sent := requests_sent this + 1\<rparr>)"
    using processBatch_answered [OF assms(1) Cons.prems] by blast
  let ?this1 = "this\<lparr>requests_sent := requests_sent this + 1\<rparr>"
  have "openai ?this1" "0 < maxRetries ?this1" using Cons.prems by simp_all
  from Cons.IH [OF this] obtain res where
    "process_batches world ?this1 batches
            \<lparr>embeddings = embeddings acc @ embeddings batchResult,
             totalTokens = totalTokens acc + totalTokens batchResult,
             totalCost = totalCost acc + totalCost batchResult\<rparr>
       = (Inr res, ?this1\<lparr>requests_sent := requests_sent ?this1 + length batches\<rparr>)"
    by blast
  then show ?case using pb by simp
qed

lemma initializeOpenAI_fields:
  "initializeOpenAI world this = Inr this' \<Longrightarrow>
     openai this' \<and> batchSize this' = batchSize this \<and> maxRetries this' = maxRetries this \<and>
     requests_sent this' = requests_sent this"
  by (auto simp: initializeOpenAI_def split: if_splits)

lemma initializeOpenAI_ok:
  "openai this \<or> (openai_api_key world \<and> openai_import_ok world) \<Longrightarrow>
     \<exists>this'. initializeOpenAI world this = Inr this'"
  by (auto simp: initializeOpenAI_def)

text \<open>
  C8. \<^const>\<open>generateEmbeddings\<close> partitions the inputs into consecutive, non-empty batches
  of at most the configured batch size (100 unless configured), sends them one after
  the other, sorts each response by the index of its items, and, when it returns
  vectors at all, returns exactly one vector per input text in the order of the inputs,
  in whatever order the provider listed the items of a batch. It does return vectors
  when the client can be created and no request fails. The batch size is positive, as
  the constructor makes it; the provider answers each batch with one item per input.
\<close>

theorem generateEmbeddings_order:
  assumes size: "0 < batchSize this"
    and honest: "honest_provider E world"
  shows "\<exists>batches outcome this'.
           createBatches texts (batchSize this) = Some batches \<and>
           concat batches = texts \<and>
           (\<forall>batch \<in> set batches. batch \<noteq> [] \<and> length batch \<le> batchSize this) \<and>
           generateEmbeddings world this texts = Some (outcome, this') \<and>
           (\<forall>res. outcome = Inr res \<longrightarrow>
              embeddings res = map E texts \<and> length (embeddings res) = length texts) \<and>
           (provider_always_answers world \<and> 0 < maxRetries this \<and>
            (openai this \<or> (openai_api_key world \<and> openai_import_ok world)) \<longrightarrow>
              (\<exists>res. outcome = Inr res) \<and>
              (texts \<noteq> [] \<longrightarrow> requests_sent this' = requests_sent this + length batches))"
proof -
  let ?batches = "chunks (batchSize this) texts"
  have cb: "createBatches texts (batchSize this) = Some ?batches"
    using size by (rule createBatches_eq)
  have cc: "concat ?batches = texts" using size by (rule concat_chunks)
  have bd: "\<forall>batch \<in> set ?batches. batch \<noteq> [] \<and> length batch \<le> batchSize this"
    using chunks_bounds by blast
  show ?thesis
  proof (cases "texts = []")
    case True
    then show ?thesis using cb cc bd
      by (auto simp: generateEmbeddings_def)
  next
    case nonempty: False
    show ?thesis
    proof (cases "initializeOpenAI world this")
      case (Inl failure)
      then have "\<not> (openai this \<or> (openai_api_key world \<and> openai_import_ok world))"
        using initializeOpenAI_ok [of this world] by auto
      then show ?thesis using cb cc bd nonempty Inl
        by (auto simp: generateEmbeddings_def)
    next
      case (Inr this1)
      then have f: "openai this1" "batchSize this1 = batchSize this" "maxRetries this1 = maxRetries this"
        "requests_sent this1 = requests_sent this"
        using initializeOpenAI_fields by blast+
      obtain outcome this2 where pbs:
        "process_batches world this1 ?batches \<lparr>embeddings = [], totalTokens = 0, totalCost = 0\<rparr> = (outcome, this2)"
        by (cases "process_batches world this1 ?batches \<lparr>embeddings = [], totalTokens = 0, totalCost = 0\<rparr>")
      have gen: "generateEmbeddings world this texts = Some (outcome, this2)"
        using nonempty Inr cb f pbs by (simp add: generateEmbeddings_def)
      have corr: "\<forall>res. outcome = Inr res \<longrightarrow>
              embeddings res = map E texts \<and> length (embeddings res) = length texts"
        using process_batches_correct [OF honest] pbs cc by fastforce
      have tot: "provider_always_answers world \<and> 0 < maxRetries this \<longrightarrow>
              (\<exists>res. outcome = Inr res) \<and> requests_sent this2 = requests_sent this + length ?batches"
      proof
        assume a: "provider_always_answers world \<and> 0 < maxRetries this"
        then have "0 < maxRetries this1" using f by simp
        then obtain res where
          "process_batches world this1 ?batches \<lparr>embeddings = [], totalTokens = 0, totalCost = 0\<rparr>
             = (Inr res, this1\<lparr>requests_sent := requests_sent this1 + length ?batches\<rparr>)"
          using process_batches_answered [of world this1 ?batches] a f(1) by blast
        then show "(\<exists>res. outcome = Inr res) \<and> requests_sent this2 = requests_sent this + length ?batches"
          using pbs f by auto
      qed
      show ?thesis using cb cc bd gen corr tot by blast
    qed
  qed
qed

theorem generateEmbeddings_order_witness:
  "0 < batchSize (new_EmbeddingService None) \<and>
   batchSize (new_EmbeddingService None) = 100 \<and>
   honest_provider example_embedding example_embedding_world \<and>
   provider_always_answers example_embedding_world \<and>
   createBatches [''a'', ''bb'', ''ccc''] 2 = Some [[''a'', ''bb''], [''ccc'']] \<and>
   (\<exists>res this'.
      generateEmbeddings example_embedding_world ((new_EmbeddingService None)\<lparr>batchSize := 2\<rparr>)
        [''a'', ''bb'', ''ccc''] = Some (Inr res, this') \<and>
      embeddings res = [[1], [2], [3]] \<and> requests_sent this' = 2)"
proof -
  let ?S = "(new_EmbeddingService None)\<lparr>batchSize := 2\<rparr>"
  let ?texts = "[''a'', ''bb'', ''ccc'']"
  have size: "0 < batchSize ?S" by simp
  have h: "honest_provider example_embedding example_embedding_world"
    by (simp add: honest_provider_def example_embedding_world_def reversing_provider_def
        answers_batch_def)
  have a: "provider_always_answers example_embedding_world"
    by (simp add: provider_always_answers_def example_embedding_world_def reversing_provider_def)
  have r: "0 < maxRetries ?S" by (simp add: new_EmbeddingService_def)
  have k: "openai_api_key example_embedding_world \<and> openai_import_ok example_embedding_world"
    by (simp add: example_embedding_world_def)
  have c: "createBatches ?texts 2 = Some [[''a'', ''bb''], [''ccc'']]"
    by (simp add: createBatches_eq chunks.simps)
  from generateEmbeddings_order [OF size h, of ?texts]
  obtain batches outcome this' where
    b: "createBatches ?texts (batchSize ?S) = Some batches"
    and g: "generateEmbeddings example_embedding_world ?S ?texts = Some (outcome, this')"
    and o: "\<forall>res. outcome = Inr res \<longrightarrow> embeddings res = map example_embedding ?texts \<and>
              length (embeddings res) = length ?texts"
    and t: "provider_always_answers example_embedding_world \<and> 0 < maxRetries ?S \<and>
            (openai ?S \<or> (openai_api_key example_embedding_world \<and> openai_import_ok example_embedding_world)) \<longrightarrow>
              (\<exists>res. outcome = Inr res) \<and>
              (?texts \<noteq> [] \<longrightarrow> requests_sent this' = requests_sent ?S + length batches)"
    by blast
  from b c have "batches = [[''a'', ''bb''], [''ccc'']]" by simp
  then have bl: "length batches = 2" by simp
  from t a r k obtain res where res: "outcome = Inr res"
    and n: "requests_sent this' = requests_sent ?S + length batches" by auto
  from o res have "embeddings res = [[1], [2], [3]]"
    by (simp add: example_embedding_def)
  moreover have "requests_sent this' = 2" using n bl by (simp add: new_EmbeddingService_def)
  ultimately have "\<exists>res this'. generateEmbeddings example_embedding_world ?S ?texts = Some (Inr res, this') \<and>
      embeddings res = [[1], [2], [3]] \<and> requests_sent this' = 2"
    using g res by blast
  then show ?thesis using h a c by (simp add: new_EmbeddingService_def)
qed

subsection \<open>Reranker client\<close>

lemma slice_split:
  "slice docs 0 (min (int (length docs)) m) @ slice_from docs m = docs"
proof (cases "m < 0")
  case True
  then have "min (int (length docs)) m = m" by simp
  then show ?thesis using True
    by (simp add: slice_def slice_from_def slice_index_def Let_def)
next
  case False
  show ?thesis
  proof (cases "m < int (length docs)")
    case True
    then show ?thesis using False
      by (simp add: slice_def slice_from_def slice_index_def Let_def min_def)
  next
    case m: False
    then have "min (int (length docs)) m = int (length docs)" by simp
    moreover have "min (nat m) (length docs) = length docs" using m by simp
    ultimately show ?thesis using False
      by (simp add: slice_def slice_from_def slice_index_def Let_def)
  qed
qed

lemma rerank_attempts_all_fail:
  assumes "\<forall>a. attempt \<le> a \<and> a < reranker_maxRetries this \<longrightarrow> attempt_fails world a request"
  shows "rerank_attempts world this request docs q attempt = Inl (Error ''Cohere reranking failed'')"
  using assms
proof (induction world this request docs q attempt rule: rerank_attempts.induct)
  case (1 world this request originalDocuments query_text attempt)
  show ?case
  proof (cases "attempt < reranker_maxRetries this")
    case False
    then show ?thesis by (subst rerank_attempts.simps) simp
  next
    case True
    then have f: "attempt_fails world attempt request" using "1.prems" by simp
    have later: "\<forall>a. attempt + 1 \<le> a \<and> a < reranker_maxRetries this \<longrightarrow> attempt_fails world a request"
      using "1.prems" by simp
    from f show ?thesis
      unfolding attempt_fails_def
    proof
      assume r: "rerank_api world attempt request = Rejected"
      then show ?thesis using True "1.IH"(1) [OF True r later]
        by (subst rerank_attempts.simps) simp
    next
      assume r: "rerank_api world attempt request = Unreadable"
      then show ?thesis using True "1.IH"(2) [OF True r later]
        by (subst rerank_attempts.simps) simp
    qed
  qed
qed

lemma rerank_attempts_first_response:
  assumes "attempt \<le> a" "a < reranker_maxRetries this"
    "\<forall>a'. attempt \<le> a' \<and> a' < a \<longrightarrow> attempt_fails world a' request"
    "rerank_api world a request = Responded response"
  shows "rerank_attempts world this request docs q attempt = Inr (processRerankResponse response docs q)"
  using assms
proof (induction world this request docs q attempt rule: rerank_attempts.induct)
  case (1 world this request originalDocuments query_text attempt)
  have lt: "attempt < reranker_maxRetries this" using "1.prems"(1,2) by simp
  show ?case
  proof (cases "attempt = a")
    case True
    then show ?thesis using lt "1.prems"(4) by (subst rerank_attempts.simps) simp
  next
    case False
    then have less: "attempt < a" using "1.prems"(1) by simp
    then have f: "attempt_fails world attempt request" using "1.prems"(3) by simp
    have le: "attempt + 1 \<le> a" using less by simp
    have later: "\<forall>a'. attempt + 1 \<le> a' \<and> a' < a \<longrightarrow> attempt_fails world a' request"
      using "1.prems"(3) by simp
    from f show ?thesis
      unfolding attempt_fails_def
    proof
      assume r: "rerank_api world attempt request = Rejected"
      then show ?thesis
        using lt "1.IH"(1) [OF lt r le "1.prems"(2) later "1.prems"(4)]
        by (subst rerank_attempts.simps) simp
    next
      assume r: "rerank_api world attempt request = Unreadable"
      then show ?thesis
        using lt "1.IH"(2) [OF lt r le "1.prems"(2) later "1.prems"(4)]
        by (subst rerank_attempts.simps) simp
    qed
  qed
qed

lemma initializeCohere_cases:
  "initializeCohere world this = Inl e \<Longrightarrow> client_unavailable world this"
  "initializeCohere world this = Inr this' \<Longrightarrow>
     client this' \<and> maxDocuments this' = maxDocuments this \<and>
     reranker_maxRetries this' = reranker_maxRetries this \<and> \<not> client_unavailable world this"
  by (auto simp: initializeCohere_def client_unavailable_def split: if_splits)

lemma rerank_unavailable:
  assumes "client_unavailable world this"
  shows "fst (rerank world this q docs options) = docs"
proof -
  have "\<exists>e. initializeCohere world this = Inl e"
    using assms by (auto simp: initializeCohere_def client_unavailable_def)
  then show ?thesis by (auto simp: rerank_def Let_def)
qed

lemma rerank_outcomes:
  "fst (rerank world this q docs options) = docs \<or>
   (\<exists>this' reranked. initializeCohere world this = Inr this' \<and> docs \<noteq> [] \<and> trim q \<noteq> [] \<and>
      rerank_attempts world this' (sent_request this q docs options)
        (slice docs 0 (min (int (length docs)) (maxDocuments this))) q 0 = Inr reranked \<and>
      fst (rerank world this q docs options) = reranked @ slice_from docs (maxDocuments this))"
proof (cases "docs = [] \<or> trim q = []")
  case True
  then show ?thesis by (auto simp: rerank_def)
next
  case False
  show ?thesis
  proof (cases "initializeCohere world this")
    case (Inl e)
    then show ?thesis using False by (simp add: rerank_def Let_def)
  next
    case (Inr this')
    then have c: "client this'" "maxDocuments this' = maxDocuments this"
      using initializeCohere_cases(2) by blast+
    show ?thesis
    proof (cases "rerank_attempts world this' (sent_request this q docs options)
        (slice docs 0 (min (int (length docs)) (maxDocuments this))) q 0")
      case (Inl e)
      then show ?thesis using False Inr c
        by (simp add: rerank_def Let_def rerankWithRetries_def sent_request_def)
    next
      case r: (Inr reranked)
      then show ?thesis using False Inr c
        by (simp add: rerank_def Let_def rerankWithRetries_def sent_request_def)
    qed
  qed
qed

lemma processRerankResponse_no_results:
  "response_results response = None \<or> response_results response = Some [] \<Longrightarrow>
     processRerankResponse response docs q = docs"
  by (auto simp: processRerankResponse_def)

text \<open>
  C5, as the code has it. \<^const>\<open>rerank\<close> returns a list on every path, never an error.
  It returns the original list, same content, order and scores, when the client cannot
  be created, when every attempt of the remote call fails (rejected, or answered by
  something unreadable), and when the first answer that arrives carries no results
  (the property missing or empty). An entry of a response whose index names no document
  is not a failure to the code: the entry is passed over.
\<close>

theorem rerank_degrades:
  "(client_unavailable world this \<longrightarrow> fst (rerank world this q docs options) = docs) \<and>
   ((\<forall>a. a < reranker_maxRetries this \<longrightarrow> attempt_fails world a (sent_request this q docs options)) \<longrightarrow>
      fst (rerank world this q docs options) = docs) \<and>
   (a < reranker_maxRetries this \<and>
    (\<forall>a'. a' < a \<longrightarrow> attempt_fails world a' (sent_request this q docs options)) \<and>
    rerank_api world a (sent_request this q docs options) = Responded response \<and>
    (response_results response = None \<or> response_results response = Some []) \<longrightarrow>
      fst (rerank world this q docs options) = docs)"
proof (intro conjI impI)
  assume "client_unavailable world this"
  then show "fst (rerank world this q docs options) = docs" by (rule rerank_unavailable)
next
  assume fails: "\<forall>a. a < reranker_maxRetries this \<longrightarrow> attempt_fails world a (sent_request this q docs options)"
  from rerank_outcomes [of world this q docs options]
  show "fst (rerank world this q docs options) = docs"
  proof
    assume "fst (rerank world this q docs options) = docs"
    then show ?thesis .
  next
    assume "\<exists>this' reranked. initializeCohere world this = Inr this' \<and> docs \<noteq> [] \<and> trim q \<noteq> [] \<and>
      rerank_attempts world this' (sent_request this q docs options)
        (slice docs 0 (min (int (length docs)) (maxDocuments this))) q 0 = Inr reranked \<and>
      fst (rerank world this q docs options) = reranked @ slice_from docs (maxDocuments this)"
    then obtain this' reranked where i: "initializeCohere world this = Inr this'"
      and r: "rerank_attempts world this' (sent_request this q docs options)
        (slice docs 0 (min (int (length docs)) (maxDocuments this))) q 0 = Inr reranked"
      by blast
    have "reranker_maxRetries this' = reranker_maxRetries this"
      using initializeCohere_cases(2) [OF i] by simp
    then have "\<forall>a. 0 \<le> a \<and> a < reranker_maxRetries this' \<longrightarrow>
                 attempt_fails world a (sent_request this q docs options)"
      using fails by simp
    from rerank_attempts_all_fail [OF this] r show ?thesis by simp
  qed
next
  assume h: "a < reranker_maxRetries this \<and>
    (\<forall>a'. a' < a \<longrightarrow> attempt_fails world a' (sent_request this q docs options)) \<and>
    rerank_api world a (sent_request this q docs options) = Responded response \<and>
    (response_results response = None \<or> response_results response = Some [])"
  from rerank_outcomes [of world this q docs options]
  show "fst (rerank world this q docs options) = docs"
  proof
    assume "fst (rerank world this q docs options) = docs"
    then show ?thesis .
  next
    assume "\<exists>this' reranked. initializeCohere world this = Inr this' \<and> docs \<noteq> [] \<and> trim q \<noteq> [] \<and>
      rerank_attempts world this' (sent_request this q docs options)
        (slice docs 0 (min (int (length docs)) (maxDocuments this))) q 0 = Inr reranked \<and>
      fst (rerank world this q docs options) = reranked @ slice_from docs (maxDocuments this)"
    then obtain this' reranked where i: "initializeCohere world this = Inr this'"
      and r: "rerank_attempts world this' (sent_request this q docs options)
        (slice docs 0 (min (int (length docs)) (maxDocuments this))) q 0 = Inr reranked"
      and f: "fst (rerank world this q docs options) = reranked @ slice_from docs (maxDocuments this)"
      by blast
    have m: "reranker_maxRetries this' = reranker_maxRetries this"
      using initializeCohere_cases(2) [OF i] by simp
    have "rerank_attempts world this' (sent_request this q docs options)
        (slice docs 0 (min (int (length docs)) (maxDocuments this))) q 0
          = Inr (processRerankResponse response (slice docs 0 (min (int (length docs)) (maxDocuments this))) q)"
      by (rule rerank_attempts_first_response [where a = a]) (use h m in auto)
    then have "reranked = slice docs 0 (min (int (length docs)) (maxDocuments this))"
      using r h by (simp add: processRerankResponse_no_results)
    then show ?thesis using f by (simp add: slice_split)
  qed
qed

theorem rerank_degrades_witness:
  "fst (rerank no_key_world new_CohereReranker ''q'' example_documents example_rerank_options) = example_documents \<and>
   fst (rerank rejecting_world new_CohereReranker ''q'' example_documents example_rerank_options) = example_documents \<and>
   fst (rerank empty_response_world new_CohereReranker ''q'' example_documents example_rerank_options) = example_documents"
proof -
  let ?req = "sent_request new_CohereReranker ''q'' example_documents example_rerank_options"
  have 1: "client_unavailable no_key_world new_CohereReranker"
    by (simp add: client_unavailable_def no_key_world_def new_CohereReranker_def)
  have 2: "\<forall>a. a < reranker_maxRetries new_CohereReranker \<longrightarrow> attempt_fails rejecting_world a ?req"
    by (simp add: attempt_fails_def rejecting_world_def)
  have 3: "(1::nat) < reranker_maxRetries new_CohereReranker \<and>
    (\<forall>a'. a' < 1 \<longrightarrow> attempt_fails empty_response_world a' ?req) \<and>
    rerank_api empty_response_world 1 ?req = Responded \<lparr>response_results = None\<rparr> \<and>
    (response_results \<lparr>response_results = None\<rparr> = None \<or>
     response_results \<lparr>response_results = None\<rparr> = Some [])"
    by (simp add: attempt_fails_def empty_response_world_def new_CohereReranker_def)
  show ?thesis
    using rerank_degrades [of no_key_world new_CohereReranker "''q''" example_documents example_rerank_options] 1
      rerank_degrades [of rejecting_world new_CohereReranker "''q''" example_documents example_rerank_options] 2
      rerank_degrades [of empty_response_world new_CohereReranker "''q''" example_documents example_rerank_options
         1 "\<lparr>response_results = None\<rparr>"] 3
    by blast
qed

lemma trim_q: "trim ''q'' = ''q''"
  by (simp add: trim_def is_whitespace_def)

text \<open>
  C5 as stated fails for a malformed response whose only entry names the document 5 of
  two: the entry is passed over and the result is the empty list, not the original
  one.
\<close>

theorem rerank_stray_index_counterexample:
  "fst (rerank stray_index_world new_CohereReranker ''q'' example_documents example_rerank_options) = [] \<and>
   example_documents \<noteq> []"
  by (simp add: rerank_def Let_def trim_q example_documents_def initializeCohere_def
      new_CohereReranker_def stray_index_world_def rerankWithRetries_def rerank_attempts.simps
      processRerankResponse_def slice_def slice_from_def slice_index_def)

subsection \<open>Order of the result lists\<close>

lemma non_increasing_scores:
  "non_increasing xs \<longleftrightarrow> sorted_wrt (\<lambda>x y. y \<le> x) (map relevanceScore xs)"
  by (simp add: non_increasing_def sorted_wrt_map)

lemma rerank_collect_scores:
  "map relevanceScore (rerank_collect entries docs q acc) =
     map relevanceScore acc @
     map item_score (filter (\<lambda>e. 0 \<le> result_index e \<and> result_index e < int (length docs)) entries)"
  by (induction entries arbitrary: acc) (simp_all add: Let_def)

lemma processRerankResponse_sorted:
  assumes "non_increasing docs"
    and "\<And>entries. response_results response = Some entries \<Longrightarrow>
           sorted_wrt (\<lambda>x y. item_score y \<le> item_score x) entries"
  shows "non_increasing (processRerankResponse response docs q)"
proof (cases "response_results response")
  case None
  then show ?thesis using assms(1) by (simp add: processRerankResponse_def)
next
  case (Some entries)
  show ?thesis
  proof (cases "entries = []")
    case True
    then show ?thesis using Some assms(1) by (simp add: processRerankResponse_def)
  next
    case False
    have "sorted_wrt (\<lambda>x y. item_score y \<le> item_score x)
            (filter (\<lambda>e. 0 \<le> result_index e \<and> result_index e < int (length docs)) entries)"
      using assms(2) [OF Some] by (rule sorted_wrt_filter)
    then have "sorted_wrt (\<lambda>x y. y \<le> x)
            (map item_score (filter (\<lambda>e. 0 \<le> result_index e \<and> result_index e < int (length docs)) entries))"
      by (simp add: sorted_wrt_map)
    then show ?thesis using Some False
      by (simp add: processRerankResponse_def non_increasing_scores rerank_collect_scores)
  qed
qed

lemma rerank_attempts_Inr:
  assumes "rerank_attempts world this request docs q attempt = Inr reranked"
  shows "\<exists>a response. rerank_api world a request = Responded response \<and>
           reranked = processRerankResponse response docs q"
  using assms
proof (induction world this request docs q attempt rule: rerank_attempts.induct)
  case (1 world this request originalDocuments query_text attempt)
  show ?case
  proof (cases "attempt < reranker_maxRetries this")
    case False
    then show ?thesis using "1.prems" by (subst (asm) rerank_attempts.simps) simp
  next
    case True
    show ?thesis
    proof (cases "rerank_api world attempt request")
      case Rejected
      then have "rerank_attempts world this request originalDocuments query_text (attempt + 1) = Inr reranked"
        using "1.prems" True by (subst (asm) rerank_attempts.simps) simp
      then show ?thesis using "1.IH"(1) True Rejected by blast
    next
      case Unreadable
      then have "rerank_attempts world this request originalDocuments query_text (attempt + 1) = Inr reranked"
        using "1.prems" True by (subst (asm) rerank_attempts.simps) simp
      then show ?thesis using "1.IH"(2) True Unreadable by blast
    next
      case (Responded response)
      then have "reranked = processRerankResponse response originalDocuments query_text"
        using "1.prems" True by (subst (asm) rerank_attempts.simps) simp
      then show ?thesis using Responded by blast
    qed
  qed
qed

lemma slice_all: "int (length xs) \<le> m \<Longrightarrow> slice xs 0 (min (int (length xs)) m) = xs"
  by (simp add: slice_def slice_index_def Let_def min_def)

lemma slice_from_none: "int (length xs) \<le> m \<Longrightarrow> slice_from xs m = []"
  by (simp add: slice_from_def slice_index_def)

lemma rerank_non_increasing:
  assumes docs: "non_increasing docs"
    and sorted: "provider_sorted world"
    and fits: "int (length docs) \<le> maxDocuments this"
  shows "non_increasing (fst (rerank world this q docs options))"
proof -
  from rerank_outcomes [of world this q docs options] show ?thesis
  proof
    assume "fst (rerank world this q docs options) = docs"
    then show ?thesis using docs by simp
  next
    assume "\<exists>this' reranked. initializeCohere world this = Inr this' \<and> docs \<noteq> [] \<and> trim q \<noteq> [] \<and>
      rerank_attempts world this' (sent_request this q docs options)
        (slice docs 0 (min (int (length docs)) (maxDocuments this))) q 0 = Inr reranked \<and>
      fst (rerank world this q docs options) = reranked @ slice_from docs (maxDocuments this)"
    then obtain this' reranked where
      r: "rerank_attempts world this' (sent_request this q docs options)
        (slice docs 0 (min (int (length docs)) (maxDocuments this))) q 0 = Inr reranked"
      and f: "fst (rerank world this q docs options) = reranked @ slice_from docs (maxDocuments this)"
      by blast
    have whole: "slice docs 0 (min (int (length docs)) (maxDocuments this)) = docs"
      using fits by (rule slice_all)
    from rerank_attempts_Inr [OF r] obtain a response where
      api: "rerank_api world a (sent_request this q docs options) = Responded response"
      and re: "reranked = processRerankResponse response docs q"
      unfolding whole by blast
    have "non_increasing reranked"
      unfolding re
    proof (rule processRerankResponse_sorted [OF docs])
      fix entries assume "response_results response = Some entries"
      then show "sorted_wrt (\<lambda>x y. item_score y \<le> item_score x) entries"
        using sorted api unfolding provider_sorted_def by blast
    qed
    then show ?thesis using f fits by (simp add: slice_from_none)
  qed
qed

lemma executeFTS5Search_non_increasing: "non_increasing (executeFTS5Search world q n)"
proof -
  have "non_increasing (map (fts5_result (length nodes)) (zip nodes [0..<length nodes]))" for nodes
    unfolding non_increasing_def sorted_wrt_map
  proof (subst sorted_wrt_iff_nth_less, intro allI impI)
    fix i j assume "i < j" and "j < length (zip nodes [0..<length nodes])"
    then have j: "j < length nodes" and i: "i < length nodes" by simp_all
    have "real i / real (max (length nodes) 1) \<le> real j / real (max (length nodes) 1)"
      using \<open>i < j\<close> by (simp add: divide_right_mono)
    then show "relevanceScore (fts5_result (length nodes) (zip nodes [0..<length nodes] ! j))
          \<le> relevanceScore (fts5_result (length nodes) (zip nodes [0..<length nodes] ! i))"
      using i j by (simp add: fts5_result_def)
  qed
  then show ?thesis
    by (auto simp: executeFTS5Search_def Let_def non_increasing_def split: option.splits)
qed

lemma executeVectorSearch_non_increasing: "non_increasing (executeVectorSearch world this q n)"
  by (auto simp: executeVectorSearch_def findSimilarNodes_non_increasing split: sum.splits)
     (simp add: non_increasing_def)+

lemma fuseResults_non_increasing: "non_increasing (fuseResults fusion A B)"
  by (simp add: non_increasing_def fuseResults_sorted)

lemma search_and_fuse_non_increasing: "non_increasing (search_and_fuse world this q options)"
proof -
  let ?f = "if FTS5 \<in> set (searchMethods options)
             then executeFTS5Search world q (result_limit options * 2) else []"
  let ?v = "if Vector \<in> set (searchMethods options)
             then executeVectorSearch world this q (result_limit options * 2) else []"
  have empty: "non_increasing []" by (simp add: non_increasing_def)
  have nf: "non_increasing ?f" by (simp add: executeFTS5Search_non_increasing empty)
  have nv: "non_increasing ?v" by (simp add: executeVectorSearch_non_increasing empty)
  have "non_increasing (fusion_stage this options ?f ?v)"
  proof (cases "?f = []")
    case True
    then show ?thesis using nv by (auto simp: fusion_stage_def)
  next
    case f: False
    show ?thesis
    proof (cases "?v = []")
      case True
      then show ?thesis using nf f by (auto simp: fusion_stage_def)
    next
      case v: False
      from f have "FTS5 \<in> set (searchMethods options)" by (auto split: if_splits)
      moreover from v have "Vector \<in> set (searchMethods options)" by (auto split: if_splits)
      ultimately have "card {FTS5, Vector} \<le> card (set (searchMethods options))"
        by (intro card_mono) auto
      then have "1 < length (searchMethods options)"
        using card_length [of "searchMethods options"] by simp
      then show ?thesis using f v
        by (simp add: fusion_stage_def fuseResults_non_increasing)
    qed
  qed
  then show ?thesis by (simp add: search_and_fuse_def Let_def)
qed

lemma non_increasing_slice: "non_increasing xs \<Longrightarrow> non_increasing (slice xs a b)"
  by (simp add: non_increasing_def sorted_wrt_slice)

lemma isAvailable_maxDocuments:
  "maxDocuments (snd (isAvailable rw r)) = maxDocuments r"
  by (auto simp: isAvailable_def initializeCohere_def split: sum.splits)

lemma rerank_stage_non_increasing:
  assumes "non_increasing fused"
    and "\<not> reranking_runs world this options fused \<or>
         (provider_sorted (reranking world) \<and> int (length fused) \<le> maxDocuments (cohereReranker this))"
  shows "non_increasing (fst (rerank_stage world this q options fused))"
proof (cases "reranking_runs world this options fused")
  case False
  then show ?thesis using assms(1)
    by (auto simp: rerank_stage_def reranking_runs_def split: prod.splits bool.splits)
next
  case True
  then have ps: "provider_sorted (reranking world)"
    and fit: "int (length fused) \<le> maxDocuments (cohereReranker this)"
    using assms(2) by auto
  obtain r where av: "isAvailable (reranking world) (cohereReranker this) = (True, r)"
    using True by (cases "isAvailable (reranking world) (cohereReranker this)") (auto simp: reranking_runs_def)
  have "maxDocuments r = maxDocuments (cohereReranker this)"
    using isAvailable_maxDocuments [of "reranking world" "cohereReranker this"] av by simp
  then have "non_increasing (fst (rerank (reranking world) r q fused
               \<lparr>options_model = ''rerank-multilingual-v3.0'', topN = result_limit options,
                returnDocuments = Some False, maxChunksPerDoc = None\<rparr>))"
    using rerank_non_increasing [OF assms(1) ps] fit by simp
  then show ?thesis using True av
    by (simp add: rerank_stage_def reranking_runs_def)
qed

lemma pipeline_non_increasing:
  assumes "pipeline_ordered world this q options"
  shows "non_increasing (fst (executeSearchPipeline world this q options))"
proof -
  have "non_increasing (fst (rerank_stage world this q options (search_and_fuse world this q options)))"
    using assms search_and_fuse_non_increasing
    by (intro rerank_stage_non_increasing) (auto simp: pipeline_ordered_def)
  then have "non_increasing (slice (fst (rerank_stage world this q options (search_and_fuse world this q options)))
                 0 (result_limit options))"
    by (rule non_increasing_slice)
  then show ?thesis
    by (cases "rerank_stage world this q options (search_and_fuse world this q options)")
       (simp add: executeSearchPipeline_def Let_def)
qed

lemma search_non_increasing:
  assumes "cache_non_increasing this"
    and "pipeline_ordered world this (trim query_text) (mergeOptions this given)"
  shows "\<exists>found. fst (search world this query_text given) = Inr found \<and> non_increasing found"
proof (cases "query_text = [] \<or> trim query_text = []")
  case True
  then show ?thesis by (auto simp: search_def Let_def non_increasing_def)
next
  case False
  let ?key = "getCacheKey (trim query_text) (mergeOptions this given)"
  let ?cached = "if enableCache this
                 then (case cache this of None \<Rightarrow> None | Some c \<Rightarrow> cache_get c ?key)
                 else None"
  show ?thesis
  proof (cases ?cached)
    case None
    then have "fst (search world this query_text given) =
                 Inr (fst (executeSearchPipeline world this (trim query_text) (mergeOptions this given)))"
      using False by (simp add: search_def Let_def split: prod.splits)
    then show ?thesis using pipeline_non_increasing [OF assms(2)] by simp
  next
    case (Some hit)
    then obtain c where "cache this = Some c" "cache_get c ?key = Some hit"
      by (auto split: if_splits option.splits)
    then have "non_increasing hit"
      using assms(1) unfolding cache_non_increasing_def by blast
    moreover have "fst (search world this query_text given) = Inr hit"
      using False Some by (simp add: search_def Let_def)
    ultimately show ?thesis by simp
  qed
qed

text \<open>
  C7, as the code has it. The fused list, the vector search lists, the lexical list
  and the list the fusion stage hands on are non-increasing. The reranked list takes
  the order of the provider's response and appends the excess with its former scores:
  it is non-increasing when the input was, the provider lists its entries by
  non-increasing relevance and no document exceeds the maximum count. The final list of
  the pipeline, and of \<^const>\<open>search\<close> with a cache of non-increasing lists, is
  non-increasing when reranking does not run or runs under these two conditions.
\<close>

theorem result_lists_non_increasing:
  assumes "0 \<le> rrf_k (rrfFusion this)"
  shows
    "non_increasing (fuseResults (rrfFusion this) A B) \<and>
     non_increasing (findSimilarNodes db query_vector vector_options) \<and>
     non_increasing (findSimilarTemplates db query_vector vector_options) \<and>
     non_increasing (executeVectorSearch world this q n) \<and>
     non_increasing (executeFTS5Search world q n) \<and>
     non_increasing (search_and_fuse world this q options) \<and>
     (non_increasing docs \<and> provider_sorted rerank_world \<and> int (length docs) \<le> maxDocuments reranker \<longrightarrow>
        non_increasing (fst (rerank rerank_world reranker q docs rerank_options))) \<and>
     (pipeline_ordered world this q options \<longrightarrow>
        non_increasing (fst (executeSearchPipeline world this q options))) \<and>
     (cache_non_increasing this \<and> pipeline_ordered world this (trim query_text) (mergeOptions this given) \<longrightarrow>
        (\<exists>found. fst (search world this query_text given) = Inr found \<and> non_increasing found))"
proof (intro conjI impI)
  show "non_increasing (fuseResults (rrfFusion this) A B)"
    by (rule fuseResults_non_increasing)
  show "non_increasing (findSimilarNodes db query_vector vector_options)"
    by (rule findSimilarNodes_non_increasing)
  show "non_increasing (findSimilarTemplates db query_vector vector_options)"
    by (rule findSimilarTemplates_non_increasing)
  show "non_increasing (executeVectorSearch world this q n)"
    by (rule executeVectorSearch_non_increasing)
  show "non_increasing (executeFTS5Search world q n)"
    by (rule executeFTS5Search_non_increasing)
  show "non_increasing (search_and_fuse world this q options)"
    by (rule search_and_fuse_non_increasing)
next
  assume "non_increasing docs \<and> provider_sorted rerank_world \<and> int (length docs) \<le> maxDocuments reranker"
  then show "non_increasing (fst (rerank rerank_world reranker q docs rerank_options))"
    by (simp add: rerank_non_increasing)
next
  assume "pipeline_ordered world this q options"
  then show "non_increasing (fst (executeSearchPipeline world this q options))"
    by (rule pipeline_non_increasing)
next
  assume "cache_non_increasing this \<and> pipeline_ordered world this (trim query_text) (mergeOptions this given)"
  then show "\<exists>found. fst (search world this query_text given) = Inr found \<and> non_increasing found"
    by (simp add: search_non_increasing)
qed

subsection \<open>Failure of the embedding service\<close>

lemma executeVectorSearch_failure:
  "getEmbedding world q = Inl failure \<Longrightarrow> executeVectorSearch world this q n = []"
  by (simp add: executeVectorSearch_def)

lemma fusion_stage_no_vector: "fusion_stage this options f [] = f"
  by (simp add: fusion_stage_def)

lemma search_and_fuse_failure:
  "getEmbedding world q = Inl failure \<Longrightarrow>
     search_and_fuse world this q options = lexical_results world q options"
  by (simp add: search_and_fuse_def Let_def executeVectorSearch_failure fusion_stage_no_vector
      lexical_results_def)

lemma search_returns: "\<exists>found. fst (search world this query_text given) = Inr found"
  by (auto simp: search_def Let_def split: option.splits prod.splits)

lemma search_on_miss:
  assumes "trim query_text \<noteq> []" "cache_miss this query_text given"
  shows "fst (search world this query_text given) =
           Inr (fst (executeSearchPipeline world this (trim query_text) (mergeOptions this given)))"
proof -
  have q: "query_text \<noteq> []" using assms(1) by (auto simp: trim_def)
  have "(if enableCache this
         then (case cache this of None \<Rightarrow> None
               | Some c \<Rightarrow> cache_get c (getCacheKey (trim query_text) (mergeOptions this given)))
         else None) = None"
    using assms(2) by (auto simp: cache_miss_def)
  then show ?thesis using assms(1) q
    by (simp add: search_def Let_def split: prod.splits)
qed

lemma pipeline_unfold:
  "fst (executeSearchPipeline world this q options) =
     slice (fst (rerank_stage world this q options (search_and_fuse world this q options)))
       0 (result_limit options)"
  by (cases "rerank_stage world this q options (search_and_fuse world this q options)")
     (simp add: executeSearchPipeline_def Let_def)

lemma rerank_stage_empty: "fst (rerank_stage world this q options []) = []"
  by (simp add: rerank_stage_def)

lemma slice_Nil: "slice [] a b = []"
  by (simp add: slice_def Let_def)

text \<open>
  C4, as the code has it. When the embedding service fails, \<^const>\<open>search\<close> raises no
  error, whatever methods are enabled: \<^const>\<open>executeVectorSearch\<close> catches the failure
  and returns the empty list, so that the pipeline goes on with the lexical results
  alone (reranked if reranking runs, cut to the limit); with vector search as the only
  method that is the empty list.
\<close>

theorem search_embedding_failure:
  assumes "getEmbedding world (trim query_text) = Inl failure"
  shows
    "(\<exists>found. fst (search world this query_text given) = Inr found) \<and>
     executeVectorSearch world this (trim query_text) n = [] \<and>
     search_and_fuse world this (trim query_text) options =
       lexical_results world (trim query_text) options \<and>
     (trim query_text \<noteq> [] \<and> cache_miss this query_text given \<longrightarrow>
        fst (search world this query_text given) =
          Inr (slice
                 (fst (rerank_stage world this (trim query_text) (mergeOptions this given)
                         (lexical_results world (trim query_text) (mergeOptions this given))))
                 0 (result_limit (mergeOptions this given)))) \<and>
     (trim query_text \<noteq> [] \<and> cache_miss this query_text given \<and>
      FTS5 \<notin> set (searchMethods (mergeOptions this given)) \<longrightarrow>
        fst (search world this query_text given) = Inr [])"
proof (intro conjI impI)
  show "\<exists>found. fst (search world this query_text given) = Inr found"
    by (rule search_returns)
  show "executeVectorSearch world this (trim query_text) n = []"
    using assms by (rule executeVectorSearch_failure)
  show "search_and_fuse world this (trim query_text) options =
       lexical_results world (trim query_text) options"
    using assms by (rule search_and_fuse_failure)
next
  assume h: "trim query_text \<noteq> [] \<and> cache_miss this query_text given"
  then show "fst (search world this query_text given) =
          Inr (slice
                 (fst (rerank_stage world this (trim query_text) (mergeOptions this given)
                         (lexical_results world (trim query_text) (mergeOptions this given))))
                 0 (result_limit (mergeOptions this given)))"
    using assms by (simp add: search_on_miss pipeline_unfold search_and_fuse_failure)
next
  assume h: "trim query_text \<noteq> [] \<and> cache_miss this query_text given \<and>
      FTS5 \<notin> set (searchMethods (mergeOptions this given))"
  then show "fst (search world this query_text given) = Inr []"
    using assms
    by (simp add: search_on_miss pipeline_unfold search_and_fuse_failure lexical_results_def
        rerank_stage_empty slice_Nil)
qed

lemma trim_email: "trim ''email'' = ''email''"
  by (simp add: trim_def is_whitespace_def)

lemma example_fts5: 
  "executeFTS5Search lexical_world ''email'' n =
     [fts5_result 2 (example_node ''A'' None None None None, 0),
      fts5_result 2 (example_node ''B'' None None None None, 1)]"
  by (simp add: executeFTS5Search_def lexical_world_def Let_def upt_rec [of 0] upt_rec [of 1] upt_rec [of 2]
      numeral_2_eq_2)

text \<open>
  C4 as stated asks for a hard error when vector search is the only method and the
  embedding service fails; the code returns the empty list.
\<close>

theorem search_vector_only_counterexample:
  "getEmbedding lexical_world (trim ''email'') = Inl (Error ''Failed to process batch'') \<and>
   mergeOptions example_engine (no_options\<lparr>given_searchMethods := Some [Vector]\<rparr>)
     = \<lparr>options_query = [], result_limit = 20, rrfK = 60, enableReranking = True,
        searchMethods = [Vector], includeMetadata = False\<rparr> \<and>
   fst (search lexical_world example_engine ''email'' (no_options\<lparr>given_searchMethods := Some [Vector]\<rparr>))
     = Inr []"
  by (simp add: search_def Let_def trim_email mergeOptions_def pick_def no_options_def
      example_engine_def cache_get_def getCacheKey_def executeSearchPipeline_def
      search_and_fuse_def executeVectorSearch_def isVectorStorageReady_def lexical_world_def
      fusion_stage_def rerank_stage_def slice_def)

theorem search_embedding_failure_witness:
  "getEmbedding lexical_world (trim ''email'') = Inl (Error ''Failed to process batch'') \<and>
   map (\<lambda>r. (nodeType r, relevanceScore r, searchMethod r))
     (case fst (search lexical_world example_engine ''email'' (no_options\<lparr>given_enableReranking := Some False\<rparr>)) of
        Inr found \<Rightarrow> found | Inl failure \<Rightarrow> [])
     = [(''A'', 1, FTS5), (''B'', 1 / 2, FTS5)] \<and>
   fst (search lexical_world example_engine ''email''
          (no_options\<lparr>given_enableReranking := Some False, given_searchMethods := Some [Vector]\<rparr>)) = Inr []"
proof -
  let ?given = "no_options\<lparr>given_enableReranking := Some False\<rparr>"
  let ?given2 = "no_options\<lparr>given_enableReranking := Some False, given_searchMethods := Some [Vector]\<rparr>"
  have e: "getEmbedding lexical_world (trim ''email'') = Inl (Error ''Failed to process batch'')"
    by (simp add: lexical_world_def)
  have t: "trim ''email'' \<noteq> []" by (simp add: trim_email)
  have m: "cache_miss example_engine ''email'' ?given" "cache_miss example_engine ''email'' ?given2"
    by (simp_all add: cache_miss_def example_engine_def cache_get_def)
  have o: "mergeOptions example_engine ?given
     = \<lparr>options_query = [], result_limit = 20, rrfK = 60, enableReranking = False,
        searchMethods = [FTS5, Vector], includeMetadata = False\<rparr>"
    by (simp add: mergeOptions_def pick_def no_options_def example_engine_def)
  have o2: "FTS5 \<notin> set (searchMethods (mergeOptions example_engine ?given2))"
    by (simp add: mergeOptions_def pick_def no_options_def example_engine_def)
  have "fst (search lexical_world example_engine ''email'' ?given) =
          Inr (slice
                 (fst (rerank_stage lexical_world example_engine (trim ''email'') (mergeOptions example_engine ?given)
                         (lexical_results lexical_world (trim ''email'') (mergeOptions example_engine ?given))))
                 0 (result_limit (mergeOptions example_engine ?given)))"
    using search_embedding_failure [OF e, of example_engine ?given] t m by blast
  then have 1: "fst (search lexical_world example_engine ''email'' ?given) =
     Inr [fts5_result 2 (example_node ''A'' None None None None, 0),
      fts5_result 2 (example_node ''B'' None None None None, 1)]"
    by (simp add: o trim_email lexical_results_def example_fts5 rerank_stage_def
        slice_def slice_index_def)
  have 2: "fst (search lexical_world example_engine ''email'' ?given2) = Inr []"
    using search_embedding_failure [OF e, of example_engine ?given2] t m o2 by blast
  show ?thesis using e 2
    by (simp add: 1 fts5_result_def example_node_def)
qed

lemma provider_sorted_lowering: "provider_sorted lowering_world"
  by (auto simp: provider_sorted_def lowering_world_def)

lemma default_options:
  "mergeOptions example_engine no_options
     = \<lparr>options_query = [], result_limit = 20, rrfK = 60, enableReranking = True,
        searchMethods = [FTS5, Vector], includeMetadata = False\<rparr>"
  "mergeOptions small_reranker_engine no_options
     = \<lparr>options_query = [], result_limit = 20, rrfK = 60, enableReranking = True,
        searchMethods = [FTS5, Vector], includeMetadata = False\<rparr>"
  by (simp_all add: mergeOptions_def pick_def no_options_def example_engine_def small_reranker_engine_def)

lemma example_fused:
  "search_and_fuse lexical_world this ''email'' (mergeOptions example_engine no_options) =
     [fts5_result 2 (example_node ''A'' None None None None, 0),
      fts5_result 2 (example_node ''B'' None None None None, 1)]"
proof -
  have "getEmbedding lexical_world ''email'' = Inl (Error ''Failed to process batch'')"
    by (simp add: lexical_world_def)
  then show ?thesis
    by (simp add: search_and_fuse_failure lexical_results_def default_options example_fts5)
qed

text \<open>
  C7 as stated fails for the reranked list with its appended excess, and with it for
  the final list: with a reranker limited to one document, the provider gives the first
  document the relevance 0.3 and the second keeps its former score.
\<close>

theorem reranked_excess_counterexample:
  "provider_sorted lowering_world \<and>
   non_increasing example_documents \<and>
   map relevanceScore
     (fst (rerank lowering_world (new_CohereReranker\<lparr>maxDocuments := 1\<rparr>) ''q'' example_documents
             example_rerank_options)) = [3 / 10, 8 / 10] \<and>
   \<not> non_increasing
     (fst (rerank lowering_world (new_CohereReranker\<lparr>maxDocuments := 1\<rparr>) ''q'' example_documents
             example_rerank_options)) \<and>
   map relevanceScore
     (case fst (search lexical_world small_reranker_engine ''email'' no_options) of
        Inr found \<Rightarrow> found | Inl failure \<Rightarrow> []) = [3 / 10, 1 / 2] \<and>
   \<not> non_increasing
     (case fst (search lexical_world small_reranker_engine ''email'' no_options) of
        Inr found \<Rightarrow> found | Inl failure \<Rightarrow> [])"
proof -
  have r: "fst (rerank lowering_world (new_CohereReranker\<lparr>maxDocuments := 1\<rparr>) ''q'' docs example_rerank_options)
     = rerank_collect [\<lparr>result_index = 0, result_relevanceScore = Some (3 / 10), result_relevance_score = None\<rparr>]
         (take 1 docs) ''q'' [] @ drop 1 docs" if "docs \<noteq> []" "length docs = 2" for docs q
    using that
    by (simp add: rerank_def Let_def trim_q initializeCohere_def new_CohereReranker_def
        lowering_world_def rerankWithRetries_def rerank_attempts.simps processRerankResponse_def
        slice_def slice_from_def slice_index_def)
  have 1: "map relevanceScore
     (fst (rerank lowering_world (new_CohereReranker\<lparr>maxDocuments := 1\<rparr>) ''q'' example_documents
             example_rerank_options)) = [3 / 10, 8 / 10]"
    by (subst r) (simp_all add: example_documents_def example_result_def item_score_def Let_def)
  have "fst (search lexical_world small_reranker_engine ''email'' no_options) =
          Inr (fst (executeSearchPipeline lexical_world small_reranker_engine (trim ''email'')
                 (mergeOptions small_reranker_engine no_options)))"
    by (rule search_on_miss)
       (simp_all add: trim_email cache_miss_def small_reranker_engine_def example_engine_def cache_get_def)
  then have 2: "map relevanceScore
     (case fst (search lexical_world small_reranker_engine ''email'' no_options) of
        Inr found \<Rightarrow> found | Inl failure \<Rightarrow> []) = [3 / 10, 1 / 2]"
    using example_fused [of small_reranker_engine]
    apply (simp add: pipeline_unfold trim_email default_options)
    apply (simp add: rerank_stage_def isAvailable_def initializeCohere_def small_reranker_engine_def
        example_engine_def lexical_world_def lowering_world_def new_CohereReranker_def)
    apply (simp add: rerank_def Let_def trim_email initializeCohere_def 
        rerankWithRetries_def rerank_attempts.simps processRerankResponse_def
        slice_def slice_from_def slice_index_def fts5_result_def item_score_def)
    done
  have 3: "non_increasing example_documents"
    by (simp add: non_increasing_def example_documents_def example_result_def)
  have 4: "\<not> non_increasing
     (fst (rerank lowering_world (new_CohereReranker\<lparr>maxDocuments := 1\<rparr>) ''q'' example_documents
             example_rerank_options))"
  proof
    assume "non_increasing
     (fst (rerank lowering_world (new_CohereReranker\<lparr>maxDocuments := 1\<rparr>) ''q'' example_documents
             example_rerank_options))"
    then have "sorted_wrt (\<lambda>x y. y \<le> x) [3 / 10, 8 / 10 :: real]"
      by (simp only: non_increasing_scores 1)
    then show False by (simp del: sorted_wrt.simps add: sorted_wrt2_simps)
  qed
  have 5: "\<not> non_increasing
     (case fst (search lexical_world small_reranker_engine ''email'' no_options) of
        Inr found \<Rightarrow> found | Inl failure \<Rightarrow> [])"
  proof
    assume "non_increasing
     (case fst (search lexical_world small_reranker_engine ''email'' no_options) of
        Inr found \<Rightarrow> found | Inl failure \<Rightarrow> [])"
    then have "sorted_wrt (\<lambda>x y. y \<le> x) [3 / 10, 1 / 2 :: real]"
      by (simp only: non_increasing_scores 2)
    then show False by (simp del: sorted_wrt.simps add: sorted_wrt2_simps)
  qed
  show ?thesis
    by (intro conjI) (fact provider_sorted_lowering 1 2 3 4 5)+
qed

lemma fuse_example_nonneg: "0 \<le> rrf_k (rrfFusion example_engine)"
  by (simp add: example_engine_def default_RRFFusion_def new_RRFFusion_def)

theorem result_lists_non_increasing_witness:
  "non_increasing (fuseResults default_RRFFusion example_fts5 example_vector) \<and>
   non_increasing (fst (rerank lowering_world new_CohereReranker ''q'' example_documents example_rerank_options)) \<and>
   (\<exists>found. fst (search lexical_world example_engine ''email'' no_options) = Inr found \<and>
      non_increasing found)"
proof -
  have d: "non_increasing example_documents \<and> provider_sorted lowering_world \<and>
           int (length example_documents) \<le> maxDocuments new_CohereReranker"
    using provider_sorted_lowering
    by (simp add: non_increasing_def example_documents_def example_result_def new_CohereReranker_def)
  have c: "cache_non_increasing example_engine"
    by (simp add: cache_non_increasing_def example_engine_def cache_get_def)
  have p: "pipeline_ordered lexical_world example_engine (trim ''email'') (mergeOptions example_engine no_options)"
    using provider_sorted_lowering example_fused [of example_engine]
    by (simp add: pipeline_ordered_def trim_email)
       (simp add: lexical_world_def example_engine_def new_CohereReranker_def)
  have f: "rrfFusion example_engine = default_RRFFusion" by (simp add: example_engine_def)
  show ?thesis
    using result_lists_non_increasing [OF fuse_example_nonneg,
        where A = example_fts5 and B = example_vector and rerank_world = lowering_world
          and reranker = new_CohereReranker and docs = example_documents and q = "''q''"
          and rerank_options = example_rerank_options and world = lexical_world
          and query_text = "''email''" and given = no_options]
      d c p f
    by simp
qed

subsection \<open>Similarity search: the claim\<close>

lemma length_findSimilarNodes:
  "0 \<le> limit options \<Longrightarrow> length (findSimilarNodes db q options) \<le> nat (limit options)"
  by (cases "nodes_table db") (simp_all add: findSimilarNodes_def Let_def slice_take)

lemma length_findSimilarTemplates:
  "0 \<le> limit options \<Longrightarrow> length (findSimilarTemplates db q options) \<le> nat (limit options)"
  by (cases "templates_table db") (simp_all add: findSimilarTemplates_def Let_def slice_take)

text \<open>
  C3, as the code has it. The similarity of a candidate is the double that the code
  computes, each operation rounded. \<^const>\<open>findSimilarNodes\<close> and
  \<^const>\<open>findSimilarTemplates\<close> keep the candidates whose computed similarity reaches the
  threshold, sort them by descending similarity, candidates of equal similarity staying
  in table order, and cut the list to the limit (a non-negative one). The threshold is
  0.5 when the caller supplies none; the orchestrator always supplies 0.2, as a double.
\<close>

theorem findSimilar_characterised:
  assumes "0 \<le> limit options"
  shows
    "(nodes_table db = Some rows \<longrightarrow>
        findSimilarNodes db q options =
          map (node_result (effective_distances options))
            (take (nat (limit options))
               (sort_desc snd
                  (filter (\<lambda>(row, s). effective_threshold options \<le> s) (candidates q rows))))) \<and>
     (templates_table db = Some template_rows \<longrightarrow>
        findSimilarTemplates db q options =
          map (template_result (effective_distances options))
            (take (nat (limit options))
               (sort_desc snd
                  (filter (\<lambda>(row, s). effective_threshold options \<le> s) (candidates q template_rows))))) \<and>
     (length v = length q \<longrightarrow>
        calculateCosineSimilarity_double q v = Inr (Finite (computed_similarity q v))) \<and>
     (\<forall>r \<in> set (findSimilarNodes db q options). effective_threshold options \<le> relevanceScore r) \<and>
     (\<forall>r \<in> set (findSimilarTemplates db q options). effective_threshold options \<le> relevanceScore r) \<and>
     non_increasing (findSimilarNodes db q options) \<and>
     non_increasing (findSimilarTemplates db q options) \<and>
     length (findSimilarNodes db q options) \<le> nat (limit options) \<and>
     length (findSimilarTemplates db q options) \<le> nat (limit options) \<and>
     (threshold options = None \<longrightarrow> effective_threshold options = 1 / 2) \<and>
     (threshold options = Some t \<longrightarrow> effective_threshold options = t) \<and>
     (isVectorStorageReady this \<and> getEmbedding world query_text = Inr query_vector \<longrightarrow>
        executeVectorSearch world this query_text n =
          findSimilarNodes (engine_db this) query_vector
            \<lparr>queryVector = query_vector, limit = n, threshold = Some (double_round (1 / 5)),
             includeDistances = Some True\<rparr>)"
proof (intro conjI impI ballI)
  assume "nodes_table db = Some rows"
  then show "findSimilarNodes db q options =
          map (node_result (effective_distances options))
            (take (nat (limit options))
               (sort_desc snd
                  (filter (\<lambda>(row, s). effective_threshold options \<le> s) (candidates q rows))))"
    using assms by (simp add: findSimilarNodes_unfold slice_take)
next
  assume "templates_table db = Some template_rows"
  then show "findSimilarTemplates db q options =
          map (template_result (effective_distances options))
            (take (nat (limit options))
               (sort_desc snd
                  (filter (\<lambda>(row, s). effective_threshold options \<le> s) (candidates q template_rows))))"
    using assms by (simp add: findSimilarTemplates_unfold slice_take)
next
  assume "length v = length q"
  then show "calculateCosineSimilarity_double q v = Inr (Finite (computed_similarity q v))"
    by (simp add: calculateCosineSimilarity_double_finite)
next
  fix r assume "r \<in> set (findSimilarNodes db q options)"
  then show "effective_threshold options \<le> relevanceScore r" by (rule findSimilarNodes_threshold)
next
  fix r assume "r \<in> set (findSimilarTemplates db q options)"
  then show "effective_threshold options \<le> relevanceScore r" by (rule findSimilarTemplates_threshold)
next
  show "non_increasing (findSimilarNodes db q options)" by (rule findSimilarNodes_non_increasing)
  show "non_increasing (findSimilarTemplates db q options)" by (rule findSimilarTemplates_non_increasing)
  show "length (findSimilarNodes db q options) \<le> nat (limit options)"
    using assms by (rule length_findSimilarNodes)
  show "length (findSimilarTemplates db q options) \<le> nat (limit options)"
    using assms by (rule length_findSimilarTemplates)
next
  assume "threshold options = None"
  then show "effective_threshold options = 1 / 2" by (simp add: effective_threshold_def)
next
  assume "threshold options = Some t"
  then show "effective_threshold options = t" by (simp add: effective_threshold_def)
next
  assume "isVectorStorageReady this \<and> getEmbedding world query_text = Inr query_vector"
  then show "executeVectorSearch world this query_text n =
          findSimilarNodes (engine_db this) query_vector
            \<lparr>queryVector = query_vector, limit = n, threshold = Some (double_round (1 / 5)),
             includeDistances = Some True\<rparr>"
    by (simp add: executeVectorSearch_def)
qed

subsection \<open>Similarity search: examples\<close>

lemma sqrt_16: "sqrt 16 = 4"
proof -
  have "sqrt 16 = sqrt (4\<^sup>2)" by simp
  then show ?thesis by (simp only: real_sqrt_abs abs_numeral)
qed

lemmas upt_5 = upt_rec [of 0] upt_rec [of 1] upt_rec [of 2] upt_rec [of 3] upt_rec [of 4]
  upt_rec [of 5]

lemmas cosine_double_eval =
  computed_similarity_def calculateCosineSimilarity_double_def cosine_step_double_def
  js_divide_double_def isNaN_def Let_def double_round_exact sqrt_16 upt_5

lemma similarity_A: "computed_similarity [1, 0, 0, 0, 0] [0, 1, 0, 0, 0] = 0"
  by (simp add: cosine_double_eval)

lemma similarity_B: "computed_similarity [1, 0, 0, 0, 0] [1, 1, 1, 1, 0] = 1 / 2"
  by (simp add: cosine_double_eval)

lemma similarity_C: "computed_similarity [1, 0, 0, 0, 0] [1, 0, 0, 0, 0] = 1"
  by (simp add: cosine_double_eval)

lemma similarity_D: "computed_similarity [1, 0, 0, 0, 0] [1, 3, 2, 1, 1] = 1 / 4"
  by (simp add: cosine_double_eval)

lemma similarity_E: "computed_similarity [1, 0, 0, 0, 0] [1, 1, 0, 1, 1] = 1 / 2"
  by (simp add: cosine_double_eval)

text \<open>
  A vector whose exact cosine to the query is 1/2: the product of the two rounded
  square roots of 2 is rounded to \<open>2 + 2\<^sup>-\<^sup>5\<^sup>1\<close>, and the computed similarity is the
  double just below 1/2.
\<close>

lemma p54: "2 powr (- 54) = (1 / 2 ^ 54 :: real)"
  by (simp add: powr_minus_divide powr_numeral)

lemma double_sqrt_2: "double_round (sqrt 2) = 6369051672525773 / 2 ^ 52"
proof -
  have lo: "((6369051672525772 :: real) + 1 / 2) / 2 ^ 52 < sqrt 2"
    by (rule real_less_rsqrt) (simp add: power2_eq_square)
  have hi: "sqrt 2 < (6369051672525773 :: real) / 2 ^ 52"
    by (rule real_less_lsqrt) (simp_all add: power2_eq_square)
  have "round_half_even (sqrt 2 / 2 powr of_int (0 - 52)) = 6369051672525772 + 1"
  proof (rule round_half_even_up)
    show "of_int 6369051672525772 + 1 / 2 < sqrt 2 / 2 powr of_int (0 - 52)"
      using lo by (simp add: p52 field_simps)
    show "sqrt 2 / 2 powr of_int (0 - 52) < of_int 6369051672525772 + 1"
      using hi by (simp add: p52 field_simps)
  qed
  moreover have "1 \<le> sqrt 2" by simp
  moreover have "sqrt 2 < 2"
    by (rule real_less_lsqrt) simp_all
  ultimately show ?thesis
    using double_round_binade [of "sqrt 2" 0 "6369051672525772 + 1"] by (simp add: p52)
qed

lemma double_square_2:
  "double_round (6369051672525773 / 2 ^ 52 * (6369051672525773 / 2 ^ 52)) = 4503599627370497 / 2 ^ 51"
proof -
  let ?x = "6369051672525773 / 2 ^ 52 * (6369051672525773 / 2 ^ 52) :: real"
  have "round_half_even (?x / 2 powr of_int (1 - 52)) = 4503599627370496 + 1"
    by (rule round_half_even_up) (simp_all add: p51)
  moreover have "0 < ?x" "2 powr of_int 1 \<le> ?x" "?x < 2 powr (of_int 1 + 1)"
    by simp_all
  ultimately show ?thesis
    using double_round_binade [of ?x 1 "4503599627370496 + 1"] by (simp add: p51)
qed

lemma double_quotient_2:
  "double_round (1 / (4503599627370497 / 2 ^ 51)) = 9007199254740990 / 2 ^ 54"
proof -
  let ?x = "1 / (4503599627370497 / 2 ^ 51) :: real"
  have "round_half_even (?x / 2 powr of_int (- 2 - 52)) = 9007199254740990"
    by (rule round_half_even_down) (simp_all add: p54)
  moreover have "0 < ?x" "2 powr of_int (- 2) \<le> ?x" "?x < 2 powr (of_int (- 2) + 1)"
    by (simp_all add: powr_minus_divide powr_numeral)
  ultimately show ?thesis
    using double_round_binade [of ?x "- 2" 9007199254740990] by (simp add: p54)
qed

lemma similarity_R:
  "calculateCosineSimilarity_double [0, 1, 1] [1, 0, 1] = Inr (Finite (9007199254740990 / 2 ^ 54))"
proof -
  have fold: "foldl (cosine_step_double [0, 1, 1] [1, 0, 1]) (0, 0, 0) [0..<length [0, 1, 1 :: real]]
                = (1, 2, 2)"
    by (simp add: cosine_step_double_def double_round_exact upt_5)
  define x where "x = double_round (double_round (sqrt 2) * double_round (sqrt 2))"
  have xv: "x = 4503599627370497 / 2 ^ 51"
    unfolding x_def by (simp only: double_sqrt_2 double_square_2)
  have q: "double_round (1 / x) = 9007199254740990 / 2 ^ 54"
    unfolding xv by (rule double_quotient_2)
  have ne: "x \<noteq> 0" unfolding xv by simp
  show ?thesis
    unfolding calculateCosineSimilarity_double_def fold
    by (simp add: x_def [symmetric] js_divide_double_def isNaN_def q ne Let_def)
qed

lemma computed_similarity_R: "computed_similarity [0, 1, 1] [1, 0, 1] = 9007199254740990 / 2 ^ 54"
  by (simp add: computed_similarity_def similarity_R)

text \<open>
  Two vectors parallel to the query \<open>[1, 1]\<close>: the computed similarity of \<open>[1, 1]\<close> is the
  double just below 1, that of \<open>[3, 3]\<close> is 1, the product of the rounded square roots
  of 2 and of 18 being rounded to 6.
\<close>

lemma p50: "2 powr (- 50) = (1 / 2 ^ 50 :: real)"
  by (simp add: powr_minus_divide powr_numeral)

lemma p53: "2 powr (- 53) = (1 / 2 ^ 53 :: real)"
  by (simp add: powr_minus_divide powr_numeral)

lemma double_sqrt_18: "double_round (sqrt 18) = 4776788754394329 / 2 ^ 50"
proof -
  have lo: "(4776788754394329 :: real) / 2 ^ 50 \<le> sqrt 18"
    by (rule real_le_rsqrt) (simp add: power2_eq_square)
  have hi: "sqrt 18 < ((4776788754394329 :: real) + 1 / 2) / 2 ^ 50"
    by (rule real_less_lsqrt) (simp_all add: power2_eq_square)
  have "round_half_even (sqrt 18 / 2 powr of_int (2 - 52)) = 4776788754394329"
  proof (rule round_half_even_down)
    show "of_int 4776788754394329 \<le> sqrt 18 / 2 powr of_int (2 - 52)"
      using lo by (simp add: p50 field_simps)
    show "sqrt 18 / 2 powr of_int (2 - 52) < of_int 4776788754394329 + 1 / 2"
      using hi by (simp add: p50 field_simps)
  qed
  moreover have "4 \<le> sqrt 18"
    by (rule real_le_rsqrt) simp
  moreover have "sqrt 18 < 8"
    by (rule real_less_lsqrt) simp_all
  ultimately show ?thesis
    using double_round_binade [of "sqrt 18" 2 4776788754394329] by (simp add: p50 powr_numeral)
qed

lemma double_product_2_18:
  "double_round (6369051672525773 / 2 ^ 52 * (4776788754394329 / 2 ^ 50)) = 6"
proof -
  let ?x = "6369051672525773 / 2 ^ 52 * (4776788754394329 / 2 ^ 50) :: real"
  have "round_half_even (?x / 2 powr of_int (2 - 52)) = 6755399441055743 + 1"
    by (rule round_half_even_up) (simp_all add: p50)
  moreover have "0 < ?x" "2 powr of_int 2 \<le> ?x" "?x < 2 powr (of_int 2 + 1)"
    by (simp_all add: powr_numeral)
  ultimately show ?thesis
    using double_round_binade [of ?x 2 "6755399441055743 + 1"] by (simp add: p50)
qed

lemma double_quotient_parallel:
  "double_round (2 / (4503599627370497 / 2 ^ 51)) = 9007199254740990 / 2 ^ 53"
proof -
  let ?x = "2 / (4503599627370497 / 2 ^ 51) :: real"
  have "round_half_even (?x / 2 powr of_int (- 1 - 52)) = 9007199254740990"
    by (rule round_half_even_down) (simp_all add: p53)
  moreover have "0 < ?x" "2 powr of_int (- 1) \<le> ?x" "?x < 2 powr (of_int (- 1) + 1)"
    by (simp_all add: powr_minus_divide)
  ultimately show ?thesis
    using double_round_binade [of ?x "- 1" 9007199254740990] by (simp add: p53)
qed

lemma computed_similarity_parallel_1:
  "computed_similarity [1, 1] [1, 1] = 9007199254740990 / 2 ^ 53"
proof -
  have fold: "foldl (cosine_step_double [1, 1] [1, 1]) (0, 0, 0) [0..<length [1, 1 :: real]]
                = (2, 2, 2)"
    by (simp add: cosine_step_double_def double_round_exact upt_5)
  define x where "x = double_round (double_round (sqrt 2) * double_round (sqrt 2))"
  have xv: "x = 4503599627370497 / 2 ^ 51"
    unfolding x_def by (simp only: double_sqrt_2 double_square_2)
  have q: "double_round (2 / x) = 9007199254740990 / 2 ^ 53"
    unfolding xv by (rule double_quotient_parallel)
  have ne: "x \<noteq> 0" unfolding xv by simp
  have "calculateCosineSimilarity_double [1, 1] [1, 1] = Inr (Finite (9007199254740990 / 2 ^ 53))"
    unfolding calculateCosineSimilarity_double_def fold
    by (simp add: x_def [symmetric] js_divide_double_def isNaN_def q ne Let_def)
  then show ?thesis by (simp add: computed_similarity_def)
qed

lemma computed_similarity_parallel_3: "computed_similarity [1, 1] [3, 3] = 1"
proof -
  have fold: "foldl (cosine_step_double [1, 1] [3, 3]) (0, 0, 0) [0..<length [1, 1 :: real]]
                = (6, 2, 18)"
    by (simp add: cosine_step_double_def double_round_exact upt_5)
  define x where "x = double_round (double_round (sqrt 2) * double_round (sqrt 18))"
  have xv: "x = 6"
    unfolding x_def by (simp only: double_sqrt_2 double_sqrt_18 double_product_2_18)
  have "calculateCosineSimilarity_double [1, 1] [3, 3] = Inr (Finite 1)"
    unfolding calculateCosineSimilarity_double_def fold
    by (simp add: x_def [symmetric] xv js_divide_double_def isNaN_def double_round_exact Let_def)
  then show ?thesis by (simp add: computed_similarity_def)
qed

lemma embedding_vector_similarity_node: "embedding_vector (similarity_node name vec) = vec"
  by (simp add: similarity_node_def example_node_def)

lemma candidates_similarity_db:
  "nodes_table similarity_db = Some rows \<Longrightarrow>
   candidates similarity_query rows =
     [(similarity_node ''A'' (Some [0, 1, 0, 0, 0]), 0),
      (similarity_node ''B'' (Some [1, 1, 1, 1, 0]), 1 / 2),
      (similarity_node ''C'' (Some [1, 0, 0, 0, 0]), 1),
      (similarity_node ''D'' (Some [1, 3, 2, 1, 1]), 1 / 4),
      (similarity_node ''E'' (Some [1, 1, 0, 1, 1]), 1 / 2)]"
  by (auto simp: similarity_db_def candidates_def with_embeddings_def List.map_filter_def
      embedding_vector_similarity_node similarity_query_def
      similarity_A similarity_B similarity_C similarity_D similarity_E)

lemma candidates_example_vector_db:
  "nodes_table example_vector_db = Some rows \<Longrightarrow>
   candidates similarity_query rows = [(similarity_node ''D'' (Some [1, 3, 2, 1, 1]), 1 / 4)]"
  by (auto simp: example_vector_db_def candidates_def with_embeddings_def List.map_filter_def
      embedding_vector_similarity_node similarity_query_def similarity_D)

lemma candidates_rounded_db:
  "nodes_table rounded_db = Some rows \<Longrightarrow>
   candidates [0, 1, 1] rows = [(similarity_node ''R'' (Some [1, 0, 1]), 9007199254740990 / 2 ^ 54)]"
  by (auto simp: rounded_db_def candidates_def with_embeddings_def List.map_filter_def
      embedding_vector_similarity_node computed_similarity_R)

lemma candidates_ordering_db:
  "nodes_table ordering_db = Some rows \<Longrightarrow>
   candidates [1, 1] rows =
     [(similarity_node ''A'' (Some [1, 1]), 9007199254740990 / 2 ^ 53),
      (similarity_node ''B'' (Some [3, 3]), 1)]"
  by (auto simp: ordering_db_def candidates_def with_embeddings_def List.map_filter_def
      embedding_vector_similarity_node computed_similarity_parallel_1
      computed_similarity_parallel_3)

lemma node_result_similarity_node:
  "(\<lambda>r. (nodeType r, relevanceScore r)) (node_result i (similarity_node name vec, s)) = (name, s)"
  by (simp add: node_result_def similarity_node_def example_node_def)

text \<open>
  C3 as stated has a default threshold of 0.2; with no threshold supplied the code
  discards a candidate of similarity 0.25.
\<close>

theorem findSimilar_default_threshold_counterexample:
  "calculateCosineSimilarity_double similarity_query [1, 3, 2, 1, 1] = Inr (Finite (1 / 4)) \<and>
   \<not> (1 / 4 < (0.2 :: real)) \<and>
   threshold (example_vector_options similarity_query 10 None) = None \<and>
   findSimilarNodes example_vector_db similarity_query
     (example_vector_options similarity_query 10 None) = []"
proof -
  have "calculateCosineSimilarity_double similarity_query [1, 3, 2, 1, 1] = Inr (Finite (1 / 4))"
    using calculateCosineSimilarity_double_finite [of similarity_query "[1, 3, 2, 1, 1]"] similarity_D
    by (simp add: similarity_query_def)
  moreover obtain rows where n: "nodes_table example_vector_db = Some rows"
    by (simp add: example_vector_db_def)
  have "findSimilarNodes example_vector_db similarity_query
     (example_vector_options similarity_query 10 None) = []"
    by (simp add: findSimilarNodes_unfold [OF n] candidates_example_vector_db [OF n]
        effective_threshold_def example_vector_options_def sort_desc_def slice_def)
  ultimately show ?thesis by (simp add: example_vector_options_def)
qed

theorem findSimilar_characterised_witness:
  "map (\<lambda>r. (nodeType r, relevanceScore r))
     (findSimilarNodes similarity_db similarity_query (example_vector_options similarity_query 2 None))
     = [(''C'', 1), (''B'', 1 / 2)] \<and>
   map (\<lambda>r. (nodeType r, relevanceScore r))
     (findSimilarNodes similarity_db similarity_query
        (example_vector_options similarity_query 10 (Some (1 / 5))))
     = [(''C'', 1), (''B'', 1 / 2), (''E'', 1 / 2), (''D'', 1 / 4)] \<and>
   calculateCosineSimilarity_double [0, 1, 1] [1, 0, 1] = Inr (Finite (9007199254740990 / 2 ^ 54)) \<and>
   (9007199254740990 / 2 ^ 54 :: real) < 1 / 2 \<and>
   findSimilarNodes rounded_db [0, 1, 1] (example_vector_options [0, 1, 1] 10 None) = [] \<and>
   map (\<lambda>r. (nodeType r, relevanceScore r))
     (findSimilarNodes ordering_db [1, 1] (example_vector_options [1, 1] 1 None)) = [(''B'', 1)]"
proof -
  obtain rows where n: "nodes_table similarity_db = Some rows"
    by (simp add: similarity_db_def)
  obtain rounded_rows where r: "nodes_table rounded_db = Some rounded_rows"
    by (simp add: rounded_db_def)
  have l: "0 \<le> limit (example_vector_options q m t)" if "0 \<le> m" for q m t
    using that by (simp add: example_vector_options_def)
  have e: "effective_threshold (example_vector_options q m (Some (1 / 5))) = 1 / 5"
    "effective_threshold (example_vector_options q m None) = 1 / 2"
    "limit (example_vector_options q m t) = m" for q m t
    by (simp_all add: effective_threshold_def example_vector_options_def)
  have 1: "findSimilarNodes similarity_db similarity_query (example_vector_options similarity_query 2 None) =
      map (node_result (effective_distances (example_vector_options similarity_query 2 None)))
        [(similarity_node ''C'' (Some [1, 0, 0, 0, 0]), 1),
         (similarity_node ''B'' (Some [1, 1, 1, 1, 0]), 1 / 2)]"
    using findSimilar_characterised [OF l [of 2 similarity_query None], where db = similarity_db
        and rows = rows and q = similarity_query, THEN conjunct1] n
    by (simp add: candidates_similarity_db [OF n] e sort_desc_def)
  have 2: "findSimilarNodes similarity_db similarity_query
        (example_vector_options similarity_query 10 (Some (1 / 5))) =
      map (node_result (effective_distances (example_vector_options similarity_query 10 (Some (1 / 5)))))
        [(similarity_node ''C'' (Some [1, 0, 0, 0, 0]), 1),
         (similarity_node ''B'' (Some [1, 1, 1, 1, 0]), 1 / 2),
         (similarity_node ''E'' (Some [1, 1, 0, 1, 1]), 1 / 2),
         (similarity_node ''D'' (Some [1, 3, 2, 1, 1]), 1 / 4)]"
    using findSimilar_characterised [OF l [of 10 similarity_query "Some (1 / 5)"], where db = similarity_db
        and rows = rows and q = similarity_query, THEN conjunct1] n
    by (simp add: candidates_similarity_db [OF n] e sort_desc_def)
  have 3: "calculateCosineSimilarity_double [0, 1, 1] [1, 0, 1] = Inr (Finite (9007199254740990 / 2 ^ 54))"
    using findSimilar_characterised [OF l [of 10 "[0, 1, 1]" None], where q = "[0, 1, 1]"
        and v = "[1, 0, 1]", THEN conjunct2, THEN conjunct2, THEN conjunct1]
    by (simp add: computed_similarity_R)
  have 4: "findSimilarNodes rounded_db [0, 1, 1] (example_vector_options [0, 1, 1] 10 None) = []"
    using findSimilar_characterised [OF l [of 10 "[0, 1, 1]" None], where db = rounded_db
        and rows = rounded_rows and q = "[0, 1, 1]", THEN conjunct1] r
    by (simp add: candidates_rounded_db [OF r] e sort_desc_def)
  obtain ordering_rows where o: "nodes_table ordering_db = Some ordering_rows"
    by (simp add: ordering_db_def)
  have 5: "findSimilarNodes ordering_db [1, 1] (example_vector_options [1, 1] 1 None) =
      map (node_result (effective_distances (example_vector_options [1, 1] 1 None)))
        [(similarity_node ''B'' (Some [3, 3]), 1)]"
    using findSimilar_characterised [OF l [of 1 "[1, 1]" None], where db = ordering_db
        and rows = ordering_rows and q = "[1, 1]", THEN conjunct1] o
    by (simp add: candidates_ordering_db [OF o] e sort_desc_def)
  show ?thesis
    by (simp add: 1 2 3 4 5 node_result_similarity_node [simplified])
qed

subsection \<open>Entities that need an embedding\<close>

lemma needs_embedding_iff:
  "needs_embedding row \<longleftrightarrow>
     embedding_vector row = None \<or> embedding_content_hash row = None \<or> older_than_update row"
  by (auto simp: needs_embedding_def sql_less_def older_than_update_def split: option.splits)

lemma needs_embedding_after_save:
  assumes "updated_at row = None \<or> (\<exists>u. updated_at row = Some u \<and> u \<le> now)"
  shows "\<not> needs_embedding (set_embedding embedding new_hash model now row)"
  using assms
  by (auto simp: needs_embedding_def sql_less_def set_embedding_def)

lemma node_type_set_embedding [simp]:
  "node_type (set_embedding embedding new_hash model now row) = node_type row"
  by (simp add: set_embedding_def)

lemma template_id_set_embedding [simp]:
  "template_id (set_embedding embedding new_hash model now row) = template_id row"
  by (simp add: set_embedding_def)

lemma map_throwing_Inr:
  "map_throwing f xs = Inr ys \<longleftrightarrow> list_all2 (\<lambda>x y. f x = Inr y) xs ys"
proof (induction xs arbitrary: ys)
  case Nil
  then show ?case by auto
next
  case (Cons x xs)
  show ?case
  proof (cases "f x")
    case (Inl failure)
    then show ?thesis by (auto simp: list_all2_Cons1)
  next
    case (Inr y)
    then show ?thesis using Cons.IH
      by (cases "map_throwing f xs") (auto simp: list_all2_Cons1)
  qed
qed

lemma map_throwing_total:
  assumes "\<forall>x \<in> set xs. \<exists>y. f x = Inr y"
  shows "\<exists>ys. map_throwing f xs = Inr ys"
  using assms by (induction xs) auto

lemma zip_prepared:
  assumes "list_all2 (\<lambda>x y. f x = Inr y) xs ys"
  shows "(x, y) \<in> set (zip xs ys) \<longleftrightarrow> x \<in> set xs \<and> f x = Inr y"
proof
  assume m: "(x, y) \<in> set (zip xs ys)"
  then have "f x = Inr y"
    using assms by (auto simp: list_all2_iff)
  then show "x \<in> set xs \<and> f x = Inr y"
    using m by (auto dest: set_zip_leftD)
next
  assume h: "x \<in> set xs \<and> f x = Inr y"
  then obtain i where i: "i < length xs" "xs ! i = x"
    by (auto simp: in_set_conv_nth)
  have len: "length xs = length ys" using assms by (rule list_all2_lengthD)
  have "f (xs ! i) = Inr (ys ! i)"
    using assms i(1) by (auto simp: list_all2_conv_all_nth)
  then have "ys ! i = y" using h i(2) by simp
  then show "(x, y) \<in> set (zip xs ys)"
    using i len by (auto simp: in_set_zip)
qed

lemma changed_entries_iff:
  "(row, prepared) \<in> set (changed_entries forceRegenerate entries) \<longleftrightarrow>
     (row, prepared) \<in> set entries \<and>
     (forceRegenerate \<or> embedding_content_hash row \<noteq> Some (contentHash prepared))"
  by (auto simp: changed_entries_def)

lemma contentHash_prepared:
  assumes "prepareEmbeddingContent lib entity = Inr prepared"
  shows "contentHash prepared = sha256_hex lib (content prepared)"
  using assms
  by (auto simp: prepareEmbeddingContent_def Let_def split: sum.splits if_splits)

lemma saved_node_not_reported:
  assumes "nodes_table db = Some rows"
    and "\<forall>r \<in> set rows. node_type r = key \<longrightarrow>
           updated_at r = None \<or> (\<exists>u. updated_at r = Some u \<and> u \<le> now)"
  shows "\<exists>db' reported. saveEmbedding db now key embedding new_hash model = Inr db' \<and>
           getNodesNeedingEmbeddings db' = Inr reported \<and>
           (\<forall>r \<in> set reported. node_type r \<noteq> key)"
proof -
  let ?rows' = "map (\<lambda>row. if node_type row = key
                             then set_embedding embedding new_hash model now row
                             else row) rows"
  let ?db' = "db\<lparr>nodes_table := Some ?rows'\<rparr>"
  have s: "saveEmbedding db now key embedding new_hash model = Inr ?db'"
    using assms(1) by (simp add: saveEmbedding_def)
  have g: "getNodesNeedingEmbeddings ?db' = Inr (filter needs_embedding ?rows')"
    by (simp add: getNodesNeedingEmbeddings_def)
  have "\<forall>r \<in> set (filter needs_embedding ?rows'). node_type r \<noteq> key"
  proof
    fix r assume "r \<in> set (filter needs_embedding ?rows')"
    then obtain r0 where r0: "r0 \<in> set rows"
      and r: "r = (if node_type r0 = key then set_embedding embedding new_hash model now r0 else r0)"
      and n: "needs_embedding r"
      by auto
    show "node_type r \<noteq> key"
    proof
      assume k: "node_type r = key"
      then have k0: "node_type r0 = key" using r by (auto split: if_splits)
      then have "\<not> needs_embedding (set_embedding embedding new_hash model now r0)"
        using assms(2) r0 by (intro needs_embedding_after_save) blast
      then show False using n r k0 by simp
    qed
  qed
  then show ?thesis using s g by blast
qed

lemma saved_template_not_reported:
  assumes "templates_table db = Some rows"
    and "\<forall>r \<in> set rows. template_id r = key \<longrightarrow>
           updated_at r = None \<or> (\<exists>u. updated_at r = Some u \<and> u \<le> now)"
  shows "\<exists>db' reported. saveTemplateEmbedding db now key embedding new_hash model = Inr db' \<and>
           getTemplatesNeedingEmbeddings db' = Inr reported \<and>
           (\<forall>r \<in> set reported. template_id r \<noteq> key)"
proof -
  let ?rows' = "map (\<lambda>row. if template_id row = key
                             then set_embedding embedding new_hash model now row
                             else row) rows"
  let ?db' = "db\<lparr>templates_table := Some ?rows'\<rparr>"
  have s: "saveTemplateEmbedding db now key embedding new_hash model = Inr ?db'"
    using assms(1) by (simp add: saveTemplateEmbedding_def)
  have g: "getTemplatesNeedingEmbeddings ?db' = Inr (filter needs_embedding ?rows')"
    by (simp add: getTemplatesNeedingEmbeddings_def)
  have "\<forall>r \<in> set (filter needs_embedding ?rows'). template_id r \<noteq> key"
  proof
    fix r assume "r \<in> set (filter needs_embedding ?rows')"
    then obtain r0 where r0: "r0 \<in> set rows"
      and r: "r = (if template_id r0 = key then set_embedding embedding new_hash model now r0 else r0)"
      and n: "needs_embedding r"
      by auto
    show "template_id r \<noteq> key"
    proof
      assume k: "template_id r = key"
      then have k0: "template_id r0 = key" using r by (auto split: if_splits)
      then have "\<not> needs_embedding (set_embedding embedding new_hash model now r0)"
        using assms(2) r0 by (intro needs_embedding_after_save) blast
      then show False using n r k0 by simp
    qed
  qed
  then show ?thesis using s g by blast
qed

lemma nodesToSave_iff:
  assumes "nodesToSave lib forceRegenerate batch = Inr kept"
  shows "(node, prepared) \<in> set kept \<longleftrightarrow>
           node \<in> set batch \<and> prepareEmbeddingContent lib (Inl node) = Inr prepared \<and>
           (forceRegenerate \<or> embedding_content_hash node \<noteq> Some (contentHash prepared))"
proof -
  from assms obtain contents
    where c: "map_throwing (\<lambda>node. prepareEmbeddingContent lib (Inl node)) batch = Inr contents"
      and k: "kept = changed_entries forceRegenerate (zip batch contents)"
    by (auto simp: nodesToSave_def split: sum.splits)
  have "list_all2 (\<lambda>x y. prepareEmbeddingContent lib (Inl x) = Inr y) batch contents"
    using c by (simp add: map_throwing_Inr)
  then show ?thesis
    unfolding k changed_entries_iff
    by (simp add: zip_prepared [where f = "\<lambda>node. prepareEmbeddingContent lib (Inl node)"])
qed

lemma templatesToSave_iff:
  assumes "templatesToSave lib forceRegenerate batch = Inr kept"
  shows "(template, prepared) \<in> set kept \<longleftrightarrow>
           template \<in> set batch \<and> prepareEmbeddingContent lib (Inr template) = Inr prepared \<and>
           (forceRegenerate \<or> embedding_content_hash template \<noteq> Some (contentHash prepared))"
proof -
  from assms obtain contents
    where c: "map_throwing (\<lambda>template. prepareEmbeddingContent lib (Inr template)) batch = Inr contents"
      and k: "kept = changed_entries forceRegenerate (zip batch contents)"
    by (auto simp: templatesToSave_def split: sum.splits)
  have "list_all2 (\<lambda>x y. prepareEmbeddingContent lib (Inr x) = Inr y) batch contents"
    using c by (simp add: map_throwing_Inr)
  then show ?thesis
    unfolding k changed_entries_iff
    by (simp add: zip_prepared [where f = "\<lambda>template. prepareEmbeddingContent lib (Inr template)"])
qed

text \<open>
  C2, as the code has it. The two queries report an entity exactly when its vector is
  missing, its stored hash is missing, or its embedding was generated before the row
  was last updated; the hash of the current text is not looked at, and a missing table
  raises. Once an embedding is saved at a time not before the row's last update, the
  entity is no longer reported. Of a batch of reported entities the generation script
  keeps for a new embedding those whose stored hash is not the hash of their searchable
  text, and all of them when regeneration is forced.
\<close>

theorem needing_embeddings_characterised:
  "(nodes_table db = Some rows \<longrightarrow>
      getNodesNeedingEmbeddings db =
        Inr (filter (\<lambda>row. embedding_vector row = None \<or> embedding_content_hash row = None \<or>
                           older_than_update row) rows)) \<and>
   (templates_table db = Some template_rows \<longrightarrow>
      getTemplatesNeedingEmbeddings db =
        Inr (filter (\<lambda>row. embedding_vector row = None \<or> embedding_content_hash row = None \<or>
                           older_than_update row) template_rows)) \<and>
   (nodes_table db = None \<longrightarrow> (\<exists>failure. getNodesNeedingEmbeddings db = Inl failure)) \<and>
   (templates_table db = None \<longrightarrow> (\<exists>failure. getTemplatesNeedingEmbeddings db = Inl failure)) \<and>
   (nodes_table db = Some rows \<and>
    (\<forall>r \<in> set rows. node_type r = key \<longrightarrow>
       updated_at r = None \<or> (\<exists>u. updated_at r = Some u \<and> u \<le> now)) \<longrightarrow>
      (\<exists>db' reported. saveEmbedding db now key embedding new_hash model = Inr db' \<and>
         getNodesNeedingEmbeddings db' = Inr reported \<and>
         (\<forall>r \<in> set reported. node_type r \<noteq> key))) \<and>
   (templates_table db = Some template_rows \<and>
    (\<forall>r \<in> set template_rows. template_id r = template_key \<longrightarrow>
       updated_at r = None \<or> (\<exists>u. updated_at r = Some u \<and> u \<le> now)) \<longrightarrow>
      (\<exists>db' reported. saveTemplateEmbedding db now template_key embedding new_hash model = Inr db' \<and>
         getTemplatesNeedingEmbeddings db' = Inr reported \<and>
         (\<forall>r \<in> set reported. template_id r \<noteq> template_key))) \<and>
   (nodesToSave lib forceRegenerate batch = Inr kept \<longrightarrow>
      ((node, prepared) \<in> set kept \<longleftrightarrow>
         node \<in> set batch \<and> prepareEmbeddingContent lib (Inl node) = Inr prepared \<and>
         (forceRegenerate \<or> embedding_content_hash node \<noteq> Some (contentHash prepared)))) \<and>
   (templatesToSave lib forceRegenerate template_batch = Inr kept_templates \<longrightarrow>
      ((template, prepared_template) \<in> set kept_templates \<longleftrightarrow>
         template \<in> set template_batch \<and>
         prepareEmbeddingContent lib (Inr template) = Inr prepared_template \<and>
         (forceRegenerate \<or>
          embedding_content_hash template \<noteq> Some (contentHash prepared_template)))) \<and>
   ((\<forall>n \<in> set batch. \<exists>p. prepareEmbeddingContent lib (Inl n) = Inr p) \<longrightarrow>
      (\<exists>kept'. nodesToSave lib forceRegenerate batch = Inr kept')) \<and>
   ((\<forall>t \<in> set template_batch. \<exists>p. prepareEmbeddingContent lib (Inr t) = Inr p) \<longrightarrow>
      (\<exists>kept'. templatesToSave lib forceRegenerate template_batch = Inr kept')) \<and>
   (prepareEmbeddingContent lib entity = Inr current \<longrightarrow>
      contentHash current = sha256_hex lib (content current))"
proof (intro conjI impI)
  assume "nodes_table db = Some rows"
  then show "getNodesNeedingEmbeddings db =
        Inr (filter (\<lambda>row. embedding_vector row = None \<or> embedding_content_hash row = None \<or>
                           older_than_update row) rows)"
    by (simp add: getNodesNeedingEmbeddings_def needs_embedding_iff [abs_def])
next
  assume "templates_table db = Some template_rows"
  then show "getTemplatesNeedingEmbeddings db =
        Inr (filter (\<lambda>row. embedding_vector row = None \<or> embedding_content_hash row = None \<or>
                           older_than_update row) template_rows)"
    by (simp add: getTemplatesNeedingEmbeddings_def needs_embedding_iff [abs_def])
next
  assume "nodes_table db = None"
  then show "\<exists>failure. getNodesNeedingEmbeddings db = Inl failure"
    by (simp add: getNodesNeedingEmbeddings_def)
next
  assume "templates_table db = None"
  then show "\<exists>failure. getTemplatesNeedingEmbeddings db = Inl failure"
    by (simp add: getTemplatesNeedingEmbeddings_def)
next
  assume "nodes_table db = Some rows \<and>
    (\<forall>r \<in> set rows. node_type r = key \<longrightarrow>
       updated_at r = None \<or> (\<exists>u. updated_at r = Some u \<and> u \<le> now))"
  then show "\<exists>db' reported. saveEmbedding db now key embedding new_hash model = Inr db' \<and>
         getNodesNeedingEmbeddings db' = Inr reported \<and>
         (\<forall>r \<in> set reported. node_type r \<noteq> key)"
    by (intro saved_node_not_reported) blast+
next
  assume "templates_table db = Some template_rows \<and>
    (\<forall>r \<in> set template_rows. template_id r = template_key \<longrightarrow>
       updated_at r = None \<or> (\<exists>u. updated_at r = Some u \<and> u \<le> now))"
  then show "\<exists>db' reported. saveTemplateEmbedding db now template_key embedding new_hash model = Inr db' \<and>
         getTemplatesNeedingEmbeddings db' = Inr reported \<and>
         (\<forall>r \<in> set reported. template_id r \<noteq> template_key)"
    by (intro saved_template_not_reported) blast+
next
  assume "nodesToSave lib forceRegenerate batch = Inr kept"
  then show "(node, prepared) \<in> set kept \<longleftrightarrow>
         node \<in> set batch \<and> prepareEmbeddingContent lib (Inl node) = Inr prepared \<and>
         (forceRegenerate \<or> embedding_content_hash node \<noteq> Some (contentHash prepared))"
    by (rule nodesToSave_iff)
next
  assume "templatesToSave lib forceRegenerate template_batch = Inr kept_templates"
  then show "(template, prepared_template) \<in> set kept_templates \<longleftrightarrow>
         template \<in> set template_batch \<and>
         prepareEmbeddingContent lib (Inr template) = Inr prepared_template \<and>
         (forceRegenerate \<or>
          embedding_content_hash template \<noteq> Some (contentHash prepared_template))"
    by (rule templatesToSave_iff)
next
  assume "\<forall>n \<in> set batch. \<exists>p. prepareEmbeddingContent lib (Inl n) = Inr p"
  then obtain contents
    where "map_throwing (\<lambda>node. prepareEmbeddingContent lib (Inl node)) batch = Inr contents"
    using map_throwing_total [of batch "\<lambda>node. prepareEmbeddingContent lib (Inl node)"] by blast
  then show "\<exists>kept'. nodesToSave lib forceRegenerate batch = Inr kept'"
    by (simp add: nodesToSave_def)
next
  assume "\<forall>t \<in> set template_batch. \<exists>p. prepareEmbeddingContent lib (Inr t) = Inr p"
  then obtain contents
    where "map_throwing (\<lambda>template. prepareEmbeddingContent lib (Inr template)) template_batch = Inr contents"
    using map_throwing_total [of template_batch "\<lambda>template. prepareEmbeddingContent lib (Inr template)"]
    by blast
  then show "\<exists>kept'. templatesToSave lib forceRegenerate template_batch = Inr kept'"
    by (simp add: templatesToSave_def)
next
  assume "prepareEmbeddingContent lib entity = Inr current"
  then show "contentHash current = sha256_hex lib (content current)"
    by (rule contentHash_prepared)
qed

subsection \<open>Entities that need an embedding: examples\<close>

lemma example_node_fields:
  "embedding_vector (example_node name vec hash generated updated) = vec"
  "embedding_content_hash (example_node name vec hash generated updated) = hash"
  "embedding_generated_at (example_node name vec hash generated updated) = generated"
  "updated_at (example_node name vec hash generated updated) = updated"
  "node_type (example_node name vec hash generated updated) = name"
  by (simp_all add: example_node_def)

lemma older_than_update_example:
  "older_than_update (example_node name vec hash (Some generated) (Some updated)) \<longleftrightarrow>
     generated < updated"
  by (simp add: older_than_update_def example_node_fields)

lemma trim_names: "trim ''A'' = ''A''" "trim ''B'' = ''B''" "trim ''C'' = ''C''" "trim [] = []"
  by (simp_all add: trim_def is_whitespace_def)

lemma prepare_example_node:
  "trim name = name \<Longrightarrow> name \<noteq> [] \<Longrightarrow>
   prepareEmbeddingContent example_library (Inl (example_node name vec hash generated updated)) =
     Inr (example_content name)"
  by (simp add: prepareEmbeddingContent_def example_node_def or_empty_def non_blank_parts_def
      trim_names example_content_def example_library_def Let_def)

lemma example_nodes_differ:
  "stale_node \<noteq> touched_node" "stale_node \<noteq> changed_node" "touched_node \<noteq> changed_node"
  by (simp_all add: stale_node_def touched_node_def changed_node_def example_node_def)

lemma reported_examples:
  "getNodesNeedingEmbeddings example_hash_db = Inr [touched_node, changed_node]"
  by (simp add: getNodesNeedingEmbeddings_def example_hash_db_def needs_embedding_iff
      stale_node_def touched_node_def changed_node_def example_node_fields
      older_than_update_example)

lemma kept_examples:
  "nodesToSave example_library False [touched_node, changed_node] =
     Inr [(changed_node, example_content ''C'')]"
  "nodesToSave example_library True [touched_node, changed_node] =
     Inr [(touched_node, example_content ''B''), (changed_node, example_content ''C'')]"
  by (simp_all add: nodesToSave_def changed_entries_def touched_node_def changed_node_def
      prepare_example_node trim_names example_node_fields example_content_def)

text \<open>
  C2 as stated has every entity reported whose stored hash is not the hash of its
  current text. The stored hash of the node \<open>A\<close> differs from the hash of its text, and
  the query does not report it: its embedding is newer than its row.
\<close>

theorem stale_hash_not_reported_counterexample:
  "prepareEmbeddingContent example_library (Inl stale_node) = Inr (example_content ''A'') \<and>
   contentHash (example_content ''A'') = ''sha256 of A'' \<and>
   embedding_content_hash stale_node = Some ''sha256 of an older A'' \<and>
   ''sha256 of an older A'' \<noteq> ''sha256 of A'' \<and>
   getNodesNeedingEmbeddings example_hash_db = Inr [touched_node, changed_node] \<and>
   stale_node \<notin> set [touched_node, changed_node]"
  by (simp add: reported_examples example_nodes_differ)
     (simp add: stale_node_def prepare_example_node trim_names example_node_fields
        example_content_def)

theorem needing_embeddings_characterised_witness:
  "getNodesNeedingEmbeddings example_hash_db = Inr [touched_node, changed_node] \<and>
   (\<exists>db'. saveEmbedding example_hash_db 20 ''C'' [0, 1] ''sha256 of C'' ''text-embedding-3-small''
             = Inr db' \<and>
          getNodesNeedingEmbeddings db' = Inr [touched_node]) \<and>
   (\<exists>kept. nodesToSave example_library False [touched_node, changed_node] = Inr kept \<and>
          (changed_node, example_content ''C'') \<in> set kept \<and>
          (touched_node, example_content ''B'') \<notin> set kept) \<and>
   nodesToSave example_library False [touched_node, changed_node] =
     Inr [(changed_node, example_content ''C'')] \<and>
   nodesToSave example_library True [touched_node, changed_node] =
     Inr [(touched_node, example_content ''B''), (changed_node, example_content ''C'')] \<and>
   (\<exists>failure. getNodesNeedingEmbeddings \<lparr>nodes_table = None, templates_table = Some []\<rparr>
                 = Inl failure)"
proof -
  let ?rows = "[stale_node, touched_node, changed_node]"
  let ?batch = "[touched_node, changed_node]"
  let ?missing = "\<lparr>nodes_table = None, templates_table = Some []\<rparr>"
  have n: "nodes_table example_hash_db = Some ?rows"
    by (simp add: example_hash_db_def)
  have f: "embedding_vector stale_node \<noteq> None" "embedding_content_hash stale_node \<noteq> None"
    "embedding_vector touched_node \<noteq> None" "embedding_content_hash touched_node \<noteq> None"
    "embedding_vector changed_node \<noteq> None" "embedding_content_hash changed_node \<noteq> None"
    "\<not> older_than_update stale_node" "older_than_update touched_node"
    "older_than_update changed_node"
    by (simp_all add: stale_node_def touched_node_def changed_node_def example_node_fields
        older_than_update_example)
  have t: "node_type stale_node = ''A''" "node_type touched_node = ''B''"
    "node_type changed_node = ''C''" "updated_at changed_node = Some 10"
    by (simp_all add: stale_node_def touched_node_def changed_node_def example_node_fields)
  have h: "embedding_content_hash touched_node = Some ''sha256 of B''"
    "embedding_content_hash changed_node = Some ''sha256 of an older C''"
    by (simp_all add: touched_node_def changed_node_def example_node_fields)
  have "getNodesNeedingEmbeddings example_hash_db =
          Inr (filter (\<lambda>row. embedding_vector row = None \<or> embedding_content_hash row = None \<or>
                             older_than_update row) ?rows)"
    using needing_embeddings_characterised [where db = example_hash_db and rows = ?rows,
        THEN conjunct1] n by (rule mp)
  then have 1: "getNodesNeedingEmbeddings example_hash_db = Inr [touched_node, changed_node]"
    using f by simp
  have u: "nodes_table example_hash_db = Some ?rows \<and>
     (\<forall>r \<in> set ?rows. node_type r = ''C'' \<longrightarrow>
       updated_at r = None \<or> (\<exists>u. updated_at r = Some u \<and> u \<le> (20 :: nat)))"
    using n t by simp
  have "\<exists>db' reported.
          saveEmbedding example_hash_db 20 ''C'' [0, 1] ''sha256 of C'' ''text-embedding-3-small''
            = Inr db' \<and>
          getNodesNeedingEmbeddings db' = Inr reported \<and> (\<forall>r \<in> set reported. node_type r \<noteq> ''C'')"
    using needing_embeddings_characterised [where db = example_hash_db and rows = ?rows
        and key = "''C''" and now = 20 and embedding = "[0, 1]" and new_hash = "''sha256 of C''"
        and model = "''text-embedding-3-small''", THEN conjunct2, THEN conjunct2, THEN conjunct2, THEN conjunct2, THEN conjunct1] u
    by (rule mp)
  then obtain db' reported
    where s: "saveEmbedding example_hash_db 20 ''C'' [0, 1] ''sha256 of C'' ''text-embedding-3-small''
                = Inr db'"
      and g: "getNodesNeedingEmbeddings db' = Inr reported"
    by blast
  have "getNodesNeedingEmbeddings db' = Inr [touched_node]"
    using s
    by (auto simp: saveEmbedding_def example_hash_db_def getNodesNeedingEmbeddings_def
        needs_embedding_def sql_less_def set_embedding_def stale_node_def touched_node_def
        changed_node_def example_node_def)
  then have 2: "\<exists>db'. saveEmbedding example_hash_db 20 ''C'' [0, 1] ''sha256 of C''
                        ''text-embedding-3-small'' = Inr db' \<and>
                      getNodesNeedingEmbeddings db' = Inr [touched_node]"
    using s by blast
  have p: "prepareEmbeddingContent example_library (Inl touched_node) = Inr (example_content ''B'')"
    "prepareEmbeddingContent example_library (Inl changed_node) = Inr (example_content ''C'')"
    by (simp_all add: touched_node_def changed_node_def prepare_example_node trim_names)
  then have a: "\<forall>n \<in> set ?batch. \<exists>p. prepareEmbeddingContent example_library (Inl n) = Inr p"
    by simp
  have "\<exists>kept. nodesToSave example_library False ?batch = Inr kept"
    using needing_embeddings_characterised [where lib = example_library and batch = ?batch
        and forceRegenerate = False, THEN conjunct2, THEN conjunct2, THEN conjunct2, THEN conjunct2, THEN conjunct2, THEN conjunct2, THEN conjunct2, THEN conjunct2, THEN conjunct1] a
    by (rule mp)
  then obtain kept where k: "nodesToSave example_library False ?batch = Inr kept"
    by blast
  have m: "(node, prepared) \<in> set kept \<longleftrightarrow>
         node \<in> set ?batch \<and> prepareEmbeddingContent example_library (Inl node) = Inr prepared \<and>
         (False \<or> embedding_content_hash node \<noteq> Some (contentHash prepared))" for node prepared
    using needing_embeddings_characterised [where lib = example_library and batch = ?batch
        and forceRegenerate = False and kept = kept and node = node and prepared = prepared,
        THEN conjunct2, THEN conjunct2, THEN conjunct2, THEN conjunct2, THEN conjunct2, THEN conjunct2, THEN conjunct1] k
    by (rule mp)
  have "(changed_node, example_content ''C'') \<in> set kept"
    "(touched_node, example_content ''B'') \<notin> set kept"
    using p h by (simp_all add: m example_content_def)
  then have 3: "\<exists>kept. nodesToSave example_library False ?batch = Inr kept \<and>
          (changed_node, example_content ''C'') \<in> set kept \<and>
          (touched_node, example_content ''B'') \<notin> set kept"
    using k by blast
  have "nodes_table ?missing = None" by simp
  with needing_embeddings_characterised [where db = ?missing, THEN conjunct2, THEN conjunct2, THEN conjunct1]
  have 4: "\<exists>failure. getNodesNeedingEmbeddings ?missing = Inl failure"
    by (rule mp)
  from 1 2 3 kept_examples 4 show ?thesis
    by (intro conjI)
qed

subsection \<open>The optimal-k helper\<close>

text \<open>
  C9, as the code has it: \<open>getOptimalK\<close> returns 30 when the combined count is below 10,
  60 when it is at least 10 and below 50, and 90 when it is 50 or more.
\<close>

theorem getOptimalK_bands:
  "(a + b < 10 \<longrightarrow> getOptimalK a b = 30) \<and>
   (10 \<le> a + b \<and> a + b < 50 \<longrightarrow> getOptimalK a b = 60) \<and>
   (50 \<le> a + b \<longrightarrow> getOptimalK a b = 90)"
  by (simp add: getOptimalK_def)

theorem getOptimalK_bands_witness:
  "getOptimalK 4 5 = 30 \<and> getOptimalK 4 6 = 60 \<and> getOptimalK 40 9 = 60 \<and>
   getOptimalK 40 10 = 90 \<and> getOptimalK 40 11 = 90"
  using getOptimalK_bands [of 4 5] getOptimalK_bands [of 4 6] getOptimalK_bands [of 40 9]
    getOptimalK_bands [of 40 10] getOptimalK_bands [of 40 11]
  by simp

text \<open>
  C9 as stated asks for 60 at a combined count of exactly 50; the code returns 90 there.
\<close>

theorem getOptimalK_at_50_counterexample:
  "getOptimalK 25 25 = 90 \<and> getOptimalK 25 25 \<noteq> 60"
  by (simp add: getOptimalK_def)

end
